(* ===== verification/Prelude.thy ===== *)
theory Prelude
  imports Main "HOL-Library.Word" "HOL-Library.Sublist"
begin

text \<open>
  Shared vocabulary of the development: Rust's machine integers as words, the three ways a
  Rust call can end (a value, an \<^verbatim>\<open>Err\<close>, a panic) as one result type with its bind, I/O
  errors, \<^verbatim>\<open>RwLock\<close>s with poisoning, decimal printing, substring search, and the generic
  transition-system locale behind every invariant of the state machines.

  Arithmetic follows the release profile that the repository's README prescribes
  (\<^verbatim>\<open>cargo build --release\<close>, no \<^verbatim>\<open>overflow-checks\<close> override in \<^verbatim>\<open>Cargo.toml\<close>):
  \<^verbatim>\<open>+\<close>, \<^verbatim>\<open>-\<close> and \<^verbatim>\<open>*\<close> on fixed-width integers wrap around, so they are the
  operations of the word type; slice indexing out of range, \<^verbatim>\<open>unwrap\<close>, \<^verbatim>\<open>expect\<close> and
  \<^verbatim>\<open>panic!\<close> are panics.
\<close>

unbundle bit_operations_syntax

section \<open>Types\<close>

type_synonym byte = "8 word"
type_synonym bytes = "byte list"
type_synonym u8 = "8 word"
type_synonym i8 = "8 word" \<comment> \<open>two's complement, read by \<open>sint\<close>\<close>
type_synonym u16 = "16 word"
type_synonym u32 = "32 word"
type_synonym u64 = "64 word"
type_synonym usize = "64 word"

datatype io_error_kind =
    InvalidInput | InvalidData | UnexpectedEof | WouldBlock | TimedOut | Other

text \<open>\<^verbatim>\<open>std::io::Error\<close>: a kind and a message.\<close>

datatype io_error = Io_Error (io_kind: io_error_kind) (io_msg: string)

section \<open>Named fact collections\<close>

named_theorems result_simps \<open>inversion of bind and of the other result combinators\<close>
named_theorems byte_simps \<open>lengths and round trips of the byte codecs\<close>
named_theorems cursor_simps \<open>what a read does to a cursor\<close>

section \<open>Results: a value, an error or a panic\<close>

datatype ('a, 'e) result = Ok 'a | Err 'e | Panic string

fun bind_r :: "('a, 'e) result \<Rightarrow> ('a \<Rightarrow> ('b, 'e) result) \<Rightarrow> ('b, 'e) result" where
  "bind_r (Ok x) f = f x"
| "bind_r (Err e) f = Err e"
| "bind_r (Panic p) f = Panic p"

text \<open>\<^verbatim>\<open>Result::unwrap\<close> and \<^verbatim>\<open>expect\<close>: an error becomes a panic.\<close>

fun unwrap_r :: "string \<Rightarrow> ('a, 'e) result \<Rightarrow> ('a, 'f) result" where
  "unwrap_r msg (Ok x) = Ok x"
| "unwrap_r msg (Err e) = Panic msg"
| "unwrap_r msg (Panic p) = Panic p"

text \<open>\<^verbatim>\<open>Option::unwrap\<close>.\<close>

fun unwrap_o :: "'a option \<Rightarrow> ('a, 'e) result" where
  "unwrap_o (Some x) = Ok x"
| "unwrap_o None = Panic ''called Option::unwrap() on a None value''"

fun map_err :: "('e \<Rightarrow> 'f) \<Rightarrow> ('a, 'e) result \<Rightarrow> ('a, 'f) result" where
  "map_err f (Ok x) = Ok x"
| "map_err f (Err e) = Err (f e)"
| "map_err f (Panic p) = Panic p"

text \<open>The result of an operation that cannot fail but may panic.\<close>

fun infallible :: "('a, unit) result \<Rightarrow> ('a, 'e) result" where
  "infallible (Ok a) = Ok a"
| "infallible (Err u) = Panic ''internal error: entered unreachable code''"
| "infallible (Panic p) = Panic p"

fun is_ok :: "('a, 'e) result \<Rightarrow> bool" where
  "is_ok (Ok _) = True"
| "is_ok (Err _) = False"
| "is_ok (Panic _) = False"

fun panics :: "('a, 'e) result \<Rightarrow> bool" where
  "panics (Panic _) = True"
| "panics (Ok _) = False"
| "panics (Err _) = False"

text \<open>Indexing a slice or a vector, \<^verbatim>\<open>xs[i]\<close>, and the prefix slice \<^verbatim>\<open>&xs[0..n]\<close>.\<close>

definition index_r :: "'a list \<Rightarrow> nat \<Rightarrow> ('a, 'e) result" where
  "index_r xs i = (if i < length xs then Ok (xs ! i) else Panic ''index out of bounds'')"

definition slice_r :: "'a list \<Rightarrow> nat \<Rightarrow> nat \<Rightarrow> ('a list, 'e) result" where
  "slice_r xs i j =
     (if i \<le> j \<and> j \<le> length xs then Ok (take (j - i) (drop i xs))
      else Panic ''range out of bounds of slice'')"

lemma bind_r_cong [fundef_cong]:
  assumes "m = m'" and "\<And>x. m' = Ok x \<Longrightarrow> f x = f' x"
  shows "bind_r m f = bind_r m' f'"
  using assms by (cases m') auto

lemma bind_r_eq_Ok [result_simps]:
  "bind_r m f = Ok y \<longleftrightarrow> (\<exists>x. m = Ok x \<and> f x = Ok y)"
  by (cases m) auto

lemma bind_r_eq_Err [result_simps]:
  "bind_r m f = Err e \<longleftrightarrow> m = Err e \<or> (\<exists>x. m = Ok x \<and> f x = Err e)"
  by (cases m) auto

lemma bind_r_eq_Panic [result_simps]:
  "bind_r m f = Panic p \<longleftrightarrow> m = Panic p \<or> (\<exists>x. m = Ok x \<and> f x = Panic p)"
  by (cases m) auto

lemma panics_bind_r [result_simps]:
  "panics (bind_r m f) \<longleftrightarrow> panics m \<or> (\<exists>x. m = Ok x \<and> panics (f x))"
  by (cases m) auto

lemma is_ok_iff [result_simps]: "is_ok m \<longleftrightarrow> (\<exists>x. m = Ok x)"
  by (cases m) auto

lemma unwrap_r_eq_Ok [result_simps]: "unwrap_r msg m = Ok x \<longleftrightarrow> m = Ok x"
  by (cases m) auto

lemma unwrap_r_not_Err [simp]: "unwrap_r msg m \<noteq> Err e"
  by (cases m) auto

lemma unwrap_o_eq_Ok [result_simps]: "unwrap_o m = Ok x \<longleftrightarrow> m = Some x"
  by (cases m) auto

lemma unwrap_o_not_Err [simp]: "unwrap_o m \<noteq> Err e"
  by (cases m) auto

lemma panics_unwrap_o [result_simps]: "panics (unwrap_o m) \<longleftrightarrow> m = None"
  by (cases m) auto

lemma map_err_eq_Ok [result_simps]: "map_err f m = Ok x \<longleftrightarrow> m = Ok x"
  by (cases m) auto

lemma panics_map_err [simp]: "panics (map_err f m) = panics m"
  by (cases m) auto

lemma index_r_eq_Ok [result_simps]: "index_r xs i = Ok x \<longleftrightarrow> i < length xs \<and> x = xs ! i"
  by (auto simp: index_r_def)

lemma slice_r_eq_Ok [result_simps]:
  "slice_r xs i j = Ok ys \<longleftrightarrow> i \<le> j \<and> j \<le> length xs \<and> ys = take (j - i) (drop i xs)"
  by (auto simp: slice_r_def)

text \<open>The same bind for an operation on a state that is changed even when it fails.\<close>

fun bind_s :: "'s \<times> ('a, 'e) result \<Rightarrow> ('a \<Rightarrow> 's \<Rightarrow> 's \<times> ('b, 'e) result) \<Rightarrow> 's \<times> ('b, 'e) result" where
  "bind_s (s, Ok x) f = f x s"
| "bind_s (s, Err e) f = (s, Err e)"
| "bind_s (s, Panic p) f = (s, Panic p)"

lemma bind_s_eq_Ok [result_simps]:
  "bind_s m f = (t, Ok y) \<longleftrightarrow> (\<exists>s x. m = (s, Ok x) \<and> f x s = (t, Ok y))"
  by (cases m; cases "snd m") auto

section \<open>Word bounds\<close>

lemma unat_width:
  "unat (a :: u16) < 65536" "unat (b :: u32) < 4294967296"
  "unat (c :: u64) < 18446744073709551616"
  using unsigned_less [of a] unsigned_less [of b] unsigned_less [of c] by simp_all

section \<open>Locks\<close>

text \<open>
  \<^verbatim>\<open>RwLock<T>\<close>: the protected value and the poison flag. A lock is poisoned when a holder of
  its write guard panics; \<^verbatim>\<open>read().unwrap()\<close> and \<^verbatim>\<open>write().unwrap()\<close> then panic.
\<close>

record 'a rwlock =
  lock_val :: 'a
  lock_poisoned :: bool

definition new_lock :: "'a \<Rightarrow> 'a rwlock" where
  "new_lock v = \<lparr>lock_val = v, lock_poisoned = False\<rparr>"

definition rw_read :: "'a rwlock \<Rightarrow> ('a, 'e) result" where
  "rw_read l = (if lock_poisoned l then Panic ''PoisonError'' else Ok (lock_val l))"

lemma rw_read_new_lock [simp]: "rw_read (new_lock v) = Ok v"
  by (simp add: rw_read_def new_lock_def)

lemma rw_read_eq_Ok [result_simps]:
  "rw_read l = Ok v \<longleftrightarrow> \<not> lock_poisoned l \<and> v = lock_val l"
  by (auto simp: rw_read_def)

section \<open>Strings\<close>

text \<open>Decimal printing of an unsigned integer (\<^verbatim>\<open>format!("{}", n)\<close>).\<close>

fun show_nat :: "nat \<Rightarrow> string" where
  "show_nat n = (if n < 10 then [char_of (48 + n)]
                 else show_nat (n div 10) @ [char_of (48 + n mod 10)])"

declare show_nat.simps [simp del]

text \<open>\<^verbatim>\<open>str::contains\<close>.\<close>

definition str_contains :: "string \<Rightarrow> string \<Rightarrow> bool" where
  "str_contains hay needle = list_ex (\<lambda>s. prefix needle s) (suffixes hay)"

lemma str_contains_iff: "str_contains hay needle \<longleftrightarrow> (\<exists>a b. hay = a @ needle @ b)"
  by (auto simp: str_contains_def list_ex_iff prefix_def suffix_def Bex_def)

definition digit_val :: "char \<Rightarrow> nat" where
  "digit_val c = of_char c - 48"

text \<open>The decimal value of a digit string: the left inverse that makes printing injective.\<close>

definition read_nat :: "string \<Rightarrow> nat" where
  "read_nat s = foldl (\<lambda>a c. 10 * a + digit_val c) 0 s"

lemma digit_val_char_of: "d < 10 \<Longrightarrow> digit_val (char_of (48 + d)) = d"
  by (simp add: digit_val_def of_char_of)

lemma read_show_nat [simp]: "read_nat (show_nat n) = n"
proof (induction n rule: show_nat.induct)
  case (1 n)
  show ?case
  proof (cases "n < 10")
    case True
    then show ?thesis by (simp add: show_nat.simps [of n] read_nat_def digit_val_char_of)
  next
    case False
    then have "read_nat (show_nat n) = 10 * read_nat (show_nat (n div 10)) + n mod 10"
      by (simp add: show_nat.simps [of n] read_nat_def digit_val_char_of)
    with False "1.IH" show ?thesis by simp
  qed
qed

lemma inj_show_nat: "show_nat m = show_nat n \<longleftrightarrow> m = n"
  by (metis read_show_nat)

section \<open>Transition systems\<close>

text \<open>
  A component with state is a set of start states and a step relation; an invariant that
  holds initially and is kept by every step holds in every reachable state.
\<close>

inductive reachable :: "('s \<Rightarrow> bool) \<Rightarrow> ('s \<Rightarrow> 's \<Rightarrow> bool) \<Rightarrow> 's \<Rightarrow> bool"
  for init :: "'s \<Rightarrow> bool" and step :: "'s \<Rightarrow> 's \<Rightarrow> bool" where
  reachable_init: "init s \<Longrightarrow> reachable init step s"
| reachable_step: "reachable init step s \<Longrightarrow> step s t \<Longrightarrow> reachable init step t"

locale transition_system =
  fixes init :: "'s \<Rightarrow> bool"
    and step :: "'s \<Rightarrow> 's \<Rightarrow> bool"
    and inv :: "'s \<Rightarrow> bool"
  assumes inv_init: "init s \<Longrightarrow> inv s"
    and inv_step: "inv s \<Longrightarrow> step s t \<Longrightarrow> inv t"
begin

lemma inv_reachable: "reachable init step s \<Longrightarrow> inv s"
  by (induction rule: reachable.induct) (auto intro: inv_init inv_step)

lemma inv_steps: "step\<^sup>*\<^sup>* s t \<Longrightarrow> inv s \<Longrightarrow> inv t"
  by (induction rule: rtranclp_induct) (auto intro: inv_step)

end

end
