(* ===== verification/Bytes.thy ===== *)
theory Bytes
  imports Prelude
begin

text \<open>
  Big-endian integers (\<^verbatim>\<open>to_be_bytes\<close>, \<^verbatim>\<open>from_be_bytes\<close> and byteorder's
  \<^verbatim>\<open>read_u*::<BigEndian>\<close>/\<^verbatim>\<open>write_u*::<BigEndian>\<close>), and \<^verbatim>\<open>std::io::Cursor\<close> over a
  byte slice with the reads the parsers use.
\<close>

declare add_2_eq_Suc [simp del] add_2_eq_Suc' [simp del]

section \<open>Big-endian numbers\<close>

definition be_nat :: "bytes \<Rightarrow> nat" where
  "be_nat bs = foldl (\<lambda>a b. 256 * a + unat b) 0 bs"

primrec be_bytes :: "nat \<Rightarrow> nat \<Rightarrow> bytes" where
  "be_bytes 0 n = []"
| "be_bytes (Suc k) n = be_bytes k (n div 256) @ [of_nat n]"

lemma be_bytes_numeral [simp]:
  "be_bytes (numeral k) n = be_bytes (pred_numeral k) (n div 256) @ [of_nat n]"
  by (rule be_bytes.simps(2) [of "pred_numeral k" n, folded numeral_eq_Suc])

lemma length_be_bytes [simp, byte_simps]: "length (be_bytes k n) = k"
  by (induction k arbitrary: n) auto

lemma be_nat_Nil [simp]: "be_nat [] = 0"
  by (simp add: be_nat_def)

lemma be_nat_snoc: "be_nat (bs @ [b]) = 256 * be_nat bs + unat b"
  by (simp add: be_nat_def)

lemma unat_byte_less [simp]: "unat (b :: byte) < 256"
  using unsigned_less [of b] by simp

lemma be_nat_less: "be_nat bs < 256 ^ length bs"
proof (induction bs rule: rev_induct)
  case (snoc b bs)
  have "256 * be_nat bs + unat b < 256 * (be_nat bs + 1)" by simp
  also have "\<dots> \<le> 256 * 256 ^ length bs" using snoc by (intro mult_le_mono) auto
  finally show ?case by (simp add: be_nat_snoc)
qed simp

lemma unat_of_nat_byte: "unat (of_nat n :: byte) = n mod 256"
  by (simp add: unat_of_nat)

lemma be_nat_be_bytes [byte_simps]: "be_nat (be_bytes k n) = n mod 256 ^ k"
proof (induction k arbitrary: n)
  case (Suc k)
  show ?case
    by (simp add: be_nat_snoc Suc unat_of_nat_byte mod_mult2_eq)
qed simp

lemma be_bytes_be_nat [byte_simps]: "length bs = k \<Longrightarrow> be_bytes k (be_nat bs) = bs"
proof (induction bs arbitrary: k rule: rev_induct)
  case (snoc b bs)
  have "(of_nat (256 * be_nat bs + unat b) :: byte) = b"
    by (simp add: word_unat_eq_iff unat_of_nat del: of_nat_add of_nat_mult)
  with snoc show ?case
    by (cases k) (auto simp: be_nat_snoc)
qed simp

section \<open>Fixed-width integers\<close>

definition u16_to_be :: "u16 \<Rightarrow> bytes" where
  "u16_to_be w = be_bytes 2 (unat w)"

definition u16_from_be :: "bytes \<Rightarrow> u16" where
  "u16_from_be bs = of_nat (be_nat bs)"

definition u32_to_be :: "u32 \<Rightarrow> bytes" where
  "u32_to_be w = be_bytes 4 (unat w)"

definition u32_from_be :: "bytes \<Rightarrow> u32" where
  "u32_from_be bs = of_nat (be_nat bs)"

definition u64_to_be :: "u64 \<Rightarrow> bytes" where
  "u64_to_be w = be_bytes 8 (unat w)"

definition u64_from_be :: "bytes \<Rightarrow> u64" where
  "u64_from_be bs = of_nat (be_nat bs)"

lemma length_uN_to_be [simp, byte_simps]:
  "length (u16_to_be a) = 2" "length (u32_to_be b) = 4" "length (u64_to_be c) = 8"
  by (simp_all add: u16_to_be_def u32_to_be_def u64_to_be_def)

lemma uN_to_be_not_Nil [simp]:
  "u16_to_be a \<noteq> []" "u32_to_be b \<noteq> []" "u64_to_be c \<noteq> []"
  by (simp_all add: u16_to_be_def u32_to_be_def u64_to_be_def)

lemma u16_from_to_be [simp, byte_simps]: "u16_from_be (u16_to_be w) = w"
  using unat_width(1) [of w]
  by (simp add: u16_from_be_def u16_to_be_def be_nat_be_bytes del: be_bytes_numeral)

lemma u32_from_to_be [simp, byte_simps]: "u32_from_be (u32_to_be w) = w"
  using unat_width(2) [of w]
  by (simp add: u32_from_be_def u32_to_be_def be_nat_be_bytes del: be_bytes_numeral)

lemma u64_from_to_be [simp, byte_simps]: "u64_from_be (u64_to_be w) = w"
  using unat_width(3) [of w]
  by (simp add: u64_from_be_def u64_to_be_def be_nat_be_bytes del: be_bytes_numeral)

lemma u16_to_from_be [byte_simps]: "length bs = 2 \<Longrightarrow> u16_to_be (u16_from_be bs) = bs"
  using be_nat_less [of bs]
  by (simp add: u16_from_be_def u16_to_be_def unat_of_nat be_bytes_be_nat del: be_bytes_numeral)

lemma u32_to_from_be [byte_simps]: "length bs = 4 \<Longrightarrow> u32_to_be (u32_from_be bs) = bs"
  using be_nat_less [of bs]
  by (simp add: u32_from_be_def u32_to_be_def unat_of_nat be_bytes_be_nat del: be_bytes_numeral)

lemma u64_to_from_be [byte_simps]: "length bs = 8 \<Longrightarrow> u64_to_be (u64_from_be bs) = bs"
  using be_nat_less [of bs]
  by (simp add: u64_from_be_def u64_to_be_def unat_of_nat be_bytes_be_nat del: be_bytes_numeral)

lemma unat_of_nat_u16: "n < 65536 \<Longrightarrow> unat (of_nat n :: u16) = n"
  by (simp add: unat_of_nat)

lemma u16_of_nat_mod_4: "n < 65536 \<Longrightarrow> (of_nat n :: u16) mod 4 = 0 \<longleftrightarrow> n mod 4 = 0"
  by (simp add: word_unat_eq_iff unat_mod unat_of_nat_u16)

lemma u16_of_nat_less_4: "n < 65536 \<Longrightarrow> (of_nat n :: u16) < 4 \<longleftrightarrow> n < 4"
  by (simp add: word_less_nat_alt unat_of_nat_u16)

lemma u16_of_nat_minus_4: "n + 4 < 65536 \<Longrightarrow> unat ((of_nat (n + 4) :: u16) - 4) = n"
  by (simp add: unat_of_nat_u16)

lemma u16_minus_4: "4 \<le> unat (l :: u16) \<Longrightarrow> unat (l - 4) = unat l - 4"
  by (simp add: unat_sub word_le_nat_alt)

lemma unat_u16_from_be: "length bs = 2 \<Longrightarrow> unat (u16_from_be bs) = be_nat bs"
  using be_nat_less [of bs] by (simp add: u16_from_be_def unat_of_nat)

section \<open>Cursors\<close>

record cursor =
  cbuf :: bytes
  cpos :: nat

definition new_cursor :: "bytes \<Rightarrow> cursor" where
  "new_cursor bs = \<lparr>cbuf = bs, cpos = 0\<rparr>"

text \<open>What is left to read.\<close>

definition rest :: "cursor \<Rightarrow> bytes" where
  "rest c = drop (cpos c) (cbuf c)"

definition remaining :: "cursor \<Rightarrow> nat" where
  "remaining c = length (cbuf c) - cpos c"

text \<open>\<^verbatim>\<open>Read::read_exact\<close>, the read behind every \<^verbatim>\<open>read_u*\<close>.\<close>

definition read_exact :: "nat \<Rightarrow> cursor \<Rightarrow> (bytes \<times> cursor, io_error) result" where
  "read_exact n c =
     (if n \<le> remaining c then Ok (take n (rest c), c\<lparr>cpos := cpos c + n\<rparr>)
      else Err (Io_Error UnexpectedEof ''failed to fill whole buffer''))"

definition read_u8 :: "cursor \<Rightarrow> (u8 \<times> cursor, io_error) result" where
  "read_u8 c = bind_r (read_exact 1 c) (\<lambda>(bs, c). Ok (hd bs, c))"

definition read_u16 :: "cursor \<Rightarrow> (u16 \<times> cursor, io_error) result" where
  "read_u16 c = bind_r (read_exact 2 c) (\<lambda>(bs, c). Ok (u16_from_be bs, c))"

definition read_u32 :: "cursor \<Rightarrow> (u32 \<times> cursor, io_error) result" where
  "read_u32 c = bind_r (read_exact 4 c) (\<lambda>(bs, c). Ok (u32_from_be bs, c))"

definition read_u64 :: "cursor \<Rightarrow> (u64 \<times> cursor, io_error) result" where
  "read_u64 c = bind_r (read_exact 8 c) (\<lambda>(bs, c). Ok (u64_from_be bs, c))"

text \<open>
  \<^verbatim>\<open>Read::read\<close> into a zeroed vector of length \<open>n\<close>: at most \<open>n\<close> bytes are copied, a short
  read leaves the zeros in place and is no error.
\<close>

definition cursor_read :: "nat \<Rightarrow> cursor \<Rightarrow> bytes \<times> cursor" where
  "cursor_read n c =
     (let k = min n (remaining c)
      in (take k (rest c) @ replicate (n - k) 0, c\<lparr>cpos := cpos c + k\<rparr>))"

lemma length_rest [simp, cursor_simps]: "length (rest c) = remaining c"
  by (simp add: rest_def remaining_def)

lemma new_cursor_simps [simp]:
  "cbuf (new_cursor bs) = bs" "cpos (new_cursor bs) = 0"
  "rest (new_cursor bs) = bs" "remaining (new_cursor bs) = length bs"
  by (simp_all add: new_cursor_def rest_def remaining_def)

lemma rest_advance [simp]: "rest (c\<lparr>cpos := cpos c + n\<rparr>) = drop n (rest c)"
  by (simp add: rest_def add.commute)

lemma remaining_advance [simp]: "remaining (c\<lparr>cpos := cpos c + n\<rparr>) = remaining c - n"
  by (simp add: remaining_def)

lemma read_exact_eq_Ok:
  "read_exact n c = Ok (bs, c') \<longleftrightarrow>
     n \<le> remaining c \<and> bs = take n (rest c) \<and> c' = c\<lparr>cpos := cpos c + n\<rparr>"
  by (auto simp: read_exact_def)

lemma read_u16_eq_Ok [cursor_simps]:
  "read_u16 c = Ok (w, c') \<longleftrightarrow>
     2 \<le> remaining c \<and> w = u16_from_be (take 2 (rest c)) \<and> c' = c\<lparr>cpos := cpos c + 2\<rparr>"
  by (auto simp: read_u16_def result_simps read_exact_eq_Ok)

lemma reads_Ok [cursor_simps]:
  "1 \<le> remaining c \<Longrightarrow> read_u8 c = Ok (hd (rest c), c\<lparr>cpos := cpos c + 1\<rparr>)"
  "2 \<le> remaining c \<Longrightarrow> read_u16 c = Ok (u16_from_be (take 2 (rest c)), c\<lparr>cpos := cpos c + 2\<rparr>)"
  "4 \<le> remaining c \<Longrightarrow> read_u32 c = Ok (u32_from_be (take 4 (rest c)), c\<lparr>cpos := cpos c + 4\<rparr>)"
  "8 \<le> remaining c \<Longrightarrow> read_u64 c = Ok (u64_from_be (take 8 (rest c)), c\<lparr>cpos := cpos c + 8\<rparr>)"
  by (simp_all add: read_u8_def read_u16_def read_u32_def read_u64_def read_exact_def hd_take)

lemma cursor_read_full [cursor_simps]:
  "n \<le> remaining c \<Longrightarrow> cursor_read n c = (take n (rest c), c\<lparr>cpos := cpos c + n\<rparr>)"
  by (simp add: cursor_read_def)

lemma cursor_read_short [cursor_simps]:
  "remaining c \<le> n \<Longrightarrow>
     cursor_read n c =
       (rest c @ replicate (n - remaining c) 0, c\<lparr>cpos := cpos c + remaining c\<rparr>)"
  by (simp add: cursor_read_def min_absorb2 Let_def)

lemma cursor_read_props:
  "length (fst (cursor_read n c)) = n"
  "cbuf (snd (cursor_read n c)) = cbuf c"
  "cpos c \<le> cpos (snd (cursor_read n c))"
  "remaining (snd (cursor_read n c)) \<le> remaining c"
  by (auto simp: cursor_read_def Let_def)

text \<open>Reads see only what is left of the buffer.\<close>

lemma cursor_read_rest:
  assumes "rest c = rest d"
  shows "fst (cursor_read n c) = fst (cursor_read n d)"
    and "rest (snd (cursor_read n c)) = rest (snd (cursor_read n d))"
proof -
  have "remaining c = remaining d"
    using assms length_rest [of c] length_rest [of d] by simp
  with assms show "fst (cursor_read n c) = fst (cursor_read n d)"
    and "rest (snd (cursor_read n c)) = rest (snd (cursor_read n d))"
    by (simp_all add: cursor_read_def Let_def)
qed

end
