(* ===== verification/Aead.thy ===== *)
theory Aead
  imports Bytes
begin

text \<open>
  The AEAD cipher is the \<^verbatim>\<open>miscreant\<close> crate's \<^verbatim>\<open>Aes128SivAead\<close> (AEAD_AES_SIV_CMAC_256),
  which the repository only calls. It is a parameter of the model: the record of its two
  operations, each taking the key given to \<^verbatim>\<open>Aes128SivAead::new\<close>, the nonce and the
  associated data. What the code relies on is stated as three named predicates, used as
  hypotheses where a property needs them:
  \<^item> \<open>aead_correct\<close>: opening what was sealed under the same key, nonce and data returns the
    plaintext;
  \<^item> \<open>aead_expands\<close>: the ciphertext is the 16-byte synthetic IV and the plaintext's length;
  \<^item> \<open>aead_committing\<close>: SIV mode recomputes the synthetic IV on opening, so only a sealed
    ciphertext opens.
  \<open>checksum_aead\<close> is a concrete instance that satisfies all three (it is no cipher); it shows
  that the hypotheses can hold together.
\<close>

record aead =
  aead_seal :: "bytes \<Rightarrow> bytes \<Rightarrow> bytes \<Rightarrow> bytes \<Rightarrow> bytes"
  aead_open :: "bytes \<Rightarrow> bytes \<Rightarrow> bytes \<Rightarrow> bytes \<Rightarrow> bytes option"

definition aead_correct :: "aead \<Rightarrow> bool" where
  "aead_correct A \<longleftrightarrow> (\<forall>k n a p. aead_open A k n a (aead_seal A k n a p) = Some p)"

definition aead_expands :: "aead \<Rightarrow> bool" where
  "aead_expands A \<longleftrightarrow> (\<forall>k n a p. length (aead_seal A k n a p) = length p + 16)"

definition aead_committing :: "aead \<Rightarrow> bool" where
  "aead_committing A \<longleftrightarrow>
     (\<forall>k n a c p. aead_open A k n a c = Some p \<longrightarrow> c = aead_seal A k n a p)"

lemma aead_correctD [simp]:
  "aead_correct A \<Longrightarrow> aead_open A k n a (aead_seal A k n a p) = Some p"
  by (simp add: aead_correct_def)

lemma aead_expandsD [simp]: "aead_expands A \<Longrightarrow> length (aead_seal A k n a p) = length p + 16"
  by (simp add: aead_expands_def)

lemma aead_committingD: "aead_committing A \<Longrightarrow> aead_open A k n a c = Some p \<Longrightarrow> c = aead_seal A k n a p"
  by (simp add: aead_committing_def)

section \<open>A concrete instance\<close>

definition checksum_tag :: "bytes \<Rightarrow> bytes \<Rightarrow> bytes \<Rightarrow> bytes \<Rightarrow> bytes" where
  "checksum_tag k n a p = replicate 16 (sum_list k + 3 * sum_list n + 5 * sum_list a + 7 * sum_list p)"

definition checksum_aead :: aead where
  "checksum_aead =
     \<lparr>aead_seal = (\<lambda>k n a p. checksum_tag k n a p @ p),
      aead_open = (\<lambda>k n a c. if 16 \<le> length c \<and> take 16 c = checksum_tag k n a (drop 16 c)
                            then Some (drop 16 c) else None)\<rparr>"

lemma length_checksum_tag [simp]: "length (checksum_tag k n a p) = 16"
  by (simp add: checksum_tag_def)

lemma checksum_aead_correct [simp]: "aead_correct checksum_aead"
  by (simp add: aead_correct_def checksum_aead_def)

lemma checksum_aead_expands [simp]: "aead_expands checksum_aead"
  by (simp add: aead_expands_def checksum_aead_def)

lemma checksum_aead_committing [simp]: "aead_committing checksum_aead"
  unfolding aead_committing_def
proof (intro allI impI)
  fix k n a c p
  assume "aead_open checksum_aead k n a c = Some p"
  then have "take 16 c = checksum_tag k n a p" and "drop 16 c = p"
    by (auto simp: checksum_aead_def split: if_splits)
  then show "c = aead_seal checksum_aead k n a p"
    using append_take_drop_id [of 16 c] by (simp add: checksum_aead_def)
qed

end
