(* ===== verification/Cookie.thy ===== *)
theory Cookie
  imports Aead
begin

text \<open>
  \<^verbatim>\<open>src/src/cookie.rs\<close> and the \<^verbatim>\<open>KeyId\<close> of \<^verbatim>\<open>src/src/key_rotator.rs\<close>: a cookie is the
  key id, a random nonce and the sealed pair of directional keys. The nonce drawn by
  \<^verbatim>\<open>thread_rng\<close> is an argument; fixed-size arrays are byte lists, with their sizes in
  \<open>wf_keys\<close>.
\<close>

section \<open>Key ids\<close>

datatype key_id = KeyId u32

definition key_id_new :: "u32 \<Rightarrow> key_id" where
  "key_id_new i = KeyId i"

text \<open>The cast to \<^verbatim>\<open>u32\<close> discards the 32 most significant bits.\<close>

definition from_epoch :: "u64 \<Rightarrow> key_id" where
  "from_epoch epoch = KeyId (ucast epoch)"

definition key_id_from_be_bytes :: "bytes \<Rightarrow> key_id" where
  "key_id_from_be_bytes bs = KeyId (u32_from_be bs)"

fun key_id_to_be_bytes :: "key_id \<Rightarrow> bytes" where
  "key_id_to_be_bytes (KeyId i) = u32_to_be i"

section \<open>Cookies\<close>

definition COOKIE_SIZE :: nat where "COOKIE_SIZE = 100"

record nts_keys =
  c2s :: bytes
  s2c :: bytes

definition wf_keys :: "nts_keys \<Rightarrow> bool" where
  "wf_keys ks \<longleftrightarrow> length (c2s ks) = 32 \<and> length (s2c ks) = 32"

text \<open>\<^verbatim>\<open>CookieKey::parse\<close>: the content of the file, which the file system provides.\<close>

datatype cookie_key = CookieKey bytes

definition cookie_key_parse ::
  "(string \<Rightarrow> (bytes, io_error) result) \<Rightarrow> string \<Rightarrow> (cookie_key, io_error) result" where
  "cookie_key_parse read_file filename =
     bind_r (read_file filename) (\<lambda>buffer. Ok (CookieKey buffer))"

fun cookie_key_as_bytes :: "cookie_key \<Rightarrow> bytes" where
  "cookie_key_as_bytes (CookieKey bs) = bs"

definition make_cookie :: "aead \<Rightarrow> bytes \<Rightarrow> nts_keys \<Rightarrow> bytes \<Rightarrow> key_id \<Rightarrow> bytes" where
  "make_cookie A nonce keys master_key kid =
     (let plaintext = c2s keys @ s2c keys;
          ciphertext = aead_seal A master_key nonce [] plaintext
      in key_id_to_be_bytes kid @ nonce @ ciphertext)"

definition get_keyid :: "bytes \<Rightarrow> key_id option" where
  "get_keyid cookie =
     (if length cookie < 4 then None else Some (key_id_from_be_bytes (take 4 cookie)))"

definition unpack :: "bytes \<Rightarrow> nts_keys option" where
  "unpack pt =
     (if length pt \<noteq> 64 then None
      else Some \<lparr>c2s = take 32 pt, s2c = take 32 (drop 32 pt)\<rparr>)"

definition eat_cookie :: "aead \<Rightarrow> bytes \<Rightarrow> bytes \<Rightarrow> nts_keys option" where
  "eat_cookie A cookie key =
     (if length cookie < 40 then None
      else let ciphertext = drop 4 cookie
           in case aead_open A key (take 16 ciphertext) [] (drop 16 ciphertext) of
                None \<Rightarrow> None
              | Some buf \<Rightarrow> unpack buf)"

section \<open>Lemmas\<close>

lemma length_key_id_to_be_bytes [simp]: "length (key_id_to_be_bytes i) = 4"
  by (cases i) simp

lemma key_id_from_to_be_bytes [simp]: "key_id_from_be_bytes (key_id_to_be_bytes i) = i"
  by (cases i) (simp add: key_id_from_be_bytes_def)

lemma key_id_to_from_be_bytes: "length bs = 4 \<Longrightarrow> key_id_to_be_bytes (key_id_from_be_bytes bs) = bs"
  by (simp add: key_id_from_be_bytes_def u32_to_from_be)

lemma unat_from_epoch: "from_epoch e = KeyId i \<Longrightarrow> unat i = unat e mod 2 ^ 32"
  by (auto simp: from_epoch_def unsigned_ucast_eq take_bit_eq_mod)

lemma from_epoch_eq_iff: "from_epoch a = from_epoch b \<longleftrightarrow> unat a mod 2 ^ 32 = unat b mod 2 ^ 32"
  by (simp add: from_epoch_def word_unat_eq_iff unsigned_ucast_eq take_bit_eq_mod)

lemma length_make_cookie:
  assumes "aead_expands A" and "wf_keys ks" and "length nonce = 16"
  shows "length (make_cookie A nonce ks k i) = COOKIE_SIZE"
  using assms by (simp add: make_cookie_def Let_def wf_keys_def COOKIE_SIZE_def)

lemma get_keyid_make_cookie [simp]: "get_keyid (make_cookie A nonce ks k i) = Some i"
  by (simp add: get_keyid_def make_cookie_def Let_def)

lemma unpack_keys: "wf_keys ks \<Longrightarrow> unpack (c2s ks @ s2c ks) = Some ks"
  by (cases ks) (simp add: unpack_def wf_keys_def)

lemma eat_make_cookie:
  assumes "aead_correct A" and "aead_expands A" and "wf_keys ks" and "length nonce = 16"
  shows "eat_cookie A (make_cookie A nonce ks k i) k = Some ks"
  using assms by (simp add: eat_cookie_def make_cookie_def Let_def unpack_keys wf_keys_def)

lemma unpack_SomeD: "unpack pt = Some ks \<Longrightarrow> wf_keys ks \<and> pt = c2s ks @ s2c ks"
  using append_take_drop_id [of 32 pt]
  by (auto simp: unpack_def wf_keys_def split: if_splits)

lemma eat_cookie_SomeD:
  assumes "aead_committing A" and "eat_cookie A c k = Some ks" and "get_keyid c = Some i"
  shows "wf_keys ks \<and> c = make_cookie A (take 16 (drop 4 c)) ks k i"
proof -
  obtain pt where len: "40 \<le> length c"
    and o: "aead_open A k (take 16 (drop 4 c)) [] (drop 16 (drop 4 c)) = Some pt"
    and u: "unpack pt = Some ks"
    using assms(2) by (auto simp: eat_cookie_def Let_def split: if_splits option.splits)
  have "drop 16 (drop 4 c) = aead_seal A k (take 16 (drop 4 c)) [] (c2s ks @ s2c ks)"
    using aead_committingD [OF assms(1) o] unpack_SomeD [OF u] by simp
  moreover have "key_id_to_be_bytes i = take 4 c"
    using assms(3) len by (auto simp: get_keyid_def key_id_to_from_be_bytes split: if_splits)
  moreover have "c = take 4 c @ take 16 (drop 4 c) @ drop 16 (drop 4 c)"
    by (metis append_take_drop_id)
  ultimately show ?thesis
    using unpack_SomeD [OF u] by (simp add: make_cookie_def Let_def)
qed

section \<open>Properties\<close>

definition sample_keys :: nts_keys where
  "sample_keys = \<lparr>c2s = replicate 32 1, s2c = replicate 32 2\<rparr>"

lemma sample_keys_wf: "wf_keys sample_keys"
  by (simp add: wf_keys_def sample_keys_def)

text \<open>
  C16: A cookie made for a pair of keys has the advertised size, shows the id of the master key it
  was sealed under, and gives the pair of keys back when it is opened under that master key.
\<close>

theorem cookie_roundtrip:
  assumes "aead_correct A" and "aead_expands A" and "wf_keys ks" and "length nonce = 16"
  shows "length (make_cookie A nonce ks k i) = COOKIE_SIZE \<and>
         get_keyid (make_cookie A nonce ks k i) = Some i \<and>
         eat_cookie A (make_cookie A nonce ks k i) k = Some ks"
  using length_make_cookie eat_make_cookie get_keyid_make_cookie assms by blast

theorem cookie_roundtrip_witness:
  "eat_cookie checksum_aead (make_cookie checksum_aead (replicate 16 9) sample_keys [5] (KeyId 77)) [5] =
     Some sample_keys"
  using cookie_roundtrip [of checksum_aead sample_keys "replicate 16 9" "[5]" "KeyId 77"] sample_keys_wf
  by simp

text \<open>
  C17: Under an AEAD that opens only what it seals, the only cookies the server opens under a
  master key are those \<^verbatim>\<open>make_cookie\<close> produces under it, for the very keys that come out.
\<close>

theorem eat_cookie_only_own_cookies:
  assumes "aead_committing A" and "eat_cookie A c k = Some ks" and "get_keyid c = Some i"
  shows "wf_keys ks \<and> c = make_cookie A (take 16 (drop 4 c)) ks k i"
  by (rule eat_cookie_SomeD [OF assms])

theorem eat_cookie_only_own_cookies_witness:
  "wf_keys sample_keys \<and>
   (let c = make_cookie checksum_aead (replicate 16 9) sample_keys [5] (KeyId 77)
    in c = make_cookie checksum_aead (take 16 (drop 4 c)) sample_keys [5] (KeyId 77))"
  unfolding Let_def
  by (rule eat_cookie_only_own_cookies)
    (simp_all add: sample_keys_wf get_keyid_make_cookie eat_make_cookie)

end
