(* ===== verification/Ip_Addr.thy ===== *)
theory Ip_Addr
  imports Bytes
begin

text \<open>
  \<^verbatim>\<open>std::net\<close> as far as the program uses it: the textual forms of IPv4 and IPv6 addresses,
  with the parsers and printers of the toolchain the README names (Rust 1.47). Strings are ASCII
  where they are parsed, so characters stand for bytes. A parser returns the value and the rest of
  the input, or \<open>None\<close> with the input untouched.
\<close>

section \<open>Parsing\<close>

type_synonym 'a parser = "string \<Rightarrow> ('a \<times> string) option"

text \<open>\<^verbatim>\<open>char::to_digit\<close>.\<close>

definition to_digit :: "nat \<Rightarrow> char \<Rightarrow> nat option" where
  "to_digit radix c =
     (let n = of_char c :: nat;
          d = (if 48 \<le> n \<and> n \<le> 57 then n - 48
               else if 97 \<le> n \<and> n \<le> 122 then n - 87
               else if 65 \<le> n \<and> n \<le> 90 then n - 55
               else 36)
      in if d < radix then Some d else None)"

text \<open>
  \<^verbatim>\<open>read_number\<close>: digits up to the first other character; too many digits, too large a value
  and no digit at all are failures.
\<close>

fun read_number_loop :: "nat \<Rightarrow> nat \<Rightarrow> nat \<Rightarrow> nat \<Rightarrow> nat \<Rightarrow> nat parser" where
  "read_number_loop radix max_digits bound result count [] =
     (if count = 0 then None else Some (result, []))"
| "read_number_loop radix max_digits bound result count (c # cs) =
     (case to_digit radix c of
        None \<Rightarrow> if count = 0 then None else Some (result, c # cs)
      | Some digit \<Rightarrow>
          let result = result * radix + digit; count = count + 1
          in if max_digits < count \<or> bound \<le> result then None
             else read_number_loop radix max_digits bound result count cs)"

definition read_number :: "nat \<Rightarrow> nat \<Rightarrow> nat \<Rightarrow> nat parser" where
  "read_number radix max_digits bound s = read_number_loop radix max_digits bound 0 0 s"

fun read_given_char :: "char \<Rightarrow> unit parser" where
  "read_given_char target [] = None"
| "read_given_char target (c # cs) = (if c = target then Some ((), cs) else None)"

text \<open>The separator is read before every element but the first.\<close>

definition read_separator :: "char \<Rightarrow> nat \<Rightarrow> 'a parser \<Rightarrow> 'a parser" where
  "read_separator sep i p s =
     (if i = 0 then p s
      else case read_given_char sep s of None \<Rightarrow> None | Some (_, s') \<Rightarrow> p s')"

text \<open>An IPv4 address is its four octets, an IPv6 address its eight segments.\<close>

datatype ipv4_addr = Ipv4Addr u8 u8 u8 u8

datatype ipv6_addr = Ipv6Addr "u16 list"

fun segments :: "ipv6_addr \<Rightarrow> u16 list" where
  "segments (Ipv6Addr ss) = ss"

definition wf_ipv6 :: "ipv6_addr \<Rightarrow> bool" where
  "wf_ipv6 a \<longleftrightarrow> length (segments a) = 8"

definition read_octet :: "nat \<Rightarrow> u8 parser" where
  "read_octet i =
     read_separator (CHR ''.'') i
       (\<lambda>s. map_option (\<lambda>(n, s'). (of_nat n, s')) (read_number 10 3 256 s))"

definition read_ipv4_addr :: "ipv4_addr parser" where
  "read_ipv4_addr s0 =
     (case read_octet 0 s0 of None \<Rightarrow> None | Some (a, s1) \<Rightarrow>
     (case read_octet 1 s1 of None \<Rightarrow> None | Some (b, s2) \<Rightarrow>
     (case read_octet 2 s2 of None \<Rightarrow> None | Some (c, s3) \<Rightarrow>
     (case read_octet 3 s3 of None \<Rightarrow> None | Some (d, s4) \<Rightarrow>
     Some (Ipv4Addr a b c d, s4)))))"

text \<open>
  \<^verbatim>\<open>read_groups\<close> with \<open>todo\<close> slots left, \<open>i\<close> groups read so far: the groups, whether they end
  in an embedded IPv4 address, and the rest of the input.
\<close>

fun ipv4_groups :: "ipv4_addr \<Rightarrow> u16 list" where
  "ipv4_groups (Ipv4Addr a b c d) = [u16_from_be [a, b], u16_from_be [c, d]]"

fun read_groups :: "nat \<Rightarrow> nat \<Rightarrow> string \<Rightarrow> u16 list \<times> bool \<times> string" where
  "read_groups 0 i s = ([], False, s)"
| "read_groups (Suc todo) i s =
     (case (if 0 < todo then read_separator (CHR '':'') i read_ipv4_addr s else None) of
        Some (v4, s') \<Rightarrow> (ipv4_groups v4, True, s')
      | None \<Rightarrow>
          (case read_separator (CHR '':'') i (read_number 16 4 65536) s of
             None \<Rightarrow> ([], False, s)
           | Some (g, s') \<Rightarrow>
               (case read_groups todo (Suc i) s' of (gs, v4, s'') \<Rightarrow> (of_nat g # gs, v4, s''))))"

definition read_ipv6_addr :: "ipv6_addr parser" where
  "read_ipv6_addr s =
     (case read_groups 8 0 s of (head, head_ipv4, s1) \<Rightarrow>
        if length head = 8 then Some (Ipv6Addr head, s1)
        else if head_ipv4 then None
        else case read_given_char (CHR '':'') s1 of None \<Rightarrow> None | Some (_, s2) \<Rightarrow>
             (case read_given_char (CHR '':'') s2 of None \<Rightarrow> None | Some (_, s3) \<Rightarrow>
             (case read_groups (8 - (length head + 1)) 0 s3 of (tail, _, s4) \<Rightarrow>
                Some (Ipv6Addr (head @ replicate (8 - length head - length tail) 0 @ tail), s4))))"

definition read_till_eof :: "'a parser \<Rightarrow> string \<Rightarrow> 'a option" where
  "read_till_eof p s = (case p s of Some (a, []) \<Rightarrow> Some a | _ \<Rightarrow> None)"

definition ipv4_from_str :: "string \<Rightarrow> ipv4_addr option" where
  "ipv4_from_str s = read_till_eof read_ipv4_addr s"

definition ipv6_from_str :: "string \<Rightarrow> ipv6_addr option" where
  "ipv6_from_str s = read_till_eof read_ipv6_addr s"

section \<open>Printing\<close>

fun ipv4_to_string :: "ipv4_addr \<Rightarrow> string" where
  "ipv4_to_string (Ipv4Addr a b c d) =
     show_nat (unat a) @ ''.'' @ show_nat (unat b) @ ''.'' @ show_nat (unat c) @ ''.'' @ show_nat (unat d)"

definition hex_digit :: "nat \<Rightarrow> char" where
  "hex_digit d = char_of (if d < 10 then 48 + d else 87 + d)"

fun show_hex :: "nat \<Rightarrow> string" where
  "show_hex n = (if n < 16 then [hex_digit n] else show_hex (n div 16) @ [hex_digit (n mod 16)])"

declare show_hex.simps [simp del]

text \<open>The longest run of zero segments, the first one among equals: its start and its length.\<close>

fun zero_span_loop :: "u16 list \<Rightarrow> nat \<Rightarrow> nat \<times> nat \<Rightarrow> nat \<times> nat \<Rightarrow> nat \<times> nat" where
  "zero_span_loop [] i longest current = longest"
| "zero_span_loop (s # ss) i longest current =
     (if s = 0 then
        let start = (if snd current = 0 then i else fst current);
            current' = (start, snd current + 1);
            longest' = (if snd longest < snd current' then current' else longest)
        in zero_span_loop ss (Suc i) longest' current'
      else zero_span_loop ss (Suc i) longest (0, 0))"

definition zero_span :: "u16 list \<Rightarrow> nat \<times> nat" where
  "zero_span ss = zero_span_loop ss 0 (0, 0) (0, 0)"

fun fmt_subslice :: "u16 list \<Rightarrow> string" where
  "fmt_subslice [] = []"
| "fmt_subslice [s] = show_hex (unat s)"
| "fmt_subslice (s # t # ss) = show_hex (unat s) @ '':'' @ fmt_subslice (t # ss)"

definition ipv4_of_segments :: "u16 \<Rightarrow> u16 \<Rightarrow> ipv4_addr" where
  "ipv4_of_segments g h =
     (case (u16_to_be g, u16_to_be h) of
        ([a, b], [c, d]) \<Rightarrow> Ipv4Addr a b c d | _ \<Rightarrow> Ipv4Addr 0 0 0 0)"

definition ipv6_to_string :: "ipv6_addr \<Rightarrow> string" where
  "ipv6_to_string addr =
     (let ss = segments addr in
      if ss = replicate 8 0 then ''::''
      else if ss = replicate 7 0 @ [1] then ''::1''
      else if take 6 ss = replicate 6 0 then ''::'' @ ipv4_to_string (ipv4_of_segments (ss ! 6) (ss ! 7))
      else if take 6 ss = replicate 5 0 @ [0xffff]
        then ''::ffff:'' @ ipv4_to_string (ipv4_of_segments (ss ! 6) (ss ! 7))
      else let (start, len) = zero_span ss in
           if 1 < len then fmt_subslice (take start ss) @ ''::'' @ fmt_subslice (drop (start + len) ss)
           else fmt_subslice ss)"

section \<open>Round trips\<close>

lemma of_char_char_of_small [simp]: "n < 256 \<Longrightarrow> (of_char (char_of (n :: nat)) :: nat) = n"
  by (simp add: of_char_of)

lemma to_digit_decimal: "d < 10 \<Longrightarrow> to_digit 10 (char_of (48 + d)) = Some d"
  by (simp add: to_digit_def Let_def)

lemma to_digit_hex: "d < 16 \<Longrightarrow> to_digit 16 (hex_digit d) = Some d"
  by (auto simp: to_digit_def Let_def hex_digit_def)

lemma digit_bound: "w * r + m < b \<Longrightarrow> 0 < r \<Longrightarrow> w < (b :: nat)"
  by (cases r) auto

definition digits_end :: "nat \<Rightarrow> string \<Rightarrow> bool" where
  "digits_end radix r \<longleftrightarrow> (case r of [] \<Rightarrow> True | c # _ \<Rightarrow> to_digit radix c = None)"

lemma read_number_loop_end:
  "digits_end radix r \<Longrightarrow> 0 < k \<Longrightarrow> read_number_loop radix md b v k r = Some (v, r)"
  by (cases r) (simp_all add: digits_end_def)

lemma read_number_loop_show_nat:
  "k + length (show_nat n) \<le> md \<Longrightarrow> v * 10 ^ length (show_nat n) + n < b \<Longrightarrow>
   read_number_loop 10 md b v k (show_nat n @ r) =
   read_number_loop 10 md b (v * 10 ^ length (show_nat n) + n) (k + length (show_nat n)) r"
proof (induction n arbitrary: r rule: show_nat.induct)
  case (1 n)
  show ?case
  proof (cases "n < 10")
    case True
    with 1(2,3) show ?thesis by (simp add: show_nat.simps [of n] to_digit_decimal)
  next
    case False
    let ?k = "length (show_nat (n div 10))" and ?w = "v * 10 ^ length (show_nat (n div 10)) + n div 10"
    have s: "show_nat n = show_nat (n div 10) @ [char_of (48 + n mod 10)]"
      using False by (simp add: show_nat.simps [of n])
    have v: "v * 10 ^ length (show_nat n) + n = ?w * 10 + n mod 10" by (simp add: s)
    have "?w < b" using 1(3) unfolding v by (rule digit_bound) simp
    then have "read_number_loop 10 md b v k (show_nat n @ r) =
        read_number_loop 10 md b ?w (k + ?k) (char_of (48 + n mod 10) # r)"
      using "1.IH" [OF False, of "char_of (48 + n mod 10) # r"] 1(2) by (simp add: s)
    also have "\<dots> = read_number_loop 10 md b (?w * 10 + n mod 10) (k + length (show_nat n)) r"
      using 1(2,3) unfolding v by (simp add: s to_digit_decimal)
    finally show ?thesis unfolding v .
  qed
qed

lemma read_number_loop_show_hex:
  "k + length (show_hex n) \<le> md \<Longrightarrow> v * 16 ^ length (show_hex n) + n < b \<Longrightarrow>
   read_number_loop 16 md b v k (show_hex n @ r) =
   read_number_loop 16 md b (v * 16 ^ length (show_hex n) + n) (k + length (show_hex n)) r"
proof (induction n arbitrary: r rule: show_hex.induct)
  case (1 n)
  show ?case
  proof (cases "n < 16")
    case True
    with 1(2,3) show ?thesis by (simp add: show_hex.simps [of n] to_digit_hex)
  next
    case False
    let ?k = "length (show_hex (n div 16))" and ?w = "v * 16 ^ length (show_hex (n div 16)) + n div 16"
    have s: "show_hex n = show_hex (n div 16) @ [hex_digit (n mod 16)]"
      using False by (simp add: show_hex.simps [of n])
    have v: "v * 16 ^ length (show_hex n) + n = ?w * 16 + n mod 16" by (simp add: s)
    have "?w < b" using 1(3) unfolding v by (rule digit_bound) simp
    then have "read_number_loop 16 md b v k (show_hex n @ r) =
        read_number_loop 16 md b ?w (k + ?k) (hex_digit (n mod 16) # r)"
      using "1.IH" [OF False, of "hex_digit (n mod 16) # r"] 1(2) by (simp add: s)
    also have "\<dots> = read_number_loop 16 md b (?w * 16 + n mod 16) (k + length (show_hex n)) r"
      using 1(2,3) unfolding v by (simp add: s to_digit_hex)
    finally show ?thesis unfolding v .
  qed
qed

lemma show_nat_nonempty [simp]: "show_nat n \<noteq> []" by (simp add: show_nat.simps [of n])
lemma show_hex_nonempty [simp]: "show_hex n \<noteq> []" by (simp add: show_hex.simps [of n])

lemma length_show_nat: "n < 10 ^ Suc k \<Longrightarrow> length (show_nat n) \<le> Suc k"
proof (induction k arbitrary: n)
  case 0
  then show ?case by (simp add: show_nat.simps [of n])
next
  case (Suc k)
  show ?case
  proof (cases "n < 10")
    case True
    then show ?thesis by (simp add: show_nat.simps [of n])
  next
    case False
    have "n div 10 < 10 ^ Suc k"
      using Suc.prems by (simp add: less_mult_imp_div_less mult.commute)
    from Suc.IH [OF this] False show ?thesis by (simp add: show_nat.simps [of n])
  qed
qed

lemma length_show_hex: "n < 16 ^ Suc k \<Longrightarrow> length (show_hex n) \<le> Suc k"
proof (induction k arbitrary: n)
  case 0
  then show ?case by (simp add: show_hex.simps [of n])
next
  case (Suc k)
  show ?case
  proof (cases "n < 16")
    case True
    then show ?thesis by (simp add: show_hex.simps [of n])
  next
    case False
    have "n div 16 < 16 ^ Suc k"
      using Suc.prems by (simp add: less_mult_imp_div_less mult.commute)
    from Suc.IH [OF this] False show ?thesis by (simp add: show_hex.simps [of n])
  qed
qed

lemma read_number_decimal:
  assumes "n < 256" and "digits_end 10 r"
  shows "read_number 10 3 256 (show_nat n @ r) = Some (n, r)"
proof -
  have "0 < length (show_nat n)" by simp
  with read_number_loop_end [OF assms(2)] show ?thesis
    using assms(1) length_show_nat [of n 2] by (simp add: read_number_def read_number_loop_show_nat)
qed

lemma read_number_hex:
  assumes "n < 65536" and "digits_end 16 r"
  shows "read_number 16 4 65536 (show_hex n @ r) = Some (n, r)"
proof -
  have "0 < length (show_hex n)" by simp
  with read_number_loop_end [OF assms(2)] show ?thesis
    using assms(1) length_show_hex [of n 3] by (simp add: read_number_def read_number_loop_show_hex)
qed

lemma read_octet_show:
  "digits_end 10 r \<Longrightarrow> read_octet 0 (show_nat (unat (a :: u8)) @ r) = Some (a, r)"
  "digits_end 10 r \<Longrightarrow> 0 < i \<Longrightarrow> read_octet i (CHR ''.'' # show_nat (unat a) @ r) = Some (a, r)"
  using unsigned_less [of a] by (simp_all add: read_octet_def read_separator_def read_number_decimal)

lemma digits_end_sep [simp]:
  "digits_end 10 []" "digits_end 16 []" "digits_end 10 (CHR ''.'' # r)" "digits_end 16 (CHR '':'' # r)"
  "digits_end 10 (CHR '':'' # r)" "digits_end 16 (CHR ''.'' # r)"
  by (simp_all add: digits_end_def to_digit_def)

lemma read_ipv4_show:
  "digits_end 10 r \<Longrightarrow> read_ipv4_addr (ipv4_to_string a @ r) = Some (a, r)"
  by (cases a) (simp add: read_ipv4_addr_def read_octet_show)

lemma ipv4_from_to_string: "ipv4_from_str (ipv4_to_string a) = Some a"
  using read_ipv4_show [of "[]" a] by (simp add: ipv4_from_str_def read_till_eof_def)

section \<open>IPv6 round trip\<close>

definition colon_hex :: "u16 list \<Rightarrow> string" where
  "colon_hex gs = concat (map (\<lambda>g. CHR '':'' # show_hex (unat g)) gs)"

lemma colon_hex_simps [simp]:
  "colon_hex [] = []" "colon_hex (g # gs) = CHR '':'' # show_hex (unat g) @ colon_hex gs"
  by (simp_all add: colon_hex_def)

lemma fmt_subslice_Cons: "fmt_subslice (g # gs) = show_hex (unat g) @ colon_hex gs"
  by (induction gs arbitrary: g) auto

text \<open>What may follow a group: the end or a colon.\<close>

definition group_end :: "string \<Rightarrow> bool" where
  "group_end r \<longleftrightarrow> r = [] \<or> hd r = CHR '':''"

lemma group_end_simps [simp]: "group_end []" "group_end (CHR '':'' # r)"
  by (simp_all add: group_end_def)

lemma group_end_cases: "group_end r \<Longrightarrow> r = [] \<or> (\<exists>r'. r = CHR '':'' # r')"
  by (cases r) (auto simp: group_end_def)

lemma group_end_colon_hex: "group_end r \<Longrightarrow> group_end (colon_hex gs @ r)"
  by (cases gs) auto

lemma group_end_digits: "group_end r \<Longrightarrow> digits_end 16 r \<and> digits_end 10 r"
  using group_end_cases by fastforce

lemma read_number_loop_rest:
  "read_number_loop radix md b v k s = Some (w, r) \<Longrightarrow> r = dropWhile (\<lambda>c. to_digit radix c \<noteq> None) s"
proof (induction s arbitrary: v k)
  case (Cons c cs)
  then show ?case by (cases "to_digit radix c") (auto simp: Let_def split: if_splits)
qed (simp split: if_splits)

lemma hex_digit_not_dot: "d < 16 \<Longrightarrow> hex_digit d \<noteq> CHR ''.''"
  using to_digit_hex [of d] by (auto simp: to_digit_def)

lemma show_hex_no_dot: "CHR ''.'' \<notin> set (show_hex n)"
proof (induction n rule: show_hex.induct)
  case (1 n)
  then show ?case using hex_digit_not_dot [of n] hex_digit_not_dot [of "n mod 16"]
    by (auto simp: show_hex.simps [of n])
qed

lemma read_octet_no_dot: "hd s \<noteq> CHR ''.'' \<or> s = [] \<Longrightarrow> 0 < i \<Longrightarrow> read_octet i s = None"
  by (cases s) (auto simp: read_octet_def read_separator_def)

lemma dropWhile_hd_neq:
  "x \<notin> set xs \<Longrightarrow> dropWhile P r = r \<Longrightarrow> r = [] \<or> hd r \<noteq> x \<Longrightarrow>
   dropWhile P (xs @ r) = [] \<or> hd (dropWhile P (xs @ r)) \<noteq> x"
  by (induction xs) auto

lemma read_ipv4_hex:
  assumes "group_end r"
  shows "read_ipv4_addr (show_hex n @ r) = None"
proof (cases "read_octet 0 (show_hex n @ r)")
  case (Some p)
  obtain a s where p: "p = (a, s)" by (cases p)
  let ?P = "\<lambda>c. to_digit 10 c \<noteq> None"
  have s: "s = dropWhile ?P (show_hex n @ r)"
    using Some p by (auto simp: read_octet_def read_separator_def read_number_def dest: read_number_loop_rest)
  have "dropWhile ?P r = r"
    using group_end_cases [OF assms] by (auto simp: to_digit_def)
  moreover have "r = [] \<or> hd r \<noteq> CHR ''.''"
    using assms by (auto simp: group_end_def)
  ultimately have "s = [] \<or> hd s \<noteq> CHR ''.''"
    unfolding s by (intro dropWhile_hd_neq show_hex_no_dot)
  then have "read_octet 1 s = None" by (intro read_octet_no_dot) blast+
  with Some p show ?thesis by (simp add: read_ipv4_addr_def)
qed (simp add: read_ipv4_addr_def)

lemma read_ipv4_fails [simp]:
  "read_ipv4_addr [] = None" "read_ipv4_addr (CHR '':'' # s) = None"
  by (simp_all add: read_ipv4_addr_def read_octet_def read_separator_def read_number_def to_digit_def)

lemma read_number_fails [simp]:
  "read_number radix md b [] = None" "read_number 16 md b (CHR '':'' # s) = None"
  by (simp_all add: read_number_def to_digit_def)

definition groups_end :: "string \<Rightarrow> bool" where
  "groups_end r \<longleftrightarrow> r = [] \<or> (\<exists>r'. r = ''::'' @ r')"

lemma groups_end_group_end: "groups_end r \<Longrightarrow> group_end r"
  by (auto simp: groups_end_def)

lemma read_separator_simps [simp]:
  "read_separator sep 0 p s = p s"
  "0 < i \<Longrightarrow> read_separator sep i p [] = None"
  "0 < i \<Longrightarrow> read_separator sep i p (sep # s) = p s"
  by (simp_all add: read_separator_def)

lemma read_groups_stop: "groups_end r \<Longrightarrow> read_groups todo i r = ([], False, r)"
  by (cases todo; cases i) (auto simp: groups_end_def)

lemma read_groups_colon_hex:
  "length gs \<le> todo \<Longrightarrow> groups_end r \<Longrightarrow> 0 < i \<Longrightarrow>
   read_groups todo i (colon_hex gs @ r) = (gs, False, r)"
proof (induction gs arbitrary: todo i)
  case (Cons g gs)
  then obtain t where t: "todo = Suc t" by (cases todo) auto
  have e: "group_end (colon_hex gs @ r)"
    using Cons.prems(2) by (intro group_end_colon_hex groups_end_group_end)
  have n: "read_number 16 4 65536 (show_hex (unat g) @ colon_hex gs @ r) = Some (unat g, colon_hex gs @ r)"
    using group_end_digits [OF e] unsigned_less [of g] by (intro read_number_hex) simp_all
  have "read_groups t (Suc i) (colon_hex gs @ r) = (gs, False, r)"
    using Cons t by simp
  then show ?case
    using Cons.prems(3) n read_ipv4_hex [OF e] by (cases t) (auto simp: t)
qed (simp add: read_groups_stop)

lemma read_groups_fmt:
  assumes "length gs \<le> todo" and "groups_end r"
  shows "read_groups todo 0 (fmt_subslice gs @ r) = (gs, False, r)"
proof (cases gs)
  case Nil
  with assms show ?thesis by (simp add: read_groups_stop)
next
  case (Cons g gs')
  then obtain t where t: "todo = Suc t" using assms(1) by (cases todo) auto
  have e: "group_end (colon_hex gs' @ r)"
    using assms(2) by (intro group_end_colon_hex groups_end_group_end)
  have n: "read_number 16 4 65536 (show_hex (unat g) @ colon_hex gs' @ r) = Some (unat g, colon_hex gs' @ r)"
    using group_end_digits [OF e] unsigned_less [of g] by (intro read_number_hex) simp_all
  have "read_groups t (Suc 0) (colon_hex gs' @ r) = (gs', False, r)"
    using assms Cons t by (intro read_groups_colon_hex) simp_all
  then show ?thesis
    using n read_ipv4_hex [OF e] by (cases t) (auto simp: t Cons fmt_subslice_Cons)
qed

text \<open>The span of zeros.\<close>

definition zeros_at :: "u16 list \<Rightarrow> nat \<times> nat \<Rightarrow> bool" where
  "zeros_at ss sp \<longleftrightarrow> fst sp + snd sp \<le> length ss \<and> (\<forall>j. j < snd sp \<longrightarrow> ss ! (fst sp + j) = 0)"

lemma zeros_at_append: "zeros_at ps sp \<Longrightarrow> zeros_at (ps @ ss) sp"
  by (auto simp: zeros_at_def nth_append)

lemma zeros_at_snoc:
  "zeros_at ps (a, n) \<Longrightarrow> 0 < n \<longrightarrow> a + n = length ps \<Longrightarrow>
   zeros_at (ps @ [0]) (if n = 0 then length ps else a, n + 1)"
  by (auto simp: zeros_at_def nth_append less_Suc_eq)

lemma zero_span_loop:
  "zeros_at ps longest \<Longrightarrow> zeros_at ps current \<Longrightarrow>
   0 < snd current \<longrightarrow> fst current + snd current = length ps \<Longrightarrow>
   zeros_at (ps @ ss) (zero_span_loop ss (length ps) longest current)"
proof (induction ss arbitrary: ps longest current)
  case (Cons s ss)
  show ?case
  proof (cases "s = 0")
    case True
    let ?c = "(if snd current = 0 then length ps else fst current, snd current + 1)"
    have c: "zeros_at (ps @ [s]) ?c"
      using zeros_at_snoc [of ps "fst current" "snd current"] Cons.prems True by simp
    have l: "zeros_at (ps @ [s]) (if snd longest < snd ?c then ?c else longest)"
      using c zeros_at_append [OF Cons.prems(1)] by simp
    have "zeros_at ((ps @ [s]) @ ss)
        (zero_span_loop ss (length (ps @ [s])) (if snd longest < snd ?c then ?c else longest) ?c)"
      using Cons.prems(3) by (intro Cons.IH [OF l c]) auto
    then show ?thesis using True
      by (cases "snd current = 0"; cases "snd longest < snd ?c") (simp_all add: Let_def)
  next
    case False
    have "zeros_at ((ps @ [s]) @ ss) (zero_span_loop ss (length (ps @ [s])) longest (0, 0))"
      using Cons.prems(1) by (intro Cons.IH zeros_at_append) (auto simp: zeros_at_def)
    then show ?thesis using False by simp
  qed
qed simp

lemma zero_span_split:
  assumes "zero_span ss = (start, n)"
  shows "ss = take start ss @ replicate n 0 @ drop (start + n) ss" and "start + n \<le> length ss"
proof -
  have z: "zeros_at ss (start, n)"
    using zero_span_loop [of "[]" "(0, 0)" "(0, 0)" ss] assms by (simp add: zero_span_def zeros_at_def)
  then show le: "start + n \<le> length ss" by (simp add: zeros_at_def)
  have "take n (drop start ss) = replicate n 0"
    using z by (intro nth_equalityI) (auto simp: zeros_at_def)
  then have "drop start ss = replicate n 0 @ drop (start + n) ss"
    using append_take_drop_id [of n "drop start ss"] by (simp add: add.commute)
  then show "ss = take start ss @ replicate n 0 @ drop (start + n) ss"
    using append_take_drop_id [of start ss] by simp
qed

lemma u16_to_be_pair: "\<exists>a b. u16_to_be w = [a, b]"
proof -
  have "length (u16_to_be w) = Suc (Suc 0)" by simp
  then show ?thesis by (auto simp only: length_Suc_conv length_0_conv)
qed

lemma ipv4_groups_of_segments: "ipv4_groups (ipv4_of_segments g h) = [g, h]"
proof -
  obtain a b c d where "u16_to_be g = [a, b]" "u16_to_be h = [c, d]"
    using u16_to_be_pair by blast
  moreover from this have "u16_from_be [a, b] = g" "u16_from_be [c, d] = h"
    by (metis u16_from_to_be)+
  ultimately show ?thesis by (simp add: ipv4_of_segments_def)
qed

lemma read_ipv6_compressed:
  assumes "length h + length l < 8" and "read_groups (7 - length h) 0 t = (l, v4, [])"
  shows "ipv6_from_str (fmt_subslice h @ ''::'' @ t) =
    Some (Ipv6Addr (h @ replicate (8 - length h - length l) 0 @ l))"
proof -
  have "read_groups 8 0 (fmt_subslice h @ ''::'' @ t) = (h, False, ''::'' @ t)"
    using assms(1) by (intro read_groups_fmt) (auto simp: groups_end_def)
  with assms show ?thesis
    by (simp add: ipv6_from_str_def read_till_eof_def read_ipv6_addr_def)
qed

lemma read_ipv6_leading:
  assumes "read_groups 7 0 t = (l, v4, [])" and "length l < 8"
  shows "ipv6_from_str (''::'' @ t) = Some (Ipv6Addr (replicate (8 - length l) 0 @ l))"
  using read_ipv6_compressed [of "[]" l t v4] assms by simp

lemma read_groups_ipv4:
  "read_groups (Suc (Suc t)) 0 (ipv4_to_string a) = (ipv4_groups a, True, [])"
  using read_ipv4_show [of "[]" a] by simp

lemma hex_digit_small: "hex_digit 15 = CHR ''f''" "hex_digit 1 = CHR ''1''"
  using char_of_char [where 'a = nat, of "CHR ''f''"] char_of_char [where 'a = nat, of "CHR ''1''"]
  by (simp_all add: hex_digit_def)

lemma show_hex_small: "show_hex 65535 = ''ffff''" "show_hex 1 = ''1''"
  by (simp_all add: show_hex.simps [of 65535] show_hex.simps [of 4095] show_hex.simps [of 255]
      show_hex.simps [of 15] show_hex.simps [of 1] hex_digit_small del: One_nat_def)

lemma read_groups_ffff_ipv4:
  "read_groups (Suc (Suc (Suc t))) 0 (''ffff:'' @ ipv4_to_string a) = (0xffff # ipv4_groups a, True, [])"
proof -
  let ?s = "''ffff:'' @ ipv4_to_string a"
  have "read_number 16 4 65536 ?s = Some (65535, CHR '':'' # ipv4_to_string a)"
    using read_number_hex [of 65535 "CHR '':'' # ipv4_to_string a"] by (simp add: show_hex_small)
  moreover have "read_ipv4_addr ?s = None"
    using read_ipv4_hex [of "CHR '':'' # ipv4_to_string a" 65535] by (simp add: show_hex_small)
  moreover have "read_groups (Suc (Suc t)) 1 (CHR '':'' # ipv4_to_string a) = (ipv4_groups a, True, [])"
    using read_ipv4_show [of "[]" a] by simp
  ultimately show ?thesis
    unfolding read_groups.simps(2) [of "Suc (Suc t)"] read_separator_simps(1)
    by (simp del: read_groups.simps)
qed

lemma length_ipv4_groups [simp]: "length (ipv4_groups a) = 2"
  by (cases a) simp

lemma eight_split: "length ss = 8 \<Longrightarrow> ss = take 6 ss @ [ss ! 6, ss ! 7]"
proof -
  assume "length ss = 8"
  then have "drop 6 ss = [ss ! 6, ss ! 7]"
    using Cons_nth_drop_Suc [of 6 ss] Cons_nth_drop_Suc [of 7 ss] by simp
  then show ?thesis using append_take_drop_id [of 6 ss] by simp
qed

lemma segment_neqs: "replicate 7 0 @ [1 :: u16] \<noteq> replicate 8 0" "replicate 6 0 \<noteq> replicate 5 0 @ [0xffff :: u16]"
  by code_simp+

lemma ipv6_from_to_string:
  assumes "wf_ipv6 a"
  shows "ipv6_from_str (ipv6_to_string a) = Some a"
proof -
  obtain ss where a: "a = Ipv6Addr ss" and len: "length ss = 8"
    using assms by (cases a) (simp add: wf_ipv6_def)
  let ?v4 = "ipv4_of_segments (ss ! 6) (ss ! 7)"
  consider "ss = replicate 8 0" | "ss = replicate 7 0 @ [1]"
    | "ss \<noteq> replicate 8 0" "ss \<noteq> replicate 7 0 @ [1]" "take 6 ss = replicate 6 0"
    | "take 6 ss = replicate 5 0 @ [0xffff]"
    | "ss \<noteq> replicate 8 0" "ss \<noteq> replicate 7 0 @ [1]" "take 6 ss \<noteq> replicate 6 0"
      "take 6 ss \<noteq> replicate 5 0 @ [0xffff]"
    by blast
  then show ?thesis
  proof cases
    case 1
    have "read_groups 7 0 [] = ([], False, [])" by (rule read_groups_stop) (simp add: groups_end_def)
    from read_ipv6_leading [OF this] 1 show ?thesis by (simp add: a ipv6_to_string_def)
  next
    case 2
    have "read_groups 7 0 (fmt_subslice [1] @ []) = ([1], False, [])"
      by (rule read_groups_fmt) (simp_all add: groups_end_def)
    moreover have "fmt_subslice [1] = ''1''" by (simp add: show_hex_small del: One_nat_def)
    ultimately have "read_groups 7 0 ''1'' = ([1], False, [])" by simp
    from read_ipv6_leading [OF this] 2 show ?thesis
      by (simp add: a ipv6_to_string_def segment_neqs Let_def)
  next
    case 3
    have "read_groups 7 0 (ipv4_to_string ?v4) = ([ss ! 6, ss ! 7], True, [])"
      using read_groups_ipv4 [of 5 ?v4] by (simp add: ipv4_groups_of_segments del: read_groups.simps)
    from read_ipv6_leading [OF this]
    have "ipv6_from_str (''::'' @ ipv4_to_string ?v4) = Some (Ipv6Addr (replicate 6 0 @ [ss ! 6, ss ! 7]))"
      by simp
    moreover have "ipv6_to_string a = ''::'' @ ipv4_to_string ?v4"
      using 3 by (simp add: a ipv6_to_string_def)
    moreover have "replicate 6 0 @ [ss ! 6, ss ! 7] = ss" using eight_split [OF len] 3(3) by simp
    ultimately show ?thesis by (simp only: a)
  next
    case 4
    have "read_groups 7 0 (''ffff:'' @ ipv4_to_string ?v4) = ([0xffff, ss ! 6, ss ! 7], True, [])"
      using read_groups_ffff_ipv4 [of 4 ?v4] by (simp add: ipv4_groups_of_segments del: read_groups.simps)
    from read_ipv6_leading [OF this]
    have "ipv6_from_str (''::'' @ ''ffff:'' @ ipv4_to_string ?v4) =
        Some (Ipv6Addr ((replicate 5 0 @ [0xffff]) @ [ss ! 6, ss ! 7]))"
      by simp
    moreover have "(replicate 5 0 @ [0xffff]) @ [ss ! 6, ss ! 7] = ss" using eight_split [OF len] 4 by simp
    moreover have t: "take 6 ss \<noteq> replicate 6 0" using 4 segment_neqs(2) by simp
    then have "ss \<noteq> replicate 8 0" "ss \<noteq> replicate 7 0 @ [1]" by auto
    with t have "ipv6_to_string a = ''::'' @ ''ffff:'' @ ipv4_to_string ?v4"
      using 4 by (simp add: a ipv6_to_string_def)
    ultimately show ?thesis by (simp only: a)
  next
    case 5
    obtain start n where z: "zero_span ss = (start, n)" by fastforce
    note sp = zero_span_split [OF z]
    show ?thesis
    proof (cases "1 < n")
      case True
      have "read_groups (7 - length (take start ss)) 0 (fmt_subslice (drop (start + n) ss) @ []) =
          (drop (start + n) ss, False, [])"
        by (rule read_groups_fmt) (use True sp(2) len in \<open>simp_all add: groups_end_def\<close>)
      then have "ipv6_from_str (fmt_subslice (take start ss) @ ''::'' @ fmt_subslice (drop (start + n) ss)) =
        Some (Ipv6Addr (take start ss @ replicate n 0 @ drop (start + n) ss))"
        using read_ipv6_compressed [of "take start ss" "drop (start + n) ss"] True sp(2) len by simp
      with sp(1) show ?thesis
        using 5 z True by (simp add: a ipv6_to_string_def)
    next
      case False
      have "read_groups 8 0 (fmt_subslice ss @ []) = (ss, False, [])"
        by (rule read_groups_fmt) (use len in \<open>simp_all add: groups_end_def\<close>)
      then show ?thesis
        using 5 z False len
        by (simp add: a ipv6_to_string_def ipv6_from_str_def read_till_eof_def read_ipv6_addr_def)
    qed
  qed
qed

section \<open>Shape of the printed addresses\<close>

definition is_ascii :: "string \<Rightarrow> bool" where
  "is_ascii s \<longleftrightarrow> list_all (\<lambda>c. (of_char c :: nat) < 128) s"

lemma is_ascii_append [simp]: "is_ascii (a @ b) \<longleftrightarrow> is_ascii a \<and> is_ascii b"
  by (simp add: is_ascii_def)

lemma is_ascii_Cons [simp]: "is_ascii (c # s) \<longleftrightarrow> (of_char c :: nat) < 128 \<and> is_ascii s" "is_ascii []"
  by (simp_all add: is_ascii_def)

lemma is_ascii_show_nat [simp]: "is_ascii (show_nat n)"
proof (induction n rule: show_nat.induct)
  case (1 n)
  have "n mod 10 < 80" by (rule less_trans [of _ 10]) simp_all
  with 1 show ?case by (simp add: show_nat.simps [of n])
qed

lemma is_ascii_show_hex [simp]: "is_ascii (show_hex n)"
proof (induction n rule: show_hex.induct)
  case (1 n)
  then show ?case using mod_less_divisor [of 16 n] by (auto simp: show_hex.simps [of n] hex_digit_def)
qed

lemma is_ascii_fmt_subslice [simp]: "is_ascii (fmt_subslice gs)"
  by (induction gs rule: fmt_subslice.induct) simp_all

lemma is_ascii_ipv4 [simp]: "is_ascii (ipv4_to_string a)"
  by (cases a) simp

lemma is_ascii_ipv6 [simp]: "is_ascii (ipv6_to_string a)"
  by (simp add: ipv6_to_string_def Let_def split: prod.splits)

lemma length_ipv4_to_string: "length (ipv4_to_string a) \<le> 15"
proof -
  have *: "length (show_nat (unat (x :: u8))) \<le> 3" for x
  proof -
    have "unat x < 256" using unsigned_less [of x] by simp
    then have "unat x < 10 ^ Suc 2" by (rule less_trans) simp
    from length_show_nat [OF this] show ?thesis by simp
  qed
  obtain w x y z where "a = Ipv4Addr w x y z" by (cases a)
  then show ?thesis using * [of w] * [of x] * [of y] * [of z] by simp
qed

lemma length_show_segment: "length (show_hex (unat (s :: u16))) \<le> 4"
  by (rule length_show_hex [of "unat s" 3, simplified]) (use unsigned_less [of s] in simp)

lemma length_fmt_subslice: "length (fmt_subslice gs) \<le> 5 * length gs"
proof (induction gs rule: fmt_subslice.induct)
  case (2 s)
  then show ?case using length_show_segment [of s] by simp
next
  case (3 s t ss)
  then show ?case using length_show_segment [of s] by simp
qed simp

lemma length_ipv6_to_string:
  assumes "wf_ipv6 a"
  shows "length (ipv6_to_string a) < 100"
proof -
  let ?ss = "segments a"
  obtain st n where z: "zero_span ?ss = (st, n)" by fastforce
  have "length (fmt_subslice (take st ?ss)) \<le> 40" "length (fmt_subslice (drop (st + n) ?ss)) \<le> 40"
    "length (fmt_subslice ?ss) \<le> 40"
    using assms length_fmt_subslice [of "take st ?ss"] length_fmt_subslice [of "drop (st + n) ?ss"]
      length_fmt_subslice [of ?ss] by (auto simp: wf_ipv6_def)
  moreover have "length (ipv4_to_string (ipv4_of_segments (?ss ! 6) (?ss ! 7))) \<le> 15"
    by (rule length_ipv4_to_string)
  ultimately show ?thesis by (simp add: ipv6_to_string_def Let_def z)
qed

text \<open>A printed IPv6 address is not mistaken for an IPv4 address.\<close>

lemma read_ipv4_fmt_subslice: "group_end r \<Longrightarrow> read_ipv4_addr (fmt_subslice gs @ r) = None"
proof (cases gs)
  case Nil
  moreover assume "group_end r"
  ultimately show ?thesis using group_end_cases [of r] by auto
next
  case (Cons g gs')
  assume "group_end r"
  then show ?thesis using read_ipv4_hex [OF group_end_colon_hex] by (simp add: Cons fmt_subslice_Cons)
qed

lemma ipv4_from_ipv6_string: "ipv4_from_str (ipv6_to_string a) = None"
  using read_ipv4_fmt_subslice [of "[]"] read_ipv4_fmt_subslice [of "CHR '':'' # _"]
  by (simp add: ipv4_from_str_def read_till_eof_def ipv6_to_string_def Let_def split: prod.splits)

lemma length_read_groups: "read_groups todo i s = (gs, v4, r) \<Longrightarrow> length gs \<le> todo"
proof (induction todo i s arbitrary: gs v4 r rule: read_groups.induct)
  case (2 todo i s)
  then show ?case
    by (fastforce split: option.splits prod.splits if_splits)
qed simp

lemma ipv6_from_str_wf:
  assumes "ipv6_from_str s = Some a"
  shows "wf_ipv6 a"
proof -
  obtain h v s1 where h: "read_groups 8 0 s = (h, v, s1)" by (cases "read_groups 8 0 s") auto
  show ?thesis
  proof (cases "length h = 8")
    case True
    with assms h show ?thesis
      by (auto simp: ipv6_from_str_def read_till_eof_def read_ipv6_addr_def wf_ipv6_def split: list.splits)
  next
    case False
    obtain t s3 v' s4 where t: "read_groups (8 - (length h + 1)) 0 s3 = (t, v', s4)"
      and a: "a = Ipv6Addr (h @ replicate (8 - length h - length t) 0 @ t)"
      using assms h False
      by (auto simp: ipv6_from_str_def read_till_eof_def read_ipv6_addr_def
          split: option.splits prod.splits if_splits list.splits)
    show ?thesis
      using length_read_groups [OF t] length_read_groups [OF h] False by (simp add: a wf_ipv6_def)
  qed
qed

end
