(* ===== verification/Ke_Records.thy ===== *)
theory Ke_Records
  imports Cookie Ip_Addr
begin

text \<open>
  \<^verbatim>\<open>src/src/nts_ke/records/\<close>: the eight NTS-KE record kinds, their common trait, the record
  framing and the state a party collects from the records it receives. The trait
  \<^verbatim>\<open>KeRecordTrait\<close> is a record of operations and each implementation is one value of it; what
  every implementation promises to the framing code is the locale \<open>ke_record_laws\<close>.
\<close>

section \<open>The trait\<close>

datatype party = Party_Client | Party_Server

record 'r ke_record_trait =
  critical :: "'r \<Rightarrow> bool"
  record_type :: u16
  rec_len :: "'r \<Rightarrow> (u16, unit) result"
  into_bytes :: "'r \<Rightarrow> bytes"
  from_bytes :: "party \<Rightarrow> bytes \<Rightarrow> ('r, string) result"

section \<open>The record kinds\<close>

datatype end_of_message_record = EndOfMessageRecord

definition end_of_message_trait :: "end_of_message_record ke_record_trait" where
  "end_of_message_trait =
     \<lparr>critical = (\<lambda>_. True), record_type = 0, rec_len = (\<lambda>_. Ok 0), into_bytes = (\<lambda>_. []),
      from_bytes = (\<lambda>_ bs. if length bs \<noteq> 0
                           then Err ''the body length of End Of Message must be zero.''
                           else Ok EndOfMessageRecord)\<rparr>"

text \<open>
  The length of a list of 16 bit codes: \<^verbatim>\<open>try_from(..).ok().and_then(checked_mul 2).expect(..)\<close>;
  and the loop over \<^verbatim>\<open>chunks_exact(2)\<close> that accepts one code only.
\<close>

definition doubled_len :: "string \<Rightarrow> 'a list \<Rightarrow> (u16, unit) result" where
  "doubled_len msg xs =
     (if length xs < 65536 \<and> length xs * 2 < 65536 then Ok (of_nat (length xs * 2)) else Panic msg)"

fun parse_codes :: "u16 \<Rightarrow> 'a \<Rightarrow> string \<Rightarrow> bytes \<Rightarrow> ('a list, string) result" where
  "parse_codes code a msg (x # y # bs) =
     (if code = u16_from_be [x, y] then bind_r (parse_codes code a msg bs) (\<lambda>as. Ok (a # as))
      else Err msg)"
| "parse_codes code a msg bs = Ok []"

definition must_be_even :: "string \<Rightarrow> string" where
  "must_be_even what = ''the body length of '' @ what @ [CHR 0x0A] @ replicate 37 (CHR '' '') @ ''must be even.''"

datatype known_next_protocol = Ntpv4

fun as_protocol_id :: "known_next_protocol \<Rightarrow> u16" where
  "as_protocol_id Ntpv4 = 0"

datatype next_protocol_record = NextProtocolRecord (protocols: "known_next_protocol list")

definition next_protocol_trait :: "next_protocol_record ke_record_trait" where
  "next_protocol_trait =
     \<lparr>critical = (\<lambda>_. True), record_type = 1,
      rec_len = (\<lambda>r. doubled_len ''the number of next protocols are too large'' (protocols r)),
      into_bytes = (\<lambda>r. concat (map (\<lambda>p. u16_to_be (as_protocol_id p)) (protocols r))),
      from_bytes = (\<lambda>_ bs.
        if length bs mod 2 \<noteq> 0 then Err (must_be_even ''Next Protocol Negotiation'')
        else bind_r (parse_codes (as_protocol_id Ntpv4) Ntpv4 ''unknown Next Protocol id'' bs) (\<lambda>ps.
             Ok (NextProtocolRecord ps)))\<rparr>"

datatype ke_error_kind = UnrecognizedCriticalRecord | BadRequest

fun error_as_code :: "ke_error_kind \<Rightarrow> u16" where
  "error_as_code UnrecognizedCriticalRecord = 0"
| "error_as_code BadRequest = 1"

datatype error_record = ErrorRecord (error_kind: ke_error_kind)

definition error_trait :: "error_record ke_record_trait" where
  "error_trait =
     \<lparr>critical = (\<lambda>_. True), record_type = 2, rec_len = (\<lambda>_. Ok 2),
      into_bytes = (\<lambda>r. u16_to_be (error_as_code (error_kind r))),
      from_bytes = (\<lambda>_ bs.
        if length bs \<noteq> 2 then Err ''the body length of Error must be two.''
        else let error_code = u16_from_be bs in
             if error_as_code UnrecognizedCriticalRecord = error_code
             then Ok (ErrorRecord UnrecognizedCriticalRecord)
             else if error_as_code BadRequest = error_code then Ok (ErrorRecord BadRequest)
             else Err ''unknown error code'')\<rparr>"

datatype warning_kind = Dummy

fun warning_as_code :: "warning_kind \<Rightarrow> u16" where
  "warning_as_code Dummy = - 1"

datatype warning_record = WarningRecord (warning_kind: warning_kind)

definition warning_trait :: "warning_record ke_record_trait" where
  "warning_trait =
     \<lparr>critical = (\<lambda>_. True), record_type = 3, rec_len = (\<lambda>_. Ok 2),
      into_bytes = (\<lambda>r. u16_to_be (warning_as_code (warning_kind r))),
      from_bytes = (\<lambda>_ bs.
        if length bs \<noteq> 2 then Err ''the body length of Warning must be two.''
        else let warning_code = u16_from_be bs in
             if warning_as_code Dummy = warning_code then Ok (WarningRecord Dummy)
             else Err ''unknown warning code'')\<rparr>"

datatype known_aead_algorithm = AeadAesSivCmac256

fun as_algorithm_id :: "known_aead_algorithm \<Rightarrow> u16" where
  "as_algorithm_id AeadAesSivCmac256 = 15"

datatype aead_algorithm_record = AeadAlgorithmRecord (algorithms: "known_aead_algorithm list")

definition aead_algorithm_trait :: "aead_algorithm_record ke_record_trait" where
  "aead_algorithm_trait =
     \<lparr>critical = (\<lambda>_. True), record_type = 4,
      rec_len = (\<lambda>r. doubled_len ''the number of AEAD algorithms are too large'' (algorithms r)),
      into_bytes = (\<lambda>r. concat (map (\<lambda>a. u16_to_be (as_algorithm_id a)) (algorithms r))),
      from_bytes = (\<lambda>_ bs.
        if length bs mod 2 \<noteq> 0 then Err (must_be_even ''AEAD Algorithm Negotiation'')
        else bind_r (parse_codes (as_algorithm_id AeadAesSivCmac256) AeadAesSivCmac256
               ''unknown AEAD algorithm id'' bs) (\<lambda>as. Ok (AeadAlgorithmRecord as)))\<rparr>"

datatype new_cookie_record = NewCookieRecord (cookie_bytes: bytes)

definition new_cookie_trait :: "new_cookie_record ke_record_trait" where
  "new_cookie_trait =
     \<lparr>critical = (\<lambda>_. False), record_type = 5,
      rec_len = (\<lambda>r. if length (cookie_bytes r) < 65536 then Ok (of_nat (length (cookie_bytes r)))
                     else Panic ''the cookie is too large to fit in the record''),
      into_bytes = cookie_bytes,
      from_bytes = (\<lambda>_ bs. Ok (NewCookieRecord bs))\<rparr>"

text \<open>Bytes of an ASCII string, and the string of ASCII bytes.\<close>

definition str_bytes :: "string \<Rightarrow> bytes" where
  "str_bytes s = map (\<lambda>c. of_nat (of_char c)) s"

definition bytes_str :: "bytes \<Rightarrow> string" where
  "bytes_str bs = map (\<lambda>b. char_of (unat b)) bs"

datatype address = Hostname string | Addr_V4 ipv4_addr | Addr_V6 ipv6_addr

record server_record =
  server_sender :: party
  server_address :: address

fun address_string :: "address \<Rightarrow> string" where
  "address_string (Hostname name) = name"
| "address_string (Addr_V4 addr) = ipv4_to_string addr"
| "address_string (Addr_V6 addr) = ipv6_to_string addr"

definition into_string :: "server_record \<Rightarrow> string" where
  "into_string r = address_string (server_address r)"

text \<open>
  A body that is not UTF-8 and one that is UTF-8 but not ASCII are refused with the same message,
  so both tests together ask whether every byte is below 128.
\<close>

definition server_from_bytes :: "party \<Rightarrow> bytes \<Rightarrow> (server_record, string) result" where
  "server_from_bytes sender bs =
     (if \<not> list_all (\<lambda>b. b < 128) bs then Err ''the body is an invalid ascii string''
      else let body = bytes_str bs in
           Ok \<lparr>server_sender = sender, server_address =
             (case ipv4_from_str body of
                Some addr \<Rightarrow> Addr_V4 addr
              | None \<Rightarrow> (case ipv6_from_str body of
                         Some addr \<Rightarrow> Addr_V6 addr | None \<Rightarrow> Hostname body))\<rparr>)"

definition server_trait :: "server_record ke_record_trait" where
  "server_trait =
     \<lparr>critical = (\<lambda>r. case server_sender r of Party_Client \<Rightarrow> False | Party_Server \<Rightarrow> True),
      record_type = 6,
      rec_len = (\<lambda>r. case server_address r of
          Hostname name \<Rightarrow> if length name < 65536 then Ok (of_nat (length name))
                           else Panic ''the hostname is too long to fix in the record''
        | Addr_V4 addr \<Rightarrow> Ok (of_nat (length (ipv4_to_string addr)))
        | Addr_V6 addr \<Rightarrow> Ok (of_nat (length (ipv6_to_string addr)))),
      into_bytes = (\<lambda>r. str_bytes (into_string r)),
      from_bytes = server_from_bytes\<rparr>"

record port_record =
  port_sender :: party
  rec_port :: u16

definition port_record_new :: "party \<Rightarrow> u16 \<Rightarrow> port_record" where
  "port_record_new sender p = \<lparr>port_sender = sender, rec_port = p\<rparr>"

definition port_trait :: "port_record ke_record_trait" where
  "port_trait =
     \<lparr>critical = (\<lambda>r. case port_sender r of Party_Client \<Rightarrow> False | Party_Server \<Rightarrow> True),
      record_type = 7, rec_len = (\<lambda>_. Ok 2), into_bytes = (\<lambda>r. u16_to_be (rec_port r)),
      from_bytes = (\<lambda>sender bs.
        if length bs \<noteq> 2 then Err ''the body length of Port must be two.''
        else Ok (port_record_new sender (u16_from_be bs)))\<rparr>"

section \<open>Framing\<close>

datatype ke_record =
    KeEndOfMessage end_of_message_record
  | KeNextProtocol next_protocol_record
  | KeError error_record
  | KeWarning warning_record
  | KeAeadAlgorithm aead_algorithm_record
  | KeNewCookie new_cookie_record
  | KeServer server_record
  | KePort port_record

definition KE_HEADER_SIZE :: nat where "KE_HEADER_SIZE = 4"

definition serialize :: "'r ke_record_trait \<Rightarrow> 'r \<Rightarrow> (bytes, 'e) result" where
  "serialize T record =
     (let first_word = push_bit 15 (if critical T record then 1 else 0) + record_type T in
      bind_r (infallible (rec_len T record)) (\<lambda>len.
      Ok (u16_to_be first_word @ u16_to_be len @ into_bytes T record)))"

datatype deserialize_error = Parsing string | UnknownCriticalRecord | UnknownNotCriticalRecord

text \<open>One arm of the macro \<^verbatim>\<open>deserialize_body\<close>.\<close>

definition parse_as ::
  "('r \<Rightarrow> ke_record) \<Rightarrow> 'r ke_record_trait \<Rightarrow> party \<Rightarrow> bytes \<Rightarrow> (ke_record, deserialize_error) result" where
  "parse_as variant T sender body =
     bind_r (map_err Parsing (from_bytes T sender body)) (\<lambda>r. Ok (variant r))"

definition deserialize_body ::
  "party \<Rightarrow> bool \<Rightarrow> u16 \<Rightarrow> bytes \<Rightarrow> (ke_record, deserialize_error) result" where
  "deserialize_body sender crit ty body =
     (if ty = record_type end_of_message_trait then parse_as KeEndOfMessage end_of_message_trait sender body
      else if ty = record_type next_protocol_trait then parse_as KeNextProtocol next_protocol_trait sender body
      else if ty = record_type error_trait then parse_as KeError error_trait sender body
      else if ty = record_type warning_trait then parse_as KeWarning warning_trait sender body
      else if ty = record_type aead_algorithm_trait then parse_as KeAeadAlgorithm aead_algorithm_trait sender body
      else if ty = record_type new_cookie_trait then parse_as KeNewCookie new_cookie_trait sender body
      else if ty = record_type server_trait then parse_as KeServer server_trait sender body
      else if ty = record_type port_trait then parse_as KePort port_trait sender body
      else if crit then Err UnknownCriticalRecord else Err UnknownNotCriticalRecord)"

definition deserialize :: "party \<Rightarrow> bytes \<Rightarrow> (ke_record, deserialize_error) result" where
  "deserialize sender bs =
     bind_r (index_r bs 0) (\<lambda>b0.
     bind_r (index_r bs 1) (\<lambda>b1.
     bind_r (index_r bs 2) (\<lambda>b2.
     bind_r (index_r bs 3) (\<lambda>b3.
     let crit = (drop_bit 7 b0 = 1); ty = u16_from_be [b0 AND 0x7, b1]; len = u16_from_be [b2, b3] in
     bind_r (slice_r bs 4 (4 + unat len)) (\<lambda>body.
     deserialize_body sender crit ty body)))))"

section \<open>Keys and the received state\<close>

text \<open>
  \<^verbatim>\<open>gen_key\<close>: \<open>exporter\<close> is \<^verbatim>\<open>export_keying_material\<close> of the TLS session, filling a 32 byte
  output for a label and a context.
\<close>

type_synonym tls_error = string

definition EXPORTER_LABEL :: bytes where
  "EXPORTER_LABEL = str_bytes ''EXPORTER-network-time-security''"

definition gen_key ::
  "(bytes \<Rightarrow> bytes option \<Rightarrow> (bytes, tls_error) result) \<Rightarrow> (nts_keys, tls_error) result" where
  "gen_key exporter =
     (let c2s_con = [0, 0, 0, 15, 0]; s2c_con = [0, 0, 0, 15, 1] in
      bind_r (exporter EXPORTER_LABEL (Some c2s_con)) (\<lambda>k1.
      bind_r (exporter EXPORTER_LABEL (Some s2c_con)) (\<lambda>k2.
      Ok \<lparr>c2s = k1, s2c = k2\<rparr>)))"

record received_nts_ke_record_state =
  finished :: bool
  next_protocols :: "u16 list"
  aead_scheme :: "u16 list"
  cookies :: "bytes list"
  next_server :: "string option"
  next_port :: "u16 option"

datatype nts_ke_parse_error = RecordAfterEnd | ErrorRecordReceived | NoIpv4AddrFound | NoIpv6AddrFound

definition process_record ::
  "ke_record \<Rightarrow> received_nts_ke_record_state \<Rightarrow>
     received_nts_ke_record_state \<times> (unit, nts_ke_parse_error) result" where
  "process_record rec st =
     (if finished st then (st, Err RecordAfterEnd)
      else case rec of
        KeEndOfMessage _ \<Rightarrow> (st\<lparr>finished := True\<rparr>, Ok ())
      | KeNextProtocol r \<Rightarrow> (st\<lparr>next_protocols := map as_protocol_id (protocols r)\<rparr>, Ok ())
      | KeError _ \<Rightarrow> (st, Err ErrorRecordReceived)
      | KeWarning _ \<Rightarrow> (st, Ok ())
      | KeAeadAlgorithm r \<Rightarrow> (st\<lparr>aead_scheme := map as_algorithm_id (algorithms r)\<rparr>, Ok ())
      | KeNewCookie r \<Rightarrow> (st\<lparr>cookies := cookies st @ [into_bytes new_cookie_trait r]\<rparr>, Ok ())
      | KeServer r \<Rightarrow> (st\<lparr>next_server := Some (into_string r)\<rparr>, Ok ())
      | KePort r \<Rightarrow> (st\<lparr>next_port := Some (rec_port r)\<rparr>, Ok ()))"

section \<open>What the record kinds promise\<close>

lemma u16_less_8_cases:
  "(t :: u16) < 8 \<Longrightarrow> t \<in> {0, 1, 2, 3, 4, 5, 6, 7}"
proof -
  assume "t < 8"
  then have "unat t < 8" by (simp add: word_less_nat_alt)
  then have "unat t \<in> {0, 1, 2, 3, 4, 5, 6, 7}" by auto
  then have "of_nat (unat t) \<in> {0, 1, 2, 3, 4, 5, 6, 7 :: u16}"
    by (elim insertE) (simp_all only:, simp_all)
  then show ?thesis by simp
qed

lemma record_word_bytes:
  assumes "ty < 8"
  shows "\<exists>hi lo. u16_to_be (push_bit 15 (if c then 1 else 0) + ty) = [hi, lo] \<and>
    (drop_bit 7 hi = 1) = c \<and> u16_from_be [hi AND 7, lo] = ty"
  using u16_less_8_cases [OF assms]
  by (cases c) (auto simp: u16_to_be_def u16_from_be_def be_nat_def)

lemma deserialize_framed:
  assumes "ty < 8" and "length body < 65536"
  shows "deserialize s (u16_to_be (push_bit 15 (if c then 1 else 0) + ty) @
           u16_to_be (of_nat (length body)) @ body @ tail) =
         deserialize_body s c ty body"
proof -
  obtain hi lo where w: "u16_to_be (push_bit 15 (if c then 1 else 0) + ty) = [hi, lo]"
    and c: "(drop_bit 7 hi = 1) = c" and t: "u16_from_be [hi AND 7, lo] = ty"
    using record_word_bytes [OF assms(1)] by blast
  obtain x y where l: "u16_to_be (of_nat (length body)) = [x, y]" using u16_to_be_pair by blast
  then have "u16_from_be [x, y] = of_nat (length body)" by (metis u16_from_to_be)
  then have n: "unat (u16_from_be [x, y]) = length body"
    using assms(2) by (simp add: unat_of_nat_u16)
  show ?thesis
    unfolding w l by (simp add: deserialize_def index_r_def slice_r_def n c t Let_def)
qed

locale ke_record_laws =
  fixes T :: "'r ke_record_trait"
    and wf :: "'r \<Rightarrow> bool"
    and resend :: "party \<Rightarrow> 'r \<Rightarrow> 'r"
  assumes type_small: "record_type T < 8"
    and len_into: "wf r \<Longrightarrow> rec_len T r = Ok (of_nat (length (into_bytes T r)))"
    and len_fits: "wf r \<Longrightarrow> length (into_bytes T r) < 65536"
    and from_into: "wf r \<Longrightarrow> from_bytes T s (into_bytes T r) = Ok (resend s r)"
    and from_wf: "from_bytes T s bs = Ok r \<Longrightarrow> length bs < 65536 \<Longrightarrow> wf r \<and> resend s r = r"
    and from_total: "\<not> panics (from_bytes T s bs)"
begin

lemma serialize_wf:
  "wf r \<Longrightarrow> serialize T r = Ok (u16_to_be (push_bit 15 (if critical T r then 1 else 0) + record_type T) @
     u16_to_be (of_nat (length (into_bytes T r))) @ into_bytes T r)"
  by (simp add: serialize_def len_into Let_def)

lemma deserialize_serialize:
  assumes "wf r" and "serialize T r = Ok w"
  shows "deserialize s (w @ tail) = deserialize_body s (critical T r) (record_type T) (into_bytes T r)"
  using deserialize_framed [OF type_small len_fits [OF assms(1)]] assms
  by (auto simp: serialize_wf)

lemma parse_as_into: "wf r \<Longrightarrow> parse_as V T s (into_bytes T r) = Ok (V (resend s r))"
  by (simp add: parse_as_def from_into)

lemma parse_as_Ok:
  "parse_as V T s bs = Ok k \<Longrightarrow> length bs < 65536 \<Longrightarrow> \<exists>r. k = V r \<and> wf r \<and> resend s r = r"
  using from_wf [of s bs] by (cases "from_bytes T s bs") (auto simp: parse_as_def)

lemma parse_as_total: "\<not> panics (parse_as V T s bs)"
  using from_total [of s bs] by (cases "from_bytes T s bs") (auto simp: parse_as_def)

end

text \<open>The lists of 16 bit codes.\<close>

lemma parse_codes_concat:
  "parse_codes code a msg (concat (map (\<lambda>_. u16_to_be code) xs)) = Ok (map (\<lambda>_. a) xs)"
proof (induction xs)
  case (Cons x xs)
  obtain h l where u: "u16_to_be code = [h, l]" using u16_to_be_pair by blast
  then have "u16_from_be [h, l] = code" by (metis u16_from_to_be)
  with Cons u show ?case by simp
qed simp

lemma parse_codes_Ok:
  "parse_codes code a msg bs = Ok as \<Longrightarrow> length bs mod 2 = 0 \<Longrightarrow>
   length as * 2 = length bs \<and> (\<forall>x\<in>set as. x = a)"
  by (induction code a msg bs arbitrary: as rule: parse_codes.induct) (auto simp: result_simps split: if_splits)

lemma parse_codes_total: "\<not> panics (parse_codes code a msg bs)"
  by (induction code a msg bs rule: parse_codes.induct) (auto simp: panics_bind_r)

lemma length_concat_u16: "length (concat (map (\<lambda>x. u16_to_be (f x)) xs)) = length xs * 2"
  by (induction xs) auto

text \<open>Strings and their bytes.\<close>

lemma bytes_str_str_bytes: "bytes_str (str_bytes s) = s"
proof -
  have "char_of (unat (of_nat (of_char c) :: u8)) = c" for c :: char
    by (simp add: unat_of_nat)
  then show ?thesis by (simp add: bytes_str_def str_bytes_def map_idI)
qed

lemma str_bytes_bytes_str: "str_bytes (bytes_str bs) = bs"
proof -
  have "of_nat (of_char (char_of (unat b))) = b" for b :: u8
    using unsigned_less [of b] by simp
  then show ?thesis by (simp add: bytes_str_def str_bytes_def map_idI)
qed

lemma length_str_bytes [simp]: "length (str_bytes s) = length s" "length (bytes_str bs) = length bs"
  by (simp_all add: str_bytes_def bytes_str_def)

lemma str_bytes_ascii: "list_all (\<lambda>b. b < 128) (str_bytes s) \<longleftrightarrow> is_ascii s"
proof -
  have "(of_nat (of_char c) :: u8) < 128 \<longleftrightarrow> (of_char c :: nat) < 128" for c :: char
    by (simp add: word_less_nat_alt unat_of_nat)
  then show ?thesis by (simp add: str_bytes_def is_ascii_def list_all_iff)
qed

text \<open>The values each kind can carry on the wire.\<close>

definition wf_next_protocol :: "next_protocol_record \<Rightarrow> bool" where
  "wf_next_protocol r \<longleftrightarrow> length (protocols r) * 2 < 65536"

definition wf_aead_algorithm :: "aead_algorithm_record \<Rightarrow> bool" where
  "wf_aead_algorithm r \<longleftrightarrow> length (algorithms r) * 2 < 65536"

definition wf_new_cookie :: "new_cookie_record \<Rightarrow> bool" where
  "wf_new_cookie r \<longleftrightarrow> length (cookie_bytes r) < 65536"

definition wf_server :: "server_record \<Rightarrow> bool" where
  "wf_server r \<longleftrightarrow>
     (case server_address r of
        Hostname n \<Rightarrow> is_ascii n \<and> length n < 65536 \<and> ipv4_from_str n = None \<and> ipv6_from_str n = None
      | Addr_V4 a \<Rightarrow> True
      | Addr_V6 a \<Rightarrow> wf_ipv6 a)"

text \<open>The sender is not on the wire: a received record carries the sender the receiver expects.\<close>

definition resend_server :: "party \<Rightarrow> server_record \<Rightarrow> server_record" where
  "resend_server s r = r\<lparr>server_sender := s\<rparr>"

definition resend_port :: "party \<Rightarrow> port_record \<Rightarrow> port_record" where
  "resend_port s r = r\<lparr>port_sender := s\<rparr>"

interpretation eom_laws: ke_record_laws end_of_message_trait "\<lambda>_. True" "\<lambda>_ r. r"
  by unfold_locales (auto simp: end_of_message_trait_def, metis end_of_message_record.exhaust)

interpretation next_protocol_laws: ke_record_laws next_protocol_trait wf_next_protocol "\<lambda>_ r. r"
proof
  fix r :: next_protocol_record and s and bs :: bytes
  obtain ps where r: "r = NextProtocolRecord ps" by (cases r)
  have all: "map (\<lambda>_. Ntpv4) ps = ps" for ps by (induction ps) (simp_all, metis known_next_protocol.exhaust)
  have ids: "(\<lambda>p. u16_to_be (as_protocol_id p)) = (\<lambda>_. u16_to_be (as_protocol_id Ntpv4))"
    by (rule ext) (metis known_next_protocol.exhaust)
  show "from_bytes next_protocol_trait s (into_bytes next_protocol_trait r) = Ok r"
    if "wf_next_protocol r"
    unfolding r next_protocol_trait_def
    by (simp add: ids length_concat_u16 parse_codes_concat all del: as_protocol_id.simps)
  show "from_bytes next_protocol_trait s bs = Ok r \<Longrightarrow> length bs < 65536 \<Longrightarrow> wf_next_protocol r \<and> r = r"
    by (auto simp: next_protocol_trait_def wf_next_protocol_def result_simps split: if_splits dest!: parse_codes_Ok)
  show "\<not> panics (from_bytes next_protocol_trait s bs)"
    by (auto simp: next_protocol_trait_def panics_bind_r parse_codes_total)
qed (auto simp: next_protocol_trait_def wf_next_protocol_def doubled_len_def length_concat_u16)

interpretation error_laws: ke_record_laws error_trait "\<lambda>_. True" "\<lambda>_ r. r"
proof
  fix r :: error_record and s
  show "from_bytes error_trait s (into_bytes error_trait r) = Ok r"
    by (cases r; cases "error_kind r") (auto simp: error_trait_def)
qed (auto simp: error_trait_def Let_def)

interpretation warning_laws: ke_record_laws warning_trait "\<lambda>_. True" "\<lambda>_ r. r"
proof
  fix r :: warning_record and s
  show "from_bytes warning_trait s (into_bytes warning_trait r) = Ok r"
    by (cases r; cases "warning_kind r") (auto simp: warning_trait_def)
qed (auto simp: warning_trait_def Let_def)

interpretation aead_laws: ke_record_laws aead_algorithm_trait wf_aead_algorithm "\<lambda>_ r. r"
proof
  fix r :: aead_algorithm_record and s and bs :: bytes
  obtain as where r: "r = AeadAlgorithmRecord as" by (cases r)
  have all: "map (\<lambda>_. AeadAesSivCmac256) as = as" for as
    by (induction as) (simp_all, metis known_aead_algorithm.exhaust)
  have ids: "(\<lambda>p. u16_to_be (as_algorithm_id p)) = (\<lambda>_. u16_to_be (as_algorithm_id AeadAesSivCmac256))"
    by (rule ext) (metis known_aead_algorithm.exhaust)
  show "from_bytes aead_algorithm_trait s (into_bytes aead_algorithm_trait r) = Ok r"
    if "wf_aead_algorithm r"
    unfolding r aead_algorithm_trait_def
    by (simp add: ids length_concat_u16 parse_codes_concat all del: as_algorithm_id.simps)
  show "from_bytes aead_algorithm_trait s bs = Ok r \<Longrightarrow> length bs < 65536 \<Longrightarrow> wf_aead_algorithm r \<and> r = r"
    by (auto simp: aead_algorithm_trait_def wf_aead_algorithm_def result_simps split: if_splits dest!: parse_codes_Ok)
  show "\<not> panics (from_bytes aead_algorithm_trait s bs)"
    by (auto simp: aead_algorithm_trait_def panics_bind_r parse_codes_total)
qed (auto simp: aead_algorithm_trait_def wf_aead_algorithm_def doubled_len_def length_concat_u16)

interpretation cookie_laws: ke_record_laws new_cookie_trait wf_new_cookie "\<lambda>_ r. r"
  by unfold_locales (auto simp: new_cookie_trait_def wf_new_cookie_def)

interpretation server_laws: ke_record_laws server_trait wf_server resend_server
proof
  fix r :: server_record and s and bs :: bytes
  show "rec_len server_trait r = Ok (of_nat (length (into_bytes server_trait r)))" if "wf_server r"
    using that by (auto simp: server_trait_def wf_server_def into_string_def split: address.splits)
  show "length (into_bytes server_trait r) < 65536" if "wf_server r"
    using that le_less_trans [OF length_ipv4_to_string, of 65536] less_trans [OF length_ipv6_to_string, of _ 65536]
    by (auto simp: server_trait_def wf_server_def into_string_def split: address.splits)
  show "from_bytes server_trait s (into_bytes server_trait r) = Ok (resend_server s r)" if "wf_server r"
    using that
    by (cases r; cases "server_address r")
      (auto simp: server_trait_def wf_server_def into_string_def server_from_bytes_def resend_server_def
        str_bytes_ascii bytes_str_str_bytes ipv4_from_to_string ipv6_from_to_string ipv4_from_ipv6_string Let_def)
  show "from_bytes server_trait s bs = Ok r \<Longrightarrow> length bs < 65536 \<Longrightarrow> wf_server r \<and> resend_server s r = r"
    using str_bytes_ascii [of "bytes_str bs"]
    by (auto simp: server_trait_def server_from_bytes_def wf_server_def resend_server_def Let_def
        str_bytes_bytes_str ipv6_from_str_wf split: if_splits option.splits)
  show "\<not> panics (from_bytes server_trait s bs)"
    by (simp add: server_trait_def server_from_bytes_def Let_def)
qed (simp add: server_trait_def)

interpretation port_laws: ke_record_laws port_trait "\<lambda>_. True" resend_port
  by unfold_locales (auto simp: port_trait_def resend_port_def port_record_new_def split: if_splits)

section \<open>Records of any kind\<close>

fun serialize_ke :: "ke_record \<Rightarrow> (bytes, 'e) result" where
  "serialize_ke (KeEndOfMessage r) = serialize end_of_message_trait r"
| "serialize_ke (KeNextProtocol r) = serialize next_protocol_trait r"
| "serialize_ke (KeError r) = serialize error_trait r"
| "serialize_ke (KeWarning r) = serialize warning_trait r"
| "serialize_ke (KeAeadAlgorithm r) = serialize aead_algorithm_trait r"
| "serialize_ke (KeNewCookie r) = serialize new_cookie_trait r"
| "serialize_ke (KeServer r) = serialize server_trait r"
| "serialize_ke (KePort r) = serialize port_trait r"

fun wf_ke :: "ke_record \<Rightarrow> bool" where
  "wf_ke (KeNextProtocol r) = wf_next_protocol r"
| "wf_ke (KeAeadAlgorithm r) = wf_aead_algorithm r"
| "wf_ke (KeNewCookie r) = wf_new_cookie r"
| "wf_ke (KeServer r) = wf_server r"
| "wf_ke _ = True"

fun resend_ke :: "party \<Rightarrow> ke_record \<Rightarrow> ke_record" where
  "resend_ke s (KeServer r) = KeServer (resend_server s r)"
| "resend_ke s (KePort r) = KePort (resend_port s r)"
| "resend_ke s k = k"

lemma record_types:
  "record_type end_of_message_trait = 0" "record_type next_protocol_trait = 1"
  "record_type error_trait = 2" "record_type warning_trait = 3" "record_type aead_algorithm_trait = 4"
  "record_type new_cookie_trait = 5" "record_type server_trait = 6" "record_type port_trait = 7"
  by (simp_all add: end_of_message_trait_def next_protocol_trait_def error_trait_def warning_trait_def
      aead_algorithm_trait_def new_cookie_trait_def server_trait_def port_trait_def)

lemmas serialize_wf_simps = eom_laws.serialize_wf next_protocol_laws.serialize_wf error_laws.serialize_wf
  warning_laws.serialize_wf aead_laws.serialize_wf cookie_laws.serialize_wf server_laws.serialize_wf
  port_laws.serialize_wf

lemmas parse_as_into_simps = eom_laws.parse_as_into next_protocol_laws.parse_as_into error_laws.parse_as_into
  warning_laws.parse_as_into aead_laws.parse_as_into cookie_laws.parse_as_into server_laws.parse_as_into
  port_laws.parse_as_into

lemmas parse_as_total_simps = eom_laws.parse_as_total next_protocol_laws.parse_as_total error_laws.parse_as_total
  warning_laws.parse_as_total aead_laws.parse_as_total cookie_laws.parse_as_total server_laws.parse_as_total
  port_laws.parse_as_total

lemma serialize_ke_Ok: "wf_ke k \<Longrightarrow> \<exists>w. serialize_ke k = Ok w"
  by (cases k) (auto simp: serialize_wf_simps)

lemma deserialize_serialize_ke:
  assumes "wf_ke k" and "serialize_ke k = Ok w"
  shows "deserialize s (w @ tail) = Ok (resend_ke s k)"
proof (cases k)
  case (KeEndOfMessage r)
  with assms eom_laws.deserialize_serialize [of r w s tail] show ?thesis
    by (simp add: deserialize_body_def record_types parse_as_into_simps)
next
  case (KeNextProtocol r)
  with assms next_protocol_laws.deserialize_serialize [of r w s tail] show ?thesis
    by (simp add: deserialize_body_def record_types parse_as_into_simps)
next
  case (KeError r)
  with assms error_laws.deserialize_serialize [of r w s tail] show ?thesis
    by (simp add: deserialize_body_def record_types parse_as_into_simps)
next
  case (KeWarning r)
  with assms warning_laws.deserialize_serialize [of r w s tail] show ?thesis
    by (simp add: deserialize_body_def record_types parse_as_into_simps)
next
  case (KeAeadAlgorithm r)
  with assms aead_laws.deserialize_serialize [of r w s tail] show ?thesis
    by (simp add: deserialize_body_def record_types parse_as_into_simps)
next
  case (KeNewCookie r)
  with assms cookie_laws.deserialize_serialize [of r w s tail] show ?thesis
    by (simp add: deserialize_body_def record_types parse_as_into_simps)
next
  case (KeServer r)
  with assms server_laws.deserialize_serialize [of r w s tail] show ?thesis
    by (simp add: deserialize_body_def record_types parse_as_into_simps)
next
  case (KePort r)
  with assms port_laws.deserialize_serialize [of r w s tail] show ?thesis
    by (simp add: deserialize_body_def record_types parse_as_into_simps)
qed

lemma deserialize_body_Ok:
  assumes "deserialize_body s c ty body = Ok k" and "length body < 65536"
  shows "wf_ke k \<and> resend_ke s k = k"
  using assms(1) unfolding deserialize_body_def
  by (auto split: if_splits
      dest!: eom_laws.parse_as_Ok [OF _ assms(2)] next_protocol_laws.parse_as_Ok [OF _ assms(2)]
        error_laws.parse_as_Ok [OF _ assms(2)] warning_laws.parse_as_Ok [OF _ assms(2)]
        aead_laws.parse_as_Ok [OF _ assms(2)] cookie_laws.parse_as_Ok [OF _ assms(2)]
        server_laws.parse_as_Ok [OF _ assms(2)] port_laws.parse_as_Ok [OF _ assms(2)])

lemma deserialize_body_total: "\<not> panics (deserialize_body s c ty body)"
  by (simp add: deserialize_body_def parse_as_total_simps)

text \<open>The length field and the whole length of a framed record.\<close>

definition body_length :: "bytes \<Rightarrow> nat" where
  "body_length bs = unat (u16_from_be (take 2 (drop 2 bs)))"

definition complete_record :: "bytes \<Rightarrow> bool" where
  "complete_record bs \<longleftrightarrow> 4 \<le> length bs \<and> 4 + body_length bs \<le> length bs"

lemma four_bytes: "4 \<le> length bs \<Longrightarrow> \<exists>a b c d r. bs = a # b # c # d # r"
  by (auto simp: Suc_le_length_iff eval_nat_numeral)

lemma deserialize_complete:
  assumes "complete_record bs"
  obtains c ty where "deserialize s bs = deserialize_body s c ty (take (body_length bs) (drop 4 bs))"
proof -
  obtain a b x y r where bs: "bs = a # b # x # y # r"
    using four_bytes [of bs] assms by (auto simp: complete_record_def)
  show thesis
    by (rule that [of "drop_bit 7 a = 1" "u16_from_be [a AND 7, b]"])
      (use assms in \<open>simp add: bs deserialize_def index_r_def slice_r_def complete_record_def body_length_def Let_def\<close>)
qed

lemma deserialize_panics_iff: "panics (deserialize s bs) \<longleftrightarrow> \<not> complete_record bs"
proof
  assume "\<not> complete_record bs"
  show "panics (deserialize s bs)"
  proof (cases "4 \<le> length bs")
    case True
    then obtain a b x y r where bs: "bs = a # b # x # y # r" using four_bytes by blast
    with \<open>\<not> complete_record bs\<close> show ?thesis
      by (simp add: deserialize_def index_r_def slice_r_def complete_record_def body_length_def Let_def)
  next
    case False
    then show ?thesis by (simp add: deserialize_def index_r_def panics_bind_r)
  qed
next
  assume "panics (deserialize s bs)"
  then show "\<not> complete_record bs"
    using deserialize_body_total by (metis deserialize_complete)
qed

section \<open>Properties\<close>

text \<open>
  C27: Every record of the eight kinds that fits the format is serialised without a panic, and
  deserialising the bytes, whatever follows them, gives the same record back with the sender the
  receiver names. This includes server records with host names, IPv4 and IPv6 addresses.
\<close>

theorem ke_record_roundtrip:
  assumes "wf_ke k"
  shows "\<exists>w. (serialize_ke k :: (bytes, io_error) result) = Ok w \<and> (\<forall>s tail. deserialize s (w @ tail) = Ok (resend_ke s k))"
proof -
  obtain w where w: "(serialize_ke k :: (bytes, io_error) result) = Ok w"
    using serialize_ke_Ok [OF assms] by blast
  from deserialize_serialize_ke [OF assms this] show ?thesis using w by blast
qed

theorem ke_record_roundtrip_witness:
  "\<exists>w. (serialize_ke (KeServer \<lparr>server_sender = Party_Client,
         server_address = Addr_V6 (Ipv6Addr [0x2001, 0xdb8, 0, 0, 0, 0, 0, 1])\<rparr>) :: (bytes, io_error) result) = Ok w \<and>
     (\<forall>s tail. deserialize s (w @ tail) = Ok (KeServer \<lparr>server_sender = s,
         server_address = Addr_V6 (Ipv6Addr [0x2001, 0xdb8, 0, 0, 0, 0, 0, 1])\<rparr>))"
  using ke_record_roundtrip [of "KeServer \<lparr>server_sender = Party_Client,
         server_address = Addr_V6 (Ipv6Addr [0x2001, 0xdb8, 0, 0, 0, 0, 0, 1])\<rparr>"]
  by (simp add: wf_server_def wf_ipv6_def resend_server_def)

text \<open>
  Whatever record \<^verbatim>\<open>deserialize\<close> accepts can be serialised, and the result deserialises to
  that record.
\<close>

lemma deserialized_record_reserialises:
  assumes "deserialize s bs = Ok k"
  shows "\<exists>w. (serialize_ke k :: (bytes, io_error) result) = Ok w \<and> deserialize s w = Ok k"
proof -
  have c: "complete_record bs" using assms deserialize_panics_iff [of s bs] by auto
  obtain crit ty where "deserialize s bs = deserialize_body s crit ty (take (body_length bs) (drop 4 bs))"
    by (rule deserialize_complete [OF c])
  moreover have "length (take (body_length bs) (drop 4 bs)) < 65536"
    using unat_width(1) [of "u16_from_be (take 2 (drop 2 bs))"] by (simp add: body_length_def)
  ultimately have k: "wf_ke k" "resend_ke s k = k" using assms deserialize_body_Ok by auto
  obtain w where "(serialize_ke k :: (bytes, io_error) result) = Ok w"
    using serialize_ke_Ok [OF k(1)] by blast
  with deserialize_serialize_ke [OF k(1) this, of s "[]"] k(2) show ?thesis by auto
qed

lemma deserialized_record_reserialises_witness:
  "\<exists>k w. deserialize Party_Client [0x80, 4, 0, 2, 0, 15] = Ok k \<and>
     (serialize_ke k :: (bytes, io_error) result) = Ok w \<and> deserialize Party_Client w = Ok k"
proof -
  have "deserialize Party_Client [0x80, 4, 0, 2, 0, 15] = Ok (KeAeadAlgorithm (AeadAlgorithmRecord [AeadAesSivCmac256]))"
    by (simp add: deserialize_def index_r_def slice_r_def deserialize_body_def record_types
        u16_from_be_def be_nat_def parse_as_def aead_algorithm_trait_def)
  with deserialized_record_reserialises [OF this] show ?thesis by blast
qed

text \<open>
  C35: \<^verbatim>\<open>deserialize\<close> panics exactly on input shorter than its header and the length field ask for,
  as its documentation says; on complete records it returns a record or an error.
\<close>

theorem deserialize_panics_iff_incomplete: "panics (deserialize s bs) \<longleftrightarrow> \<not> complete_record bs"
  by (rule deserialize_panics_iff)

text \<open>
  The record type is 15 bits wide, but \<^verbatim>\<open>deserialize\<close> looks at its low 11 bits only: bits
  3 to 6 of the first byte do not matter, so an unknown critical record of type 0x0800, 0x1000, ...
  is taken for an End of Message instead of being refused.
\<close>

lemma deserialize_ignores_type_bits:
  "deserialize s (b # bs) = deserialize s ((b AND 0x87) # bs) \<and>
   deserialize s [0x88, 0, 0, 0] = Ok (KeEndOfMessage EndOfMessageRecord)"
proof -
  have "(b AND 0x87) AND 7 = b AND 7" by (simp add: and.assoc)
  moreover have "drop_bit 7 (b AND 0x87) = drop_bit 7 b"
  proof (rule bit_word_eqI)
    fix n
    have "bit b (7 + n) \<Longrightarrow> n = 0" using bit_imp_le_length [of b "7 + n"] by simp
    then show "bit (drop_bit 7 (b AND 0x87)) n = bit (drop_bit 7 b) n"
      by (auto simp: bit_drop_bit_eq bit_and_iff)
  qed
  ultimately have "deserialize s (b # bs) = deserialize s ((b AND 0x87) # bs)"
    by (simp add: deserialize_def index_r_def slice_r_def Let_def)
  moreover have "deserialize s [0x88, 0, 0, 0] = Ok (KeEndOfMessage EndOfMessageRecord)"
    by (simp add: deserialize_def index_r_def slice_r_def deserialize_body_def record_types
        u16_from_be_def be_nat_def parse_as_def end_of_message_trait_def)
  ultimately show ?thesis by blast
qed


end
