(* ===== verification/SysTime.thy ===== *)
theory SysTime
  imports Prelude
begin

text \<open>
  \<^verbatim>\<open>std::time\<close> as far as the program uses it. A \<^verbatim>\<open>SystemTime\<close> is the signed number of
  nanoseconds since the UNIX epoch, a \<^verbatim>\<open>Duration\<close> a number of nanoseconds. On the platforms
  the program targets a \<^verbatim>\<open>SystemTime\<close> holds its seconds in an \<^verbatim>\<open>i64\<close> (\<open>systime_ok\<close>), and
  a \<^verbatim>\<open>Duration\<close> in a \<^verbatim>\<open>u64\<close>.
\<close>

type_synonym systime = int
type_synonym duration = nat

definition NANOS_PER_SEC :: nat where "NANOS_PER_SEC = 1000000000"

definition UNIX_EPOCH :: systime where "UNIX_EPOCH = 0"

definition systime_ok :: "systime \<Rightarrow> bool" where
  "systime_ok t \<longleftrightarrow> - (2 ^ 63) * 1000000000 \<le> t \<and> t < 2 ^ 63 * 1000000000"

text \<open>\<^verbatim>\<open>Duration::new(secs, nanos)\<close> for \<^verbatim>\<open>nanos\<close> below a second.\<close>

definition duration_new :: "nat \<Rightarrow> nat \<Rightarrow> duration" where
  "duration_new secs nanos = secs * NANOS_PER_SEC + nanos"

definition as_secs :: "duration \<Rightarrow> u64" where
  "as_secs d = of_nat (d div NANOS_PER_SEC)"

definition subsec_nanos :: "duration \<Rightarrow> u32" where
  "subsec_nanos d = of_nat (d mod NANOS_PER_SEC)"

text \<open>\<^verbatim>\<open>SystemTime::duration_since\<close>: an error when the other instant is later.\<close>

definition duration_since :: "systime \<Rightarrow> systime \<Rightarrow> duration option" where
  "duration_since t earlier = (if earlier \<le> t then Some (nat (t - earlier)) else None)"

text \<open>\<^verbatim>\<open>Duration + Duration\<close> panics when the seconds overflow.\<close>

definition duration_add :: "duration \<Rightarrow> duration \<Rightarrow> (duration, 'e) result" where
  "duration_add a b =
     (if (a + b) div NANOS_PER_SEC < 2 ^ 64 then Ok (a + b)
      else Panic ''overflow when adding durations'')"

text \<open>\<^verbatim>\<open>SystemTime::checked_add\<close>.\<close>

definition checked_add_time :: "systime \<Rightarrow> duration \<Rightarrow> systime option" where
  "checked_add_time t d = (if t + int d < 2 ^ 63 * 1000000000 then Some (t + int d) else None)"

text \<open>\<^verbatim>\<open>u64::saturating_sub\<close> and \<^verbatim>\<open>u64::saturating_add\<close>.\<close>

definition saturating_sub :: "u64 \<Rightarrow> u64 \<Rightarrow> u64" where
  "saturating_sub a b = (if a < b then 0 else a - b)"

definition saturating_add :: "u64 \<Rightarrow> u64 \<Rightarrow> u64" where
  "saturating_add a b = (if unat a + unat b < 2 ^ 64 then a + b else - 1)"

lemma unat_saturating_sub [simp]: "unat (saturating_sub a b) = unat a - unat b"
  by (simp add: saturating_sub_def unat_sub word_less_nat_alt word_le_nat_alt)

lemma unat_saturating_add: "unat (saturating_add a b) = min (unat a + unat b) (2 ^ 64 - 1)"
  using unat_width(3) [of a] unat_width(3) [of b]
  by (auto simp: saturating_add_def unat_word_ariths min_def unsigned_minus_1_eq_mask mask_eq_exp_minus_1)

lemma unat_saturating_add_bounds:
  "unat a \<le> unat (saturating_add a b)" "unat (saturating_add a b) \<le> unat a + unat b"
  using unat_width(3) [of a] by (auto simp: unat_saturating_add)

end
