(* ===== verification/Key_Rotator.thy ===== *)
theory Key_Rotator
  imports Cookie SysTime
begin

text \<open>
  \<^verbatim>\<open>src/src/key_rotator.rs\<close>: the cache of cookie keys that the NTS-KE server and the NTP
  server synchronise through memcached. External code is a parameter: the memcached server as
  one rotation sees it (\<open>memcache\<close>), and HMAC-SHA256 of the \<^verbatim>\<open>ring\<close> crate (\<open>hmac\<close>: MAC key,
  message). The clock reading of \<^verbatim>\<open>SystemTime::now\<close> is an argument. \<^verbatim>\<open>rotate\<close> mutates the
  rotator even when it fails, so it returns the new state next to its result. The two
  process-wide Prometheus counters it increments are kept as fields of the state.
\<close>

section \<open>State and operations\<close>

type_synonym memcache_error = string

record memcache =
  mc_connect :: "string \<Rightarrow> (unit, memcache_error) result"
  mc_get :: "string \<Rightarrow> (bytes option, memcache_error) result"

datatype rotate_error = MemcacheError memcache_error | KeyIdNotFound key_id

record key_rotator =
  memcached_url :: string
  kr_prefix :: string
  duration :: u64
  number_of_forward_periods :: u64
  number_of_backward_periods :: u64
  master_key :: cookie_key
  latest_key_id :: key_id
  cache :: "key_id \<rightharpoonup> bytes"
  rotation_counter :: nat
  failure_counter :: nat

definition cache_insert ::
  "(bytes \<Rightarrow> bytes \<Rightarrow> bytes) \<Rightarrow> key_id \<Rightarrow> bytes \<Rightarrow> key_rotator \<Rightarrow> key_rotator" where
  "cache_insert hmac kid value rot =
     (let tag = hmac (cookie_key_as_bytes (master_key rot)) value
      in rot\<lparr>cache := (cache rot)(kid \<mapsto> tag)\<rparr>)"

definition cache_remove :: "key_id \<Rightarrow> key_rotator \<Rightarrow> key_rotator" where
  "cache_remove kid rot = rot\<lparr>cache := (cache rot)(kid := None)\<rparr>"

definition kr_get :: "key_rotator \<Rightarrow> key_id \<Rightarrow> bytes option" where
  "kr_get rot kid = cache rot kid"

definition latest_key_value :: "key_rotator \<Rightarrow> (key_id \<times> bytes, 'e) result" where
  "latest_key_value rot =
     bind_r (unwrap_o (kr_get rot (latest_key_id rot))) (\<lambda>tag. Ok (latest_key_id rot, tag))"

text \<open>\<^verbatim>\<open>format!("{}/{}", self.prefix, epoch)\<close>.\<close>

definition memcached_key :: "string \<Rightarrow> u64 \<Rightarrow> string" where
  "memcached_key pre epoch = pre @ ''/'' @ show_nat (unat epoch)"

text \<open>The inclusive range \<^verbatim>\<open>first..=last\<close> of \<^verbatim>\<open>u64\<close>s.\<close>

definition range_inclusive :: "u64 \<Rightarrow> u64 \<Rightarrow> u64 list" where
  "range_inclusive a b = map of_nat [unat a..<Suc (unat b)]"

fun rotate_loop ::
  "(bytes \<Rightarrow> bytes \<Rightarrow> bytes) \<Rightarrow> memcache \<Rightarrow> u64 list \<Rightarrow> key_rotator \<Rightarrow>
     key_rotator \<times> (unit, rotate_error) result" where
  "rotate_loop hmac mc [] rot = (rot, Ok ())"
| "rotate_loop hmac mc (period_number # ps) rot =
     (let epoch = period_number * duration rot; kid = from_epoch epoch
      in case mc_get mc (memcached_key (kr_prefix rot) epoch) of
           Err e \<Rightarrow> (rot, Err (MemcacheError e))
         | Panic p \<Rightarrow> (rot, Panic p)
         | Ok (Some value) \<Rightarrow> rotate_loop hmac mc ps (cache_insert hmac kid value rot)
         | Ok None \<Rightarrow> (rot\<lparr>failure_counter := failure_counter rot + 1\<rparr>,
                      Err (KeyIdNotFound kid)))"

text \<open>The period of an instant and the window of periods a rotation synchronises.\<close>

definition current_period :: "key_rotator \<Rightarrow> duration \<Rightarrow> u64" where
  "current_period rot since = as_secs since div duration rot"

definition first_period :: "key_rotator \<Rightarrow> u64 \<Rightarrow> u64" where
  "first_period rot current = saturating_sub current (number_of_backward_periods rot)"

definition last_period :: "key_rotator \<Rightarrow> u64 \<Rightarrow> u64" where
  "last_period rot current = saturating_add current (number_of_forward_periods rot)"

definition rotate ::
  "(bytes \<Rightarrow> bytes \<Rightarrow> bytes) \<Rightarrow> memcache \<Rightarrow> systime \<Rightarrow> key_rotator \<Rightarrow>
     key_rotator \<times> (unit, rotate_error) result" where
  "rotate hmac mc now rot0 =
     (let rot = rot0\<lparr>rotation_counter := rotation_counter rot0 + 1\<rparr> in
      case duration_since now UNIX_EPOCH of
        None \<Rightarrow> (rot, Panic ''The system time must be after the UNIX Epoch time.'')
      | Some since \<Rightarrow>
          if duration rot = 0 then (rot, Panic ''attempt to divide by zero'')
          else
            let current = current_period rot since;
                current_epoch = current * duration rot;
                first = first_period rot current;
                last = last_period rot current;
                removed_epoch = saturating_sub first 1 * duration rot;
                rot = cache_remove (from_epoch removed_epoch) rot
            in case mc_connect mc (memcached_url rot) of
                 Err e \<Rightarrow> (rot, Err (MemcacheError e))
               | Panic p \<Rightarrow> (rot, Panic p)
               | Ok _ \<Rightarrow>
                   (case rotate_loop hmac mc (range_inclusive first last) rot of
                      (rot, Ok _) \<Rightarrow> (rot\<lparr>latest_key_id := from_epoch current_epoch\<rparr>, Ok ())
                    | (rot, Err e) \<Rightarrow> (rot, Err e)
                    | (rot, Panic p) \<Rightarrow> (rot, Panic p)))"

text \<open>
  \<^verbatim>\<open>KeyRotator::connect\<close>. Each attempt sees its own clock and its own memcached; attempt
  \<open>n\<close> finds them in \<open>env n\<close>. \<open>tries_left\<close> is \<^verbatim>\<open>maximum_try - try_number\<close>.
\<close>

definition initial_rotator :: "string \<Rightarrow> string \<Rightarrow> cookie_key \<Rightarrow> key_rotator" where
  "initial_rotator pre url mkey =
     \<lparr>memcached_url = url, kr_prefix = pre, duration = 3600, number_of_forward_periods = 2,
      number_of_backward_periods = 24, master_key = mkey, latest_key_id = key_id_new 0,
      cache = Map.empty, rotation_counter = 0, failure_counter = 0\<rparr>"

definition maximum_try :: nat where "maximum_try = 5"

fun connect_loop ::
  "(bytes \<Rightarrow> bytes \<Rightarrow> bytes) \<Rightarrow> (nat \<Rightarrow> memcache \<times> systime) \<Rightarrow> nat \<Rightarrow> key_rotator \<Rightarrow>
     (key_rotator, rotate_error) result" where
  "connect_loop hmac env tries_left rot =
     (case rotate hmac (fst (env (maximum_try - tries_left))) (snd (env (maximum_try - tries_left))) rot of
        (rot', Ok _) \<Rightarrow> Ok rot'
      | (rot', Panic p) \<Rightarrow> Panic p
      | (rot', Err e) \<Rightarrow>
          (case tries_left of 0 \<Rightarrow> Err e | Suc t \<Rightarrow> connect_loop hmac env t rot'))"

definition kr_connect ::
  "(bytes \<Rightarrow> bytes \<Rightarrow> bytes) \<Rightarrow> (nat \<Rightarrow> memcache \<times> systime) \<Rightarrow> string \<Rightarrow> string \<Rightarrow>
     cookie_key \<Rightarrow> (key_rotator, rotate_error) result" where
  "kr_connect hmac env pre url mkey =
     connect_loop hmac env (maximum_try - 1) (initial_rotator pre url mkey)"

text \<open>
  One round of the thread of \<^verbatim>\<open>periodic_rotate\<close>: \<^verbatim>\<open>inner\<close> rotates under the write lock and
  drops the result; a panic inside poisons the lock. \<^verbatim>\<open>read_sleep\<close> is the pause after it.
\<close>

definition inner ::
  "(bytes \<Rightarrow> bytes \<Rightarrow> bytes) \<Rightarrow> memcache \<Rightarrow> systime \<Rightarrow> key_rotator rwlock \<Rightarrow>
     key_rotator rwlock \<times> (unit, 'e) result" where
  "inner hmac mc now rotor =
     (case rw_read rotor of
        Ok rot \<Rightarrow>
          (case rotate hmac mc now rot of
             (rot', Panic p) \<Rightarrow> (\<lparr>lock_val = rot', lock_poisoned = True\<rparr>, Panic p)
           | (rot', Ok _) \<Rightarrow> (rotor\<lparr>lock_val := rot'\<rparr>, Ok ())
           | (rot', Err _) \<Rightarrow> (rotor\<lparr>lock_val := rot'\<rparr>, Ok ()))
      | Err e \<Rightarrow> (rotor, Err e)
      | Panic p \<Rightarrow> (rotor, Panic p))"

definition read_sleep :: "key_rotator rwlock \<Rightarrow> (u64, 'e) result" where
  "read_sleep rotor = bind_r (rw_read rotor) (\<lambda>rot. Ok (duration rot))"

text \<open>
  The thread of \<^verbatim>\<open>periodic_rotate\<close>, for the environments its first rounds meet: the lock they
  leave behind and the pauses in seconds. A panic ends the thread.
\<close>

fun periodic_rotate ::
  "(bytes \<Rightarrow> bytes \<Rightarrow> bytes) \<Rightarrow> (memcache \<times> systime) list \<Rightarrow> key_rotator rwlock \<Rightarrow>
     key_rotator rwlock \<times> (u64 list, 'e) result" where
  "periodic_rotate hmac [] rotor = (rotor, Ok [])"
| "periodic_rotate hmac ((mc, now) # envs) rotor =
     (case inner hmac mc now rotor of
        (rotor', Ok _) \<Rightarrow>
          (case read_sleep rotor' of
             Ok restlen \<Rightarrow>
               (case periodic_rotate hmac envs rotor' of
                  (rotor'', r) \<Rightarrow> (rotor'', bind_r r (\<lambda>rests. Ok (restlen # rests))))
           | Err e \<Rightarrow> (rotor', Err e)
           | Panic p \<Rightarrow> (rotor', Panic p))
      | (rotor', Err e) \<Rightarrow> (rotor', Err e)
      | (rotor', Panic p) \<Rightarrow> (rotor', Panic p))"

declare connect_loop.simps [simp del]

section \<open>What a rotation does to the state\<close>

definition period_id :: "key_rotator \<Rightarrow> u64 \<Rightarrow> key_id" where
  "period_id rot p = from_epoch (p * duration rot)"

definition fetched :: "memcache \<Rightarrow> key_rotator \<Rightarrow> u64 \<Rightarrow> (bytes option, memcache_error) result" where
  "fetched mc rot p = mc_get mc (memcached_key (kr_prefix rot) (p * duration rot))"

definition period_tag ::
  "(bytes \<Rightarrow> bytes \<Rightarrow> bytes) \<Rightarrow> memcache \<Rightarrow> key_rotator \<Rightarrow> u64 \<Rightarrow> bytes" where
  "period_tag hmac mc rot p =
     (case fetched mc rot p of
        Ok (Some v) \<Rightarrow> hmac (cookie_key_as_bytes (master_key rot)) v | _ \<Rightarrow> [])"

lemma cache_insert_simps [simp]:
  "duration (cache_insert hmac k v rot) = duration rot"
  "kr_prefix (cache_insert hmac k v rot) = kr_prefix rot"
  "master_key (cache_insert hmac k v rot) = master_key rot"
  "latest_key_id (cache_insert hmac k v rot) = latest_key_id rot"
  "memcached_url (cache_insert hmac k v rot) = memcached_url rot"
  "number_of_forward_periods (cache_insert hmac k v rot) = number_of_forward_periods rot"
  "number_of_backward_periods (cache_insert hmac k v rot) = number_of_backward_periods rot"
  "cache (cache_insert hmac k v rot) =
     (cache rot)(k \<mapsto> hmac (cookie_key_as_bytes (master_key rot)) v)"
  by (simp_all add: cache_insert_def)

lemma cache_insert_period [simp]:
  "period_id (cache_insert hmac k v rot) = period_id rot"
  "fetched mc (cache_insert hmac k v rot) = fetched mc rot"
  "period_tag hmac' mc (cache_insert hmac k v rot) = period_tag hmac' mc rot"
  by (simp_all add: fun_eq_iff period_id_def fetched_def period_tag_def split: result.splits option.splits)

text \<open>The configuration is never touched; failure only adds to the cache and the counter.\<close>

definition same_config :: "key_rotator \<Rightarrow> key_rotator \<Rightarrow> bool" where
  "same_config a b \<longleftrightarrow>
     duration a = duration b \<and> kr_prefix a = kr_prefix b \<and> master_key a = master_key b \<and>
     memcached_url a = memcached_url b \<and>
     number_of_forward_periods a = number_of_forward_periods b \<and>
     number_of_backward_periods a = number_of_backward_periods b"

lemma rotate_loop_frame:
  "rotate_loop hmac mc ps rot = (rot', r) \<Longrightarrow>
     same_config rot' rot \<and> latest_key_id rot' = latest_key_id rot \<and>
     dom (cache rot) \<subseteq> dom (cache rot') \<and>
     dom (cache rot') \<subseteq> dom (cache rot) \<union> period_id rot ` set ps"
proof (induction ps arbitrary: rot)
  case Nil
  then show ?case by (simp add: same_config_def)
next
  case (Cons p ps)
  show ?case
  proof (cases "fetched mc rot p")
    case (Ok v)
    show ?thesis
    proof (cases v)
      case None
      then show ?thesis using Cons.prems Ok
        by (auto simp: fetched_def Let_def same_config_def)
    next
      case (Some val)
      have "rotate_loop hmac mc ps (cache_insert hmac (period_id rot p) val rot) = (rot', r)"
        using Cons.prems Ok Some by (simp add: fetched_def period_id_def Let_def)
      from Cons.IH [OF this] show ?thesis
        by (auto simp: same_config_def simp del: fun_upd_apply)
    qed
  qed (use Cons.prems in \<open>auto simp: fetched_def Let_def same_config_def\<close>)
qed

lemma rotate_loop_Ok:
  "rotate_loop hmac mc ps rot = (rot', Ok u) \<Longrightarrow>
     (\<forall>p\<in>set ps. \<exists>v. fetched mc rot p = Ok (Some v)) \<and>
     cache rot' = cache rot ++ map_of (rev (map (\<lambda>p. (period_id rot p, period_tag hmac mc rot p)) ps))"
proof (induction ps arbitrary: rot)
  case (Cons p ps)
  obtain v where v: "fetched mc rot p = Ok (Some v)"
    and rec: "rotate_loop hmac mc ps (cache_insert hmac (period_id rot p) v rot) = (rot', Ok u)"
    using Cons.prems by (auto simp: fetched_def period_id_def Let_def split: result.splits option.splits)
  have "period_tag hmac mc rot p = hmac (cookie_key_as_bytes (master_key rot)) v"
    using v by (simp add: period_tag_def)
  with Cons.IH [OF rec] v show ?case by (simp del: fun_upd_apply)
qed simp

lemma rotate_loop_no_panic:
  assumes "\<And>k. \<not> panics (mc_get mc k)"
  shows "\<not> panics (snd (rotate_loop hmac mc ps rot))"
proof (induction ps arbitrary: rot)
  case (Cons p ps)
  then show ?case
    using assms [of "memcached_key (kr_prefix rot) (p * duration rot)"]
    by (auto simp: Let_def split: result.splits option.splits)
qed simp

lemma set_range_inclusive: "set (range_inclusive a b) = {p. unat a \<le> unat p \<and> unat p \<le> unat b}"
proof -
  have "x \<in> of_nat ` {unat a..<Suc (unat b)}" if "unat a \<le> unat x" "unat x \<le> unat b" for x :: u64
    using that by (intro image_eqI [of _ _ "unat x"]) simp_all
  moreover have "unat (of_nat n :: u64) = n" if "n < Suc (unat b)" for n
    using that unat_width(3) [of b] by (simp add: unat_of_nat)
  ultimately show ?thesis by (auto simp: range_inclusive_def simp del: upt_Suc)
qed

lemma current_in_window:
  "current \<in> set (range_inclusive (first_period rot current) (last_period rot current))"
  using unat_saturating_add_bounds(1) [of current]
  by (simp add: set_range_inclusive first_period_def last_period_def)

text \<open>The frame of a whole rotation.\<close>

definition removed_id :: "key_rotator \<Rightarrow> u64 \<Rightarrow> key_id" where
  "removed_id rot current = period_id rot (saturating_sub (first_period rot current) 1)"

definition window :: "key_rotator \<Rightarrow> u64 \<Rightarrow> u64 set" where
  "window rot current = {p. unat (first_period rot current) \<le> unat p \<and> unat p \<le> unat (last_period rot current)}"

text \<open>The period a rotation works on; defined for a clock past the epoch.\<close>

definition period_at :: "key_rotator \<Rightarrow> systime \<Rightarrow> u64" where
  "period_at rot now = current_period rot (nat now)"

lemma rotate_past_epoch:
  assumes "0 \<le> now" and "duration rot \<noteq> 0"
  shows "rotate hmac mc now rot =
    (let c = period_at rot now;
         rot1 = rot\<lparr>rotation_counter := rotation_counter rot + 1,
                    cache := (cache rot)(removed_id rot c := None)\<rparr>
     in case mc_connect mc (memcached_url rot) of
          Err e \<Rightarrow> (rot1, Err (MemcacheError e))
        | Panic p \<Rightarrow> (rot1, Panic p)
        | Ok _ \<Rightarrow>
           (case rotate_loop hmac mc (range_inclusive (first_period rot c) (last_period rot c)) rot1 of
              (rot', Ok _) \<Rightarrow> (rot'\<lparr>latest_key_id := period_id rot c\<rparr>, Ok ())
            | (rot', Err e) \<Rightarrow> (rot', Err e)
            | (rot', Panic p) \<Rightarrow> (rot', Panic p)))"
  using assms
  by (simp add: rotate_def duration_since_def UNIX_EPOCH_def period_at_def removed_id_def
      cache_remove_def period_id_def Let_def current_period_def first_period_def last_period_def
      cong: result.case_cong)

lemma rotate_OkD:
  assumes "rotate hmac mc now rot = (rot', Ok u)"
  shows "0 \<le> now" and "duration rot \<noteq> 0"
  using assms by (auto simp: rotate_def duration_since_def UNIX_EPOCH_def Let_def split: if_splits)


lemma period_update [simp]:
  "period_id (rot\<lparr>rotation_counter := n, cache := m\<rparr>) = period_id rot"
  "fetched mc (rot\<lparr>rotation_counter := n, cache := m\<rparr>) = fetched mc rot"
  "period_tag hmac mc (rot\<lparr>rotation_counter := n, cache := m\<rparr>) = period_tag hmac mc rot"
  by (simp_all add: fun_eq_iff period_id_def fetched_def period_tag_def split: result.splits option.splits)

lemma rotate_frame:
  assumes "rotate hmac mc now rot = (rot', r)" and "0 \<le> now" and "duration rot \<noteq> 0"
  defines "c \<equiv> period_at rot now"
  shows "same_config rot' rot"
    and "dom (cache rot) - {removed_id rot c} \<subseteq> dom (cache rot')"
    and "dom (cache rot') \<subseteq> (dom (cache rot) - {removed_id rot c}) \<union> period_id rot ` window rot c"
    and "r \<noteq> Ok () \<Longrightarrow> latest_key_id rot' = latest_key_id rot"
proof -
  let ?rot1 = "rot\<lparr>rotation_counter := rotation_counter rot + 1,
                   cache := (cache rot)(removed_id rot c := None)\<rparr>"
  let ?ps = "range_inclusive (first_period rot c) (last_period rot c)"
  consider "mc_connect mc (memcached_url rot) \<noteq> Ok ()" "rot' = ?rot1"
    | x rr where "rotate_loop hmac mc ?ps ?rot1 = (x, rr)"
        "rot' = (if rr = Ok () then x\<lparr>latest_key_id := period_id rot c\<rparr> else x)" "r = rr"
    using assms(1) unfolding rotate_past_epoch [OF assms(2,3)] c_def [symmetric] Let_def
    by (auto split: result.splits prod.splits if_splits)
  then have *: "same_config rot' rot \<and>
      dom (cache rot) - {removed_id rot c} \<subseteq> dom (cache rot') \<and>
      dom (cache rot') \<subseteq> (dom (cache rot) - {removed_id rot c}) \<union> period_id rot ` window rot c \<and>
      (r \<noteq> Ok () \<longrightarrow> latest_key_id rot' = latest_key_id rot)"
  proof cases
    case 1
    then show ?thesis by (auto simp: same_config_def)
  next
    case 2
    from rotate_loop_frame [OF 2(1)] show ?thesis
      by (auto simp: 2(2,3) same_config_def set_range_inclusive window_def)
  qed
  then show "same_config rot' rot"
    and "dom (cache rot) - {removed_id rot c} \<subseteq> dom (cache rot')"
    and "dom (cache rot') \<subseteq> (dom (cache rot) - {removed_id rot c}) \<union> period_id rot ` window rot c"
    and "r \<noteq> Ok () \<Longrightarrow> latest_key_id rot' = latest_key_id rot"
    by auto
qed

lemma rotate_Ok:
  assumes "rotate hmac mc now rot = (rot', Ok ())"
  defines "c \<equiv> period_at rot now"
  shows "latest_key_id rot' = period_id rot c"
    and "\<forall>p\<in>window rot c. \<exists>v. fetched mc rot p = Ok (Some v)"
    and "cache rot' = (cache rot)(removed_id rot c := None) ++
           map_of (rev (map (\<lambda>p. (period_id rot p, period_tag hmac mc rot p))
             (range_inclusive (first_period rot c) (last_period rot c))))"
proof -
  let ?rot1 = "rot\<lparr>rotation_counter := rotation_counter rot + 1,
                   cache := (cache rot)(removed_id rot c := None)\<rparr>"
  let ?ps = "range_inclusive (first_period rot c) (last_period rot c)"
  obtain x where x: "rotate_loop hmac mc ?ps ?rot1 = (x, Ok ())"
    and rot': "rot' = x\<lparr>latest_key_id := period_id rot c\<rparr>"
    using assms(1) unfolding rotate_past_epoch [OF rotate_OkD [OF assms(1)]] c_def [symmetric] Let_def
    by (auto split: result.splits prod.splits if_splits)
  from rotate_loop_Ok [OF x] show "latest_key_id rot' = period_id rot c"
    and "\<forall>p\<in>window rot c. \<exists>v. fetched mc rot p = Ok (Some v)"
    and "cache rot' = (cache rot)(removed_id rot c := None) ++
           map_of (rev (map (\<lambda>p. (period_id rot p, period_tag hmac mc rot p)) ?ps))"
    by (simp_all add: rot' set_range_inclusive window_def del: fun_upd_apply)
qed

text \<open>Within a window that does not wrap around, every period has its own key identifier.\<close>

lemma period_id_inj:
  assumes "period_id rot p = period_id rot q" and "duration rot \<noteq> 0"
    and "unat p \<le> unat q" and "unat q * unat (duration rot) < 2 ^ 64"
    and "(unat q - unat p) * unat (duration rot) < 2 ^ 32"
  shows "p = q"
proof -
  let ?d = "unat (duration rot)"
  have d: "0 < ?d" using assms(2) by (simp add: unat_gt_0)
  have pq: "unat p * ?d \<le> unat q * ?d" using assms(3) by simp
  have "unat p * ?d < 2 ^ 64" using pq assms(4) by linarith
  then have "unat (p * duration rot) = unat p * ?d" "unat (q * duration rot) = unat q * ?d"
    using assms(4) by (simp_all add: unat_word_ariths)
  with assms(1) have "unat p * ?d mod 2 ^ 32 = unat q * ?d mod 2 ^ 32"
    by (simp add: period_id_def from_epoch_eq_iff)
  then have "(unat q * ?d - unat p * ?d) mod 2 ^ 32 = 0"
    using pq by (metis mod_eq_dvd_iff_nat mod_0_imp_dvd dvd_imp_mod_0)
  then have "(unat q - unat p) * ?d = 0"
    using assms(5) by (simp add: diff_mult_distrib)
  with d assms(3) show ?thesis by (simp add: word_unat_eq_iff)
qed


definition window_fits :: "key_rotator \<Rightarrow> u64 \<Rightarrow> bool" where
  "window_fits rot c \<longleftrightarrow> duration rot \<noteq> 0 \<and>
     (unat c + unat (number_of_forward_periods rot)) * unat (duration rot) < 2 ^ 64 \<and>
     (unat (number_of_forward_periods rot) + unat (number_of_backward_periods rot) + 2) *
       unat (duration rot) < 2 ^ 32"

text \<open>The periods from two before the window of \<open>c\<close> to its end.\<close>

definition near_window :: "key_rotator \<Rightarrow> u64 \<Rightarrow> u64 set" where
  "near_window rot c = {p. unat c \<le> unat p + unat (number_of_backward_periods rot) + 2 \<and>
                           unat p \<le> unat c + unat (number_of_forward_periods rot)}"

lemma near_window_inj:
  assumes "window_fits rot c"
  shows "inj_on (period_id rot) (near_window rot c)"
proof -
  have ord: "p = q" if "period_id rot p = period_id rot q" "p \<in> near_window rot c"
    "q \<in> near_window rot c" "unat p \<le> unat q" for p q
  proof (rule period_id_inj [OF that(1) _ that(4)])
    let ?d = "unat (duration rot)"
    have "unat q \<le> unat c + unat (number_of_forward_periods rot)"
      and "unat q - unat p \<le> unat (number_of_forward_periods rot) + unat (number_of_backward_periods rot) + 2"
      using that by (simp_all add: near_window_def)
    from this [THEN mult_le_mono1, of ?d] assms
    show "unat q * ?d < 2 ^ 64" "(unat q - unat p) * ?d < 2 ^ 32" "duration rot \<noteq> 0"
      unfolding window_fits_def by linarith+
  qed
  show ?thesis
  proof (rule inj_onI)
    fix p q assume *: "p \<in> near_window rot c" "q \<in> near_window rot c" "period_id rot p = period_id rot q"
    show "p = q"
      using ord [of p q] ord [of q p] * nat_le_linear [of "unat p" "unat q"] by metis
  qed
qed

lemma removed_id_neq:
  assumes "window_fits rot c" and "p \<in> near_window rot c"
    and "unat p \<noteq> unat c - unat (number_of_backward_periods rot) - 1"
  shows "period_id rot p \<noteq> removed_id rot c"
proof
  let ?q = "saturating_sub (first_period rot c) 1"
  have q: "unat ?q = unat c - unat (number_of_backward_periods rot) - 1"
    by (simp add: first_period_def)
  then have "?q \<in> near_window rot c" by (auto simp: near_window_def)
  moreover assume "period_id rot p = removed_id rot c"
  ultimately have "p = ?q" using inj_onD [OF near_window_inj [OF assms(1)] _ assms(2)]
    by (simp add: removed_id_def)
  with q assms(3) show False by simp
qed

lemma window_subset_near: "window rot c \<subseteq> near_window rot c"
  using unat_saturating_add_bounds(2) [of c "number_of_forward_periods rot"]
  by (auto simp: window_def near_window_def first_period_def last_period_def)

lemma current_window: "c \<in> window rot c"
  using current_in_window [of c rot] by (simp add: window_def set_range_inclusive)

lemma map_of_rev_map:
  "inj_on f (set ps) \<Longrightarrow> p \<in> set ps \<Longrightarrow> map_of (rev (map (\<lambda>p. (f p, g p)) ps)) (f p) = Some (g p)"
proof (induction ps)
  case (Cons a ps)
  show ?case
  proof (cases "p \<in> set ps")
    case True
    with Cons show ?thesis by (simp add: map_add_def)
  next
    case False
    with Cons.prems have "p = a" "f p \<notin> f ` set ps" by (auto simp: inj_on_def)
    then have "map_of (rev (map (\<lambda>p. (f p, g p)) ps)) (f p) = None"
      by (auto simp: map_of_eq_None_iff image_iff)
    with \<open>p = a\<close> show ?thesis by (simp add: map_add_def)
  qed
qed simp

lemma dom_map_of_rev_map: "dom (map_of (rev (map (\<lambda>p. (f p, g p)) ps))) = f ` set ps"
  by (auto simp: dom_map_of_conv_image_fst image_iff)

lemma rotate_Ok_config:
  "rotate hmac mc now rot = (rot', Ok ()) \<Longrightarrow> same_config rot' rot"
  by (rule rotate_frame(1)) (auto dest: rotate_OkD)

lemma rotate_Ok_dom:
  assumes "rotate hmac mc now rot = (rot', Ok ())"
  shows "dom (cache rot') = (dom (cache rot) - {removed_id rot (period_at rot now)}) \<union>
           period_id rot ` window rot (period_at rot now)"
  unfolding rotate_Ok(3) [OF assms]
  by (auto simp: dom_map_of_rev_map set_range_inclusive window_def)

lemma rotate_Ok_lookup:
  assumes "rotate hmac mc now rot = (rot', Ok ())"
    and "window_fits rot (period_at rot now)" and "p \<in> window rot (period_at rot now)"
  obtains v where "fetched mc rot p = Ok (Some v)"
    and "kr_get rot' (period_id rot p) = Some (hmac (cookie_key_as_bytes (master_key rot)) v)"
proof -
  let ?c = "period_at rot now"
  obtain v where v: "fetched mc rot p = Ok (Some v)" using rotate_Ok(2) [OF assms(1)] assms(3) by blast
  have "inj_on (period_id rot) (window rot ?c)"
    by (rule inj_on_subset [OF near_window_inj [OF assms(2)] window_subset_near])
  then have "cache rot' (period_id rot p) = Some (period_tag hmac mc rot p)"
    using assms(3) map_of_rev_map [of "period_id rot" "range_inclusive (first_period rot ?c) (last_period rot ?c)" p
        "period_tag hmac mc rot"]
    unfolding rotate_Ok(3) [OF assms(1)] map_add_def by (simp add: set_range_inclusive window_def)
  with v show thesis by (intro that [of v]) (simp_all add: kr_get_def period_tag_def)
qed

lemma latest_key_value_Ok:
  "latest_key_id rot \<in> dom (cache rot) \<Longrightarrow>
     latest_key_value rot = Ok (latest_key_id rot, the (kr_get rot (latest_key_id rot)))"
  by (auto simp: latest_key_value_def kr_get_def result_simps)

lemma latest_key_value_Panic:
  "latest_key_id rot \<notin> dom (cache rot) \<Longrightarrow> panics (latest_key_value rot)"
  by (auto simp: latest_key_value_def kr_get_def result_simps dom_def)

lemma rotate_Ok_latest:
  assumes "rotate hmac mc now rot = (rot', Ok ())"
  shows "latest_key_id rot' \<in> dom (cache rot')"
  unfolding rotate_Ok_dom [OF assms] rotate_Ok(1) [OF assms]
  using current_window [of "period_at rot now" rot] by blast

lemma rotate_succeeds:
  assumes "0 \<le> now" and "duration rot \<noteq> 0" and "mc_connect mc (memcached_url rot) = Ok ()"
    and "\<forall>p\<in>window rot (period_at rot now). \<exists>v. fetched mc rot p = Ok (Some v)"
  shows "\<exists>rot'. rotate hmac mc now rot = (rot', Ok ())"
proof -
  have loop: "\<exists>r'. rotate_loop hmac mc ps r = (r', Ok ())"
    if "\<forall>p\<in>set ps. \<exists>v. fetched mc r p = Ok (Some v)" for ps r
    using that
  proof (induction ps arbitrary: r)
    case (Cons p ps)
    then obtain v where v: "fetched mc r p = Ok (Some v)" by auto
    have "\<exists>r'. rotate_loop hmac mc ps (cache_insert hmac (period_id r p) v r) = (r', Ok ())"
      by (rule Cons.IH) (use Cons.prems in simp)
    with v show ?case by (simp add: fetched_def period_id_def Let_def)
  qed simp
  let ?c = "period_at rot now"
  let ?ps = "range_inclusive (first_period rot ?c) (last_period rot ?c)"
  let ?rot1 = "rot\<lparr>rotation_counter := rotation_counter rot + 1,
                   cache := (cache rot)(removed_id rot ?c := None)\<rparr>"
  have "\<forall>p\<in>set ?ps. \<exists>v. fetched mc ?rot1 p = Ok (Some v)"
    using assms(4) by (simp add: set_range_inclusive window_def)
  from loop [OF this] obtain r' where "rotate_loop hmac mc ?ps ?rot1 = (r', Ok ())" by blast
  with assms(3) show ?thesis unfolding rotate_past_epoch [OF assms(1,2)] Let_def by simp
qed

lemma rotate_no_panic:
  assumes "0 \<le> now" and "duration rot \<noteq> 0"
    and "\<And>u. \<not> panics (mc_connect mc u)" and "\<And>k. \<not> panics (mc_get mc k)"
  shows "\<not> panics (snd (rotate hmac mc now rot))"
proof -
  let ?c = "period_at rot now"
  show ?thesis
    using assms(3) [of "memcached_url rot"] rotate_loop_no_panic [OF assms(4), where ?hmac = hmac]
    unfolding rotate_past_epoch [OF assms(1,2)] Let_def
    by (auto split: result.splits prod.splits) (metis panics.simps snd_conv)+
qed


text \<open>The cache holds the keys of one window of periods and nothing else.\<close>

definition cache_exact :: "key_rotator \<Rightarrow> u64 \<Rightarrow> bool" where
  "cache_exact rot c \<longleftrightarrow> dom (cache rot) = period_id rot ` window rot c"

lemma same_config_period: "same_config a b \<Longrightarrow> period_id a = period_id b"
  by (simp add: same_config_def period_id_def fun_eq_iff)

lemma same_config_window: "same_config a b \<Longrightarrow> window a = window b"
  by (simp add: same_config_def window_def first_period_def last_period_def fun_eq_iff)

lemma same_config_fits: "same_config a b \<Longrightarrow> window_fits a = window_fits b"
  by (simp add: same_config_def window_fits_def fun_eq_iff)

lemma same_config_trans: "same_config a b \<Longrightarrow> same_config b c \<Longrightarrow> same_config a c"
  by (simp add: same_config_def)

lemma unat_removed_period:
  "unat (saturating_sub (first_period rot c) 1) = unat c - unat (number_of_backward_periods rot) - 1"
  by (simp add: first_period_def)

lemma window_iff:
  "p \<in> window rot c \<longleftrightarrow> unat c \<le> unat p + unat (number_of_backward_periods rot) \<and>
     unat p \<le> unat c + unat (number_of_forward_periods rot)"
  using unat_width(3) [of p]
  by (auto simp: window_def first_period_def last_period_def unat_saturating_add)

lemma cache_exact_step:
  assumes "rotate hmac mc now rot = (rot', Ok ())" and "cache_exact rot c"
    and "unat (period_at rot now) = unat c + 1 \<or> period_at rot now = c"
    and "unat (number_of_backward_periods rot) \<le> unat c"
  shows "cache_exact rot' (period_at rot now)"
proof -
  let ?n = "period_at rot now"
  have sc: "same_config rot' rot" by (rule rotate_Ok_config [OF assms(1)])
  have "x \<in> period_id rot ` window rot ?n"
    if x: "x \<in> period_id rot ` window rot c" "x \<noteq> removed_id rot ?n" for x
  proof -
    obtain p where p: "x = period_id rot p" "p \<in> window rot c" using x by blast
    with x(2) have "unat p \<noteq> unat ?n - unat (number_of_backward_periods rot) - 1"
      by (metis removed_id_def unat_removed_period word_unat_eq_iff)
    with p(2) assms(3,4) have "p \<in> window rot ?n" by (auto simp: window_iff)
    with p(1) show ?thesis by blast
  qed
  then show ?thesis
    using assms(2) unfolding cache_exact_def rotate_Ok_dom [OF assms(1)]
      same_config_period [OF sc] same_config_window [OF sc]
    by blast
qed

lemma cache_exact_first:
  assumes "rotate hmac mc now rot = (rot', Ok ())" and "cache rot = Map.empty"
  shows "cache_exact rot' (period_at rot now)"
proof -
  have sc: "same_config rot' rot" by (rule rotate_Ok_config [OF assms(1)])
  show ?thesis
    unfolding cache_exact_def rotate_Ok_dom [OF assms(1)] same_config_period [OF sc] same_config_window [OF sc]
    by (simp add: assms(2))
qed

text \<open>A rotation that skips a period never evicts the key of the period it jumped over.\<close>

lemma skipped_period_stays:
  assumes "rotate hmac mc now rot = (rot', Ok ())" and "window_fits rot (period_at rot now)"
    and "unat (period_at rot now) = unat (number_of_backward_periods rot) + unat p + 2"
    and "period_id rot p \<in> dom (cache rot)"
  shows "p \<notin> window rot' (period_at rot now) \<and> period_id rot p \<in> dom (cache rot')"
proof -
  let ?n = "period_at rot now"
  have sc: "same_config rot' rot" by (rule rotate_Ok_config [OF assms(1)])
  have "period_id rot p \<noteq> removed_id rot ?n"
    by (rule removed_id_neq [OF assms(2)]) (use assms(3) in \<open>simp_all add: near_window_def\<close>)
  then show ?thesis
    using assms(3,4) unfolding rotate_Ok_dom [OF assms(1)] same_config_window [OF sc] window_iff by auto
qed

text \<open>An outage of as many periods as the window looks back takes the latest key away.\<close>

lemma outage_removes_latest:
  assumes "0 \<le> now" and "duration rot \<noteq> 0" and "mc_connect mc (memcached_url rot) = Err e"
    and "latest_key_id rot = period_id rot lp"
    and "unat (period_at rot now) = unat lp + unat (number_of_backward_periods rot) + 1"
  shows "snd (rotate hmac mc now rot) = Err (MemcacheError e) \<and>
    panics (latest_key_value (fst (rotate hmac mc now rot)))"
proof -
  have "unat (saturating_sub (first_period rot (period_at rot now)) 1) = unat lp"
    unfolding unat_removed_period using assms(5) by simp
  then have "removed_id rot (period_at rot now) = latest_key_id rot"
    by (simp only: removed_id_def assms(4) word_unat_eq_iff [symmetric])
  then show ?thesis
    unfolding rotate_past_epoch [OF assms(1,2)] Let_def assms(3)
    by (simp add: latest_key_value_Panic)
qed

text \<open>
  The life of a rotator: rounds of the background thread, successful or not, no more than
  \<^verbatim>\<open>number_of_backward_periods\<close> after the last success. The state carries the period of that
  success.
\<close>

inductive kr_step ::
  "(bytes \<Rightarrow> bytes \<Rightarrow> bytes) \<Rightarrow> key_rotator \<times> u64 \<Rightarrow> key_rotator \<times> u64 \<Rightarrow> bool" for hmac where
  kr_round: "rotate hmac mc now rot = (rot', r) \<Longrightarrow> 0 \<le> now \<Longrightarrow>
    c = period_at rot now \<Longrightarrow> window_fits rot c \<Longrightarrow>
    unat (number_of_backward_periods rot) < unat c \<Longrightarrow>
    unat lp \<le> unat c \<Longrightarrow> unat c \<le> unat lp + unat (number_of_backward_periods rot) \<Longrightarrow>
    kr_step hmac (rot, lp) (rot', if r = Ok () then c else lp)"

definition kr_init :: "(bytes \<Rightarrow> bytes \<Rightarrow> bytes) \<Rightarrow> key_rotator \<times> u64 \<Rightarrow> bool" where
  "kr_init hmac s \<longleftrightarrow> (\<exists>mc now rot. rotate hmac mc now rot = (fst s, Ok ()) \<and> snd s = period_at rot now)"

definition kr_inv :: "key_rotator \<times> u64 \<Rightarrow> bool" where
  "kr_inv s \<longleftrightarrow> latest_key_id (fst s) = period_id (fst s) (snd s) \<and>
     latest_key_id (fst s) \<in> dom (cache (fst s))"

lemma kr_inv_step:
  assumes "kr_step hmac s s'" and "kr_inv s"
  shows "kr_inv s'"
  using assms
proof (cases rule: kr_step.cases)
  case (kr_round mc now rot rot' r c lp)
  then have d: "duration rot \<noteq> 0" by (simp add: window_fits_def)
  note frame = rotate_frame [OF kr_round(3,4) d]
  show ?thesis
  proof (cases "r = Ok ()")
    case True
    with kr_round(3) have ok: "rotate hmac mc now rot = (rot', Ok ())" by simp
    from rotate_Ok_latest [OF ok] rotate_Ok(1) [OF ok] show ?thesis
      using True kr_round by (simp add: kr_inv_def same_config_period [OF frame(1)])
  next
    case False
    have inv: "latest_key_id rot = period_id rot lp" "latest_key_id rot \<in> dom (cache rot)"
      using assms(2) unfolding kr_round(1) kr_inv_def fst_conv snd_conv by auto
    have "latest_key_id rot \<noteq> removed_id rot c"
      unfolding inv(1)
      by (rule removed_id_neq [OF kr_round(6)]) (use kr_round in \<open>auto simp: near_window_def\<close>)
    then show ?thesis
      using inv frame(2,4) False kr_round(2,5)
      by (auto simp: kr_inv_def same_config_period [OF frame(1)])
  qed
qed

interpretation rotor: transition_system "kr_init hmac" "kr_step hmac" kr_inv for hmac
proof
  fix s assume "kr_init hmac s"
  then obtain mc now rot where ok: "rotate hmac mc now rot = (fst s, Ok ())" and "snd s = period_at rot now"
    by (auto simp: kr_init_def)
  with rotate_Ok_latest [OF ok] rotate_Ok(1) [OF ok]
  show "kr_inv s" by (simp add: kr_inv_def same_config_period [OF rotate_Ok_config [OF ok]])
qed (rule kr_inv_step)

text \<open>Starting up: five attempts, of which one has to meet a synchronised memcached.\<close>

definition synchronised :: "memcache \<times> systime \<Rightarrow> key_rotator \<Rightarrow> bool" where
  "synchronised e rot \<longleftrightarrow> mc_connect (fst e) (memcached_url rot) = Ok () \<and>
     (\<forall>p\<in>window rot (period_at rot (snd e)). \<exists>v. fetched (fst e) rot p = Ok (Some v))"

lemma synchronised_config: "same_config a b \<Longrightarrow> synchronised e a = synchronised e b"
  by (simp add: synchronised_def same_config_def window_def first_period_def
      last_period_def fetched_def period_at_def current_period_def)

lemma rotate_Ok_both:
  "rotate hmac mc now rot = (rot', Ok ()) \<Longrightarrow>
     latest_key_id rot' \<in> dom (cache rot') \<and> same_config rot' rot"
  by (intro conjI rotate_Ok_latest rotate_Ok_config)

lemma rotate_ErrD:
  "rotate hmac mc now rot = (rot', Err e) \<Longrightarrow> 0 \<le> now \<and> duration rot \<noteq> 0"
  by (auto simp: rotate_def duration_since_def UNIX_EPOCH_def Let_def split: if_splits)

lemma rotate_Err_config: "rotate hmac mc now rot = (rot', Err e) \<Longrightarrow> same_config rot' rot"
  by (rule rotate_frame(1)) (auto dest: rotate_ErrD)

lemma connect_loop_round:
  fixes env t
  defines "e \<equiv> env (maximum_try - t)"
  shows "rotate hmac (fst e) (snd e) rot = (rot', Ok ()) \<Longrightarrow> connect_loop hmac env t rot = Ok rot'"
    and "rotate hmac (fst e) (snd e) rot = (rot', Panic p) \<Longrightarrow> connect_loop hmac env t rot = Panic p"
    and "rotate hmac (fst e) (snd e) rot = (rot', Err x) \<Longrightarrow>
           connect_loop hmac env t rot = (case t of 0 \<Rightarrow> Err x | Suc t' \<Rightarrow> connect_loop hmac env t' rot')"
  by (simp_all add: e_def connect_loop.simps)

lemma connect_loop_Ok:
  "connect_loop hmac env t rot = Ok rot' \<Longrightarrow>
     latest_key_id rot' \<in> dom (cache rot') \<and> same_config rot' rot"
proof (induction t arbitrary: rot)
  case (0 rot)
  obtain r x where r: "rotate hmac (fst (env (maximum_try - 0))) (snd (env (maximum_try - 0))) rot = (r, x)"
    by fastforce
  show ?case
  proof (cases x)
    case (Ok u)
    with r have ok: "rotate hmac (fst (env (maximum_try - 0))) (snd (env (maximum_try - 0))) rot = (r, Ok ())"
      by simp
    show ?thesis using rotate_Ok_both [OF ok] connect_loop_round(1) [of hmac env 0 rot r, OF ok] 0 by simp
  qed (use r 0 connect_loop_round(2,3) [of hmac env 0 rot r] in simp_all)
next
  case (Suc t rot)
  obtain r x where r: "rotate hmac (fst (env (maximum_try - Suc t))) (snd (env (maximum_try - Suc t))) rot = (r, x)"
    by fastforce
  show ?case
  proof (cases x)
    case (Ok u)
    with r have ok: "rotate hmac (fst (env (maximum_try - Suc t))) (snd (env (maximum_try - Suc t))) rot = (r, Ok ())"
      by simp
    show ?thesis using rotate_Ok_both [OF ok] connect_loop_round(1) [of hmac env "Suc t" rot r, OF ok] Suc.prems by simp
  next
    case (Err e)
    with r have err: "rotate hmac (fst (env (maximum_try - Suc t))) (snd (env (maximum_try - Suc t))) rot = (r, Err e)"
      by simp
    have "connect_loop hmac env t r = Ok rot'" using connect_loop_round(3) [of hmac env "Suc t" rot r e, OF err] Suc.prems by simp
    from Suc.IH [OF this] same_config_trans [OF _ rotate_Err_config [OF err]] show ?thesis by simp
  qed (use r Suc.prems connect_loop_round(2) [of hmac env "Suc t" rot r] in simp_all)
qed

lemma connect_loop_succeeds:
  assumes "duration rot \<noteq> 0"
    and live: "\<And>n. n \<in> {1..maximum_try} \<Longrightarrow> 0 \<le> snd (env n) \<and>
           (\<forall>u. \<not> panics (mc_connect (fst (env n)) u)) \<and> (\<forall>k. \<not> panics (mc_get (fst (env n)) k))"
    and "t < maximum_try" and "n \<in> {1..maximum_try}" and "maximum_try \<le> n + t" and "synchronised (env n) rot"
  shows "\<exists>rot'. connect_loop hmac env t rot = Ok rot'"
  using assms(1,3-6)
proof (induction t arbitrary: rot)
  case (0 rot)
  then have "n = maximum_try" by simp
  with 0 live [OF 0(3)] have "\<exists>rot'. rotate hmac (fst (env (maximum_try - 0))) (snd (env (maximum_try - 0))) rot = (rot', Ok ())"
    by (intro rotate_succeeds) (auto simp: synchronised_def)
  then show ?case using connect_loop_round(1) [of hmac env 0 rot] by blast
next
  case (Suc t rot)
  let ?e = "env (maximum_try - Suc t)"
  obtain r x where r: "rotate hmac (fst ?e) (snd ?e) rot = (r, x)" by fastforce
  show ?case
  proof (cases x)
    case (Ok u)
    then show ?thesis using connect_loop_round(1) [of hmac env "Suc t" rot r] r by simp
  next
    case (Panic p)
    have "\<not> panics (snd (rotate hmac (fst ?e) (snd ?e) rot))"
      using Suc.prems(1,2) live [of "maximum_try - Suc t"] by (intro rotate_no_panic) simp_all
    with r Panic show ?thesis by simp
  next
    case (Err e)
    have "maximum_try \<le> n + t"
    proof (rule ccontr)
      assume "\<not> ?thesis"
      then have n: "maximum_try - Suc t = n" using Suc.prems by simp
      have "\<exists>rot'. rotate hmac (fst ?e) (snd ?e) rot = (rot', Ok ())"
        unfolding n using Suc.prems(1,5) live [OF Suc.prems(3)]
        by (intro rotate_succeeds) (simp_all add: synchronised_def)
      with r Err show False by simp
    qed
    moreover from r have sc: "same_config r rot" unfolding Err by (rule rotate_Err_config)
    ultimately have "\<exists>rot'. connect_loop hmac env t r = Ok rot'"
      using Suc.prems synchronised_config [OF sc] sc by (intro Suc.IH) (simp_all add: same_config_def)
    then show ?thesis using connect_loop_round(3) [of hmac env "Suc t" rot r e] r Err by simp
  qed
qed

section \<open>Properties\<close>

definition sample_memcache :: memcache where
  "sample_memcache = \<lparr>mc_connect = (\<lambda>_. Ok ()), mc_get = (\<lambda>k. Ok (Some (map (of_nat \<circ> of_char) k)))\<rparr>"

definition sample_rotator :: key_rotator where
  "sample_rotator = initial_rotator ''/nts/nts-keys'' ''memcache://127.0.0.1:11211'' (CookieKey (replicate 32 7))"

definition sample_hmac :: "bytes \<Rightarrow> bytes \<Rightarrow> bytes" where
  "sample_hmac k m = take 32 (k @ m)"

text \<open>2020-09-13T12:26:40Z, in the period 444444.\<close>

definition sample_now :: systime where "sample_now = 1600000000000000000"

lemma sample_period: "period_at sample_rotator sample_now = 444444"
  by (simp add: period_at_def current_period_def sample_now_def sample_rotator_def initial_rotator_def
      as_secs_def NANOS_PER_SEC_def)

lemma sample_fits: "window_fits sample_rotator 444444"
  by (simp add: window_fits_def sample_rotator_def initial_rotator_def)

lemma sample_rotates: "\<exists>rot'. rotate sample_hmac sample_memcache sample_now sample_rotator = (rot', Ok ())"
  by (rule rotate_succeeds)
    (simp_all add: sample_now_def sample_rotator_def initial_rotator_def sample_memcache_def fetched_def)

text \<open>
  C18: A rotation that returns Ok leaves the rotator synchronised. The latest key is that of the
  current period, it is present, and for every period of the window the cache maps the key id to
  the HMAC, under the master key, of the value memcached holds for that period.
\<close>

theorem rotate_synchronises:
  assumes "rotate hmac mc now rot = (rot', Ok ())"
    and "window_fits rot (period_at rot now)"
  shows "(\<exists>v. fetched mc rot (period_at rot now) = Ok (Some v) \<and>
            latest_key_value rot' = Ok (period_id rot (period_at rot now),
              hmac (cookie_key_as_bytes (master_key rot)) v)) \<and>
    (\<forall>p\<in>window rot (period_at rot now). \<exists>v. fetched mc rot p = Ok (Some v) \<and>
       kr_get rot' (period_id rot p) = Some (hmac (cookie_key_as_bytes (master_key rot)) v))"
proof
  let ?c = "period_at rot now"
  obtain v where v: "fetched mc rot ?c = Ok (Some v)"
    "kr_get rot' (period_id rot ?c) = Some (hmac (cookie_key_as_bytes (master_key rot)) v)"
    by (rule rotate_Ok_lookup [OF assms current_window])
  then show "\<exists>v. fetched mc rot ?c = Ok (Some v) \<and>
      latest_key_value rot' = Ok (period_id rot ?c, hmac (cookie_key_as_bytes (master_key rot)) v)"
    by (simp add: latest_key_value_def rotate_Ok(1) [OF assms(1)] result_simps)
qed (use rotate_Ok_lookup [OF assms] in blast)

theorem rotate_synchronises_witness:
  "\<exists>rot' v. rotate sample_hmac sample_memcache sample_now sample_rotator = (rot', Ok ()) \<and>
     latest_key_value rot' = Ok (period_id sample_rotator 444444, sample_hmac (replicate 32 7) v)"
proof -
  obtain rot' where r: "rotate sample_hmac sample_memcache sample_now sample_rotator = (rot', Ok ())"
    using sample_rotates by blast
  have "cookie_key_as_bytes (master_key sample_rotator) = replicate 32 7"
    by (simp add: sample_rotator_def initial_rotator_def)
  with rotate_synchronises [OF r] sample_fits r show ?thesis
    by (auto simp: sample_period)
qed

text \<open>
  C20: In normal operation, where the periods of successive rotations are equal or consecutive,
  the cache holds exactly the keys of the window: no key is missing and none has outlived it.
\<close>

theorem rotate_keeps_window_exact:
  assumes "rotate hmac mc now rot = (rot', Ok ())" and "cache_exact rot c"
    and "unat (period_at rot now) = unat c + 1 \<or> period_at rot now = c"
    and "unat (number_of_backward_periods rot) \<le> unat c"
  shows "cache_exact rot' (period_at rot now)"
  by (rule cache_exact_step [OF assms])

theorem rotate_keeps_window_exact_witness:
  "\<exists>rot rot'. rotate sample_hmac sample_memcache sample_now rot = (rot', Ok ()) \<and>
     cache_exact rot 444444 \<and> cache_exact rot' 444444"
proof -
  obtain rot where r: "rotate sample_hmac sample_memcache sample_now sample_rotator = (rot, Ok ())"
    using sample_rotates by blast
  have e: "cache_exact rot 444444"
    using cache_exact_first [OF r] by (simp add: sample_period) (simp add: sample_rotator_def initial_rotator_def)
  have sc: "same_config rot sample_rotator" by (rule rotate_Ok_config [OF r])
  then have c: "memcached_url rot = memcached_url sample_rotator" "duration rot = 3600"
     "number_of_backward_periods rot = 24"
    by (simp_all add: same_config_def sample_rotator_def initial_rotator_def)
  obtain rot' where r': "rotate sample_hmac sample_memcache sample_now rot = (rot', Ok ())"
    using rotate_succeeds [of sample_now rot sample_memcache sample_hmac] c
    by (auto simp: sample_memcache_def sample_now_def fetched_def)
  have "period_at rot sample_now = 444444"
    using sample_period c(2) by (simp add: period_at_def current_period_def sample_rotator_def initial_rotator_def)
  with rotate_keeps_window_exact [OF r' e] r' e c show ?thesis by auto
qed

text \<open>
  When two successive rotations are two periods apart, the oldest key of the cache is outside
  the new window but stays in the cache: \<^verbatim>\<open>rotate\<close> removes only the period right before the
  window, and no later rotation comes back to this one.
\<close>

lemma rotate_skipping_keeps_stale_key:
  assumes "rotate hmac mc now rot = (rot', Ok ())" and "window_fits rot (period_at rot now)"
    and "unat (period_at rot now) = unat (number_of_backward_periods rot) + unat p + 2"
    and "period_id rot p \<in> dom (cache rot)"
  shows "p \<notin> window rot' (period_at rot now) \<and> kr_get rot' (period_id rot p) \<noteq> None"
  using skipped_period_stays [OF assms] by (auto simp: kr_get_def)

lemma rotate_skipping_keeps_stale_key_witness:
  "\<exists>rot rot'. rotate sample_hmac sample_memcache (sample_now + 7200000000000) rot = (rot', Ok ()) \<and>
     cache_exact rot 444444 \<and> 444420 \<notin> window rot' 444446 \<and> kr_get rot' (period_id rot 444420) \<noteq> None"
proof -
  obtain rot where r: "rotate sample_hmac sample_memcache sample_now sample_rotator = (rot, Ok ())"
    using sample_rotates by blast
  have e: "cache_exact rot 444444"
    using cache_exact_first [OF r] by (simp add: sample_period) (simp add: sample_rotator_def initial_rotator_def)
  have sc: "same_config rot sample_rotator" by (rule rotate_Ok_config [OF r])
  then have c: "memcached_url rot = memcached_url sample_rotator" "duration rot = 3600"
     "number_of_backward_periods rot = 24" "number_of_forward_periods rot = 2"
    by (simp_all add: same_config_def sample_rotator_def initial_rotator_def)
  obtain rot' where r': "rotate sample_hmac sample_memcache (sample_now + 7200000000000) rot = (rot', Ok ())"
    using rotate_succeeds [of "sample_now + 7200000000000" rot sample_memcache sample_hmac] c
    by (auto simp: sample_memcache_def sample_now_def fetched_def)
  have p: "period_at rot (sample_now + 7200000000000) = 444446"
    by (simp add: period_at_def current_period_def c(2) as_secs_def NANOS_PER_SEC_def sample_now_def)
  have "(444420 :: u64) \<in> window rot 444444" by (simp add: window_iff c)
  then have "period_id rot 444420 \<in> dom (cache rot)" using e by (simp add: cache_exact_def)
  moreover have "window_fits rot 444446" by (simp add: window_fits_def c)
  ultimately show ?thesis
    using rotate_skipping_keeps_stale_key [OF r', of 444420] r' e c p by auto
qed

text \<open>
  C19: As long as some rotation succeeded within the last \<^verbatim>\<open>number_of_backward_periods\<close> periods,
  whatever the outcome of the rotations since, the latest key is in the cache and the
  \<^verbatim>\<open>unwrap\<close> of \<^verbatim>\<open>latest_key_value\<close> does not panic.
\<close>

theorem latest_key_available:
  assumes "reachable (kr_init hmac) (kr_step hmac) s"
  shows "\<exists>tag. latest_key_value (fst s) = Ok (period_id (fst s) (snd s), tag)"
  using rotor.inv_reachable [OF assms]
  by (auto simp: kr_inv_def latest_key_value_def kr_get_def result_simps)

theorem latest_key_available_witness:
  "\<exists>s tag. reachable (kr_init sample_hmac) (kr_step sample_hmac) s \<and>
     latest_key_value (fst s) = Ok (period_id (fst s) (snd s), tag)"
proof -
  obtain rot where r: "rotate sample_hmac sample_memcache sample_now sample_rotator = (rot, Ok ())"
    using sample_rotates by blast
  then have "kr_init sample_hmac (rot, 444444)"
    unfolding kr_init_def using sample_period by auto
  then have "reachable (kr_init sample_hmac) (kr_step sample_hmac) (rot, 444444)" by (rule reachable.intros)
  with latest_key_available [OF this] show ?thesis by blast
qed

text \<open>
  C39: The comment on \<^verbatim>\<open>latest_key_value\<close> says that its unwrap can never panic. It can: a
  rotation removes the period before the window before it contacts memcached, so when memcached
  is unreachable \<^verbatim>\<open>number_of_backward_periods + 1\<close> periods after the last success, the
  rotation fails with the latest key removed, and the next cookie request panics.
\<close>

theorem long_outage_panics:
  assumes "0 \<le> now" and "duration rot \<noteq> 0" and "mc_connect mc (memcached_url rot) = Err e"
    and "latest_key_id rot = period_id rot lp"
    and "unat (period_at rot now) = unat lp + unat (number_of_backward_periods rot) + 1"
  shows "snd (rotate hmac mc now rot) = Err (MemcacheError e) \<and>
    panics (latest_key_value (fst (rotate hmac mc now rot)))"
  by (rule outage_removes_latest [OF assms])

theorem long_outage_panics_witness:
  "\<exists>rot. latest_key_value rot = Ok (period_id rot 444444, [1]) \<and>
     panics (latest_key_value (fst (rotate sample_hmac
       \<lparr>mc_connect = (\<lambda>_. Err ''unreachable''), mc_get = (\<lambda>_. Err ''unreachable'')\<rparr>
       (sample_now + 25 * 3600000000000) rot)))"
proof -
  let ?k = "period_id sample_rotator 444444"
  let ?rot = "sample_rotator\<lparr>latest_key_id := ?k, cache := [?k \<mapsto> [1]]\<rparr>"
  let ?mc = "\<lparr>mc_connect = (\<lambda>_. Err ''unreachable''), mc_get = (\<lambda>_. Err ''unreachable'')\<rparr>"
  have "panics (latest_key_value (fst (rotate sample_hmac ?mc (sample_now + 25 * 3600000000000) ?rot)))"
    by (rule conjunct2 [OF long_outage_panics [where e = "''unreachable''" and lp = 444444]])
      (simp_all add: sample_now_def sample_rotator_def initial_rotator_def period_id_def period_at_def
        current_period_def as_secs_def NANOS_PER_SEC_def)
  moreover have "latest_key_value ?rot = Ok (period_id ?rot 444444, [1])"
    by (simp add: latest_key_value_def kr_get_def period_id_def result_simps)
  ultimately show ?thesis by blast
qed

text \<open>
  C21: \<^verbatim>\<open>KeyRotator::connect\<close> returns a rotator that has its latest key whenever one of its five
  attempts finds memcached reachable and holding the keys of the window, provided no attempt
  runs before the UNIX epoch.
\<close>

theorem kr_connect_succeeds:
  assumes "\<forall>n\<in>{1..maximum_try}. 0 \<le> snd (env n) \<and>
      (\<forall>u. \<not> panics (mc_connect (fst (env n)) u)) \<and> (\<forall>k. \<not> panics (mc_get (fst (env n)) k))"
    and "n \<in> {1..maximum_try}" and "synchronised (env n) (initial_rotator pre url mkey)"
  shows "\<exists>rot tag. kr_connect hmac env pre url mkey = Ok rot \<and>
    latest_key_value rot = Ok (latest_key_id rot, tag) \<and>
    same_config rot (initial_rotator pre url mkey)"
proof -
  have "\<exists>rot. kr_connect hmac env pre url mkey = Ok rot"
    unfolding kr_connect_def
    by (rule connect_loop_succeeds [of _ _ _ n])
      (use assms in \<open>auto simp: maximum_try_def initial_rotator_def\<close>)
  then obtain rot where "kr_connect hmac env pre url mkey = Ok rot" ..
  with connect_loop_Ok [of hmac env _ "initial_rotator pre url mkey" rot] latest_key_value_Ok [of rot]
  show ?thesis by (auto simp: kr_connect_def)
qed

theorem kr_connect_succeeds_witness:
  "\<exists>rot tag. kr_connect sample_hmac (\<lambda>_. (sample_memcache, sample_now)) ''/nts'' ''memcache://h''
       (CookieKey []) = Ok rot \<and> latest_key_value rot = Ok (latest_key_id rot, tag)"
  using kr_connect_succeeds [of "\<lambda>_. (sample_memcache, sample_now)" 1 "''/nts''" "''memcache://h''"
      "CookieKey []" sample_hmac]
  by (auto simp: sample_memcache_def sample_now_def maximum_try_def synchronised_def fetched_def)

end
