(* ===== verification/Measure.thy ===== *)
theory Measure
  imports Prelude
begin

text \<open>
  The measurement plumbing of this fork. \<^verbatim>\<open>src/src/main.rs\<close> creates one unbounded channel per
  kind of measurement, puts its sender into a static \<^verbatim>\<open>OnceCell\<close> and spawns a thread that
  appends every received string to a file. The servers read \<^verbatim>\<open>tests/experiment.yaml\<close> while they
  handle a request (\<^verbatim>\<open>src/src/ntp/server/server.rs\<close>, \<^verbatim>\<open>src/src/nts_ke/server/connection.rs\<close>):
  the parsed file is a parameter, \<open>None\<close> when the \<^verbatim>\<open>config\<close> crate cannot build it.
\<close>

text \<open>A sender in a \<^verbatim>\<open>OnceCell\<close>: whether it is set, whether the receiver is alive, what was sent.\<close>

record channel =
  chan_set :: bool
  chan_open :: bool
  chan_sent :: "string list"

definition empty_cell :: channel where
  "empty_cell = \<lparr>chan_set = False, chan_open = False, chan_sent = []\<rparr>"

definition fill_cell :: "channel \<Rightarrow> (channel, 'e) result" where
  "fill_cell ch =
     (if chan_set ch then Panic ''unable to fill once cell.''
      else Ok \<lparr>chan_set = True, chan_open = True, chan_sent = []\<rparr>)"

text \<open>\<^verbatim>\<open>CELL.get().clone().unwrap().send(s).expect(..)\<close>.\<close>

definition chan_send :: "string \<Rightarrow> channel \<Rightarrow> (channel, 'e) result" where
  "chan_send s ch =
     (if \<not> chan_set ch then Panic ''called `Option::unwrap()` on a `None` value''
      else if \<not> chan_open ch then Panic ''unable to write to channel.''
      else Ok (ch\<lparr>chan_sent := chan_sent ch @ [s]\<rparr>))"

text \<open>
  The thread at the other end: it opens its file and then writes one line per value; its receiver
  is dropped when it panics.
\<close>

definition writer_open :: "bool \<Rightarrow> channel \<Rightarrow> channel" where
  "writer_open file_opens ch = (if file_opens then ch else ch\<lparr>chan_open := False\<rparr>)"

fun writer_loop :: "bool list \<Rightarrow> string list \<Rightarrow> string" where
  "writer_loop (ok # oks) (value # values) =
     (if ok then value @ [CHR 0x0A] @ writer_loop oks values else [])"
| "writer_loop _ _ = []"

type_synonym experiment_config = "(string \<Rightarrow> string option) option"

definition meas_client_ip :: "string \<Rightarrow> experiment_config \<Rightarrow> (string, 'e) result" where
  "meas_client_ip msg cfg =
     (case cfg of
        None \<Rightarrow> Panic msg
      | Some get_string \<Rightarrow>
          (case get_string ''meas_client_ip'' of
             None \<Rightarrow> Panic ''called `Result::unwrap()` on an `Err` value''
           | Some ip \<Rightarrow> Ok ip))"

text \<open>One measurement: written only for the measurement client.\<close>

definition write_measurement :: "string \<Rightarrow> string \<Rightarrow> nat \<Rightarrow> channel \<Rightarrow> (channel, 'e) result" where
  "write_measurement client_addr ip elapsed ch =
     (if str_contains client_addr ip then chan_send (show_nat elapsed) ch else Ok ch)"

lemma write_measurement_no_panic:
  "chan_set ch \<Longrightarrow> chan_open ch \<Longrightarrow>
     \<exists>ch'. write_measurement a ip n ch = Ok ch' \<and> chan_set ch' \<and> chan_open ch'"
  by (simp add: write_measurement_def chan_send_def)


text \<open>The address is looked for as a substring, so other addresses are measured as well.\<close>

lemma measures_other_clients:
  assumes "chan_set ch" and "chan_open ch"
  shows "write_measurement ''132.177.116.190:4460'' ''132.177.116.19'' n ch =
    Ok (ch\<lparr>chan_sent := chan_sent ch @ [show_nat n]\<rparr>)"
proof -
  have "str_contains ''132.177.116.190:4460'' ''132.177.116.19''"
    unfolding str_contains_iff by (rule exI [of _ "[]"], rule exI [of _ "''0:4460''"]) simp
  then show ?thesis using assms by (simp add: write_measurement_def chan_send_def)
qed

end
