(* ===== verification/Ke_Connection.thy ===== *)
theory Ke_Connection
  imports Ke_Records Key_Rotator Measure
begin

text \<open>
  \<^verbatim>\<open>src/src/nts_ke/server/connection.rs\<close>: one TLS connection of the NTS-KE server. The handlers
  work on the connection and on the process-wide state; the TLS session and its TCP stream are a
  state of any type with the operations \<open>tls_ops\<close>, and the clock readings, the nonces, the
  experiment file and the answers of the poll are arguments. The lemmas at the end describe the
  record loop: it never panics, and consuming an input in pieces is consuming it at once.
\<close>


section \<open>TLS\<close>

text \<open>
  The operations of \<^verbatim>\<open>rustls::ServerSession\<close> and of the TCP stream below it, on a state of any
  type: what they do is a parameter of the model.
\<close>

record 's tls_ops =
  read_tls :: "'s \<Rightarrow> 's \<times> (nat, io_error) result"
  process_new_packets :: "'s \<Rightarrow> 's \<times> (unit, tls_error) result"
  read_to_end :: "'s \<Rightarrow> 's \<times> (bytes, io_error) result"
  write_all :: "bytes \<Rightarrow> 's \<Rightarrow> 's \<times> (unit, io_error) result"
  write_tls :: "'s \<Rightarrow> 's \<times> (nat, io_error) result"
  export_keying_material :: "'s \<Rightarrow> bytes \<Rightarrow> bytes option \<Rightarrow> (bytes, tls_error) result"
  wants_read :: "'s \<Rightarrow> bool"
  wants_write :: "'s \<Rightarrow> bool"
  tcp_shutdown :: "'s \<Rightarrow> 's \<times> (unit, io_error) result"

section \<open>The response\<close>

text \<open>The process-wide state a connection touches, and what one event meets besides it.\<close>

record ke_world =
  ke_client_addr :: string
  server_ke_s :: channel

record ke_env =
  ke_experiment_cfg :: experiment_config
  ke_elapsed :: nat
  ke_cookie_nonce :: "nat \<Rightarrow> bytes"

fun cookie_records ::
  "aead \<Rightarrow> ke_env \<Rightarrow> nts_keys \<Rightarrow> bytes \<Rightarrow> key_id \<Rightarrow> nat list \<Rightarrow> (bytes, 'e) result" where
  "cookie_records A env keys actual_key key_id [] = Ok []"
| "cookie_records A env keys actual_key key_id (i # is) =
     bind_r (serialize new_cookie_trait
               (NewCookieRecord (make_cookie A (ke_cookie_nonce env i) keys actual_key key_id))) (\<lambda>r.
     bind_r (cookie_records A env keys actual_key key_id is) (\<lambda>rs. Ok (r @ rs)))"

definition ke_response ::
  "aead \<Rightarrow> ke_env \<Rightarrow> nts_keys \<Rightarrow> key_rotator rwlock \<Rightarrow> u16 \<Rightarrow> ke_world \<Rightarrow>
     ke_world \<times> (bytes, 'e) result" where
  "ke_response A env keys rotator port w =
     (case bind_r (serialize next_protocol_trait (NextProtocolRecord [Ntpv4])) (\<lambda>next_protocol_record.
           bind_r (serialize aead_algorithm_trait (AeadAlgorithmRecord [AeadAesSivCmac256])) (\<lambda>aead_record.
           bind_r (rw_read rotator) (\<lambda>rotor.
           bind_r (latest_key_value rotor) (\<lambda>(key_id, actual_key).
           bind_r (cookie_records A env keys actual_key key_id [0..<8]) (\<lambda>cookie_recs.
           bind_r (serialize port_trait (port_record_new Party_Server port)) (\<lambda>port_record.
           bind_r (serialize end_of_message_trait EndOfMessageRecord) (\<lambda>end_record.
           bind_r (meas_client_ip ''Unable to build ntp server config.'' (ke_experiment_cfg env)) (\<lambda>ip.
           bind_r (write_measurement (ke_client_addr w) ip (ke_elapsed env) (server_ke_s w)) (\<lambda>ch.
           Ok (next_protocol_record @ aead_record @ cookie_recs @ port_record @ end_record, ch)))))))))) of
        Ok (resp, ch) \<Rightarrow> (w\<lparr>server_ke_s := ch\<rparr>, Ok resp)
      | Err e \<Rightarrow> (w, Err e)
      | Panic p \<Rightarrow> (w, Panic p))"

section \<open>The connection\<close>

datatype ke_server_conn_state = Connected | TlsHandshaking | Opened | ResponseSent | Closed

record 's ke_server_conn =
  tls_session :: 's
  token :: usize
  conn_state :: ke_server_conn_state
  ntske_state :: received_nts_ke_record_state
  ntske_buffer :: bytes

definition empty_record_state :: received_nts_ke_record_state where
  "empty_record_state =
     \<lparr>finished = False, next_protocols = [], aead_scheme = [], cookies = [], next_server = None,
      next_port = None\<rparr>"

text \<open>\<^verbatim>\<open>KeServerConn::new\<close>; \<open>peer\<close> is the outcome of \<^verbatim>\<open>peer_addr\<close>, \<open>session\<close> the new TLS session.\<close>

definition ke_server_conn_new ::
  "(string, io_error) result \<Rightarrow> 's \<Rightarrow> usize \<Rightarrow> ke_world \<Rightarrow> ke_world \<times> ('s ke_server_conn, 'e) result" where
  "ke_server_conn_new peer session tok w =
     (case peer of
        Ok a \<Rightarrow>
          (w\<lparr>ke_client_addr := a\<rparr>,
           Ok \<lparr>tls_session = session, token = tok, conn_state = Connected,
               ntske_state = empty_record_state, ntske_buffer = []\<rparr>)
      | Err e \<Rightarrow> (w, Panic ''called `Result::unwrap()` on an `Err` value'')
      | Panic p \<Rightarrow> (w, Panic p))"

definition shutdown ::
  "'s tls_ops \<Rightarrow> 's ke_server_conn \<Rightarrow> 's ke_server_conn \<times> (unit, 'e) result" where
  "shutdown ops c =
     (case tcp_shutdown ops (tls_session c) of
        (s, Ok _) \<Rightarrow> (c\<lparr>tls_session := s, conn_state := Closed\<rparr>, Ok ())
      | (s, Err e) \<Rightarrow> (c\<lparr>tls_session := s\<rparr>, Panic ''called `Result::unwrap()` on an `Err` value'')
      | (s, Panic p) \<Rightarrow> (c\<lparr>tls_session := s\<rparr>, Panic p))"

text \<open>
  The \<^verbatim>\<open>while\<close> loop of \<^verbatim>\<open>read_ready\<close> over the bytes not yet consumed: it ends because more bytes
  are needed, because the message is finished, or with a shutdown of the connection.
\<close>

datatype loop_exit = LoopMore bytes | LoopDone | LoopShutdown

function record_loop ::
  "bytes \<Rightarrow> received_nts_ke_record_state \<Rightarrow> received_nts_ke_record_state \<times> (loop_exit, 'e) result" where
  "record_loop reader st =
     (if finished st then (st, Ok LoopDone)
      else if length reader < KE_HEADER_SIZE then (st, Ok (LoopMore reader))
      else let body_len = unat (u16_from_be [reader ! 2, reader ! 3]) in
        if length reader < KE_HEADER_SIZE + body_len then (st, Ok (LoopMore reader))
        else
          let record_bytes = take (KE_HEADER_SIZE + body_len) reader;
              reader = drop (KE_HEADER_SIZE + body_len) reader
          in case deserialize Party_Server record_bytes of
               Ok record \<Rightarrow>
                 (case process_record record st of
                    (st', Ok _) \<Rightarrow> record_loop reader st'
                  | (st', Err _) \<Rightarrow> (st', Ok LoopShutdown)
                  | (st', Panic p) \<Rightarrow> (st', Panic p))
             | Err UnknownNotCriticalRecord \<Rightarrow> record_loop reader st
             | Err UnknownCriticalRecord \<Rightarrow> (st, Ok LoopShutdown)
             | Err (Parsing _) \<Rightarrow> (st, Ok LoopShutdown)
             | Panic p \<Rightarrow> (st, Panic p))"
  by pat_completeness auto
termination
  by (relation "measure (\<lambda>(r, _). length r)") (auto simp: KE_HEADER_SIZE_def)

declare record_loop.simps [simp del]

text \<open>
  The part of \<^verbatim>\<open>read_ready\<close> that handles new plaintext. The handshake is done when there is some.
\<close>

definition with_plaintext :: "bytes \<Rightarrow> 's ke_server_conn \<Rightarrow> 's ke_server_conn" where
  "with_plaintext buf c =
     (let c = c\<lparr>ntske_buffer := ntske_buffer c @ buf\<rparr> in
      if conn_state c = TlsHandshaking then c\<lparr>conn_state := Opened\<rparr> else c)"

definition with_world :: "ke_world \<Rightarrow> 'c \<times> ('a, 'e) result \<Rightarrow> ('c \<times> ke_world) \<times> ('a, 'e) result" where
  "with_world w cr = (case cr of (c, r) \<Rightarrow> ((c, w), r))"

text \<open>The response, unless it was sent before.\<close>

definition send_response ::
  "'s tls_ops \<Rightarrow> aead \<Rightarrow> key_rotator rwlock \<Rightarrow> u16 \<Rightarrow> ke_env \<Rightarrow> nts_keys \<Rightarrow> 's ke_server_conn \<times> ke_world \<Rightarrow>
     ('s ke_server_conn \<times> ke_world) \<times> (unit, 'e) result" where
  "send_response ops A rotator port env keys cw =
     (let (c, w) = cw in
      if conn_state c = Opened then
        (case ke_response A env keys rotator port w of
           (w', Ok resp) \<Rightarrow>
             (case write_all ops resp (tls_session c) of
                (s, Ok _) \<Rightarrow> ((c\<lparr>tls_session := s, conn_state := ResponseSent\<rparr>, w'), Ok ())
              | (s, Err e) \<Rightarrow> ((c\<lparr>tls_session := s\<rparr>, w'), Panic ''called `Result::unwrap()` on an `Err` value'')
              | (s, Panic p) \<Rightarrow> ((c\<lparr>tls_session := s\<rparr>, w'), Panic p))
         | (w', Err e) \<Rightarrow> ((c, w'), Err e)
         | (w', Panic p) \<Rightarrow> ((c, w'), Panic p))
      else ((c, w), Ok ()))"

definition after_loop ::
  "'s tls_ops \<Rightarrow> aead \<Rightarrow> key_rotator rwlock \<Rightarrow> u16 \<Rightarrow> ke_env \<Rightarrow> nts_keys \<Rightarrow>
     received_nts_ke_record_state \<times> (loop_exit, 'e) result \<Rightarrow> 's ke_server_conn \<times> ke_world \<Rightarrow>
     ('s ke_server_conn \<times> ke_world) \<times> (unit, 'e) result" where
  "after_loop ops A rotator port env keys lr cw =
     (let (c, w) = cw; (st, r) = lr; c = c\<lparr>ntske_state := st\<rparr> in
      case r of
        Ok (LoopMore reader) \<Rightarrow> ((c\<lparr>ntske_buffer := reader\<rparr>, w), Ok ())
      | Ok LoopShutdown \<Rightarrow> with_world w (shutdown ops c)
      | Ok LoopDone \<Rightarrow> send_response ops A rotator port env keys (c, w)
      | Err e \<Rightarrow> ((c, w), Err e)
      | Panic p \<Rightarrow> ((c, w), Panic p))"

definition read_plaintext ::
  "'s tls_ops \<Rightarrow> aead \<Rightarrow> key_rotator rwlock \<Rightarrow> u16 \<Rightarrow> ke_env \<Rightarrow> bytes \<Rightarrow> 's ke_server_conn \<times> ke_world \<Rightarrow>
     ('s ke_server_conn \<times> ke_world) \<times> (unit, 'e) result" where
  "read_plaintext ops A rotator port env buf cw =
     (let (c, w) = cw; c = with_plaintext buf c in
      case gen_key (export_keying_material ops (tls_session c)) of
        Err e \<Rightarrow> ((c, w), Panic ''called `Result::unwrap()` on an `Err` value'')
      | Panic p \<Rightarrow> ((c, w), Panic p)
      | Ok keys \<Rightarrow>
          after_loop ops A rotator port env keys (record_loop (ntske_buffer c) (ntske_state c)) (c, w))"

text \<open>The plaintext that is there after the TLS messages were processed.\<close>

definition read_decrypted ::
  "'s tls_ops \<Rightarrow> aead \<Rightarrow> key_rotator rwlock \<Rightarrow> u16 \<Rightarrow> ke_env \<Rightarrow> 's ke_server_conn \<times> ke_world \<Rightarrow>
     ('s ke_server_conn \<times> ke_world) \<times> (unit, 'e) result" where
  "read_decrypted ops A rotator port env cw =
     (let (c, w) = cw in
      case read_to_end ops (tls_session c) of
        (s, Panic p) \<Rightarrow> ((c\<lparr>tls_session := s\<rparr>, w), Panic p)
      | (s, Err e) \<Rightarrow> with_world w (shutdown ops (c\<lparr>tls_session := s\<rparr>))
      | (s, Ok buf) \<Rightarrow>
          if buf \<noteq> [] then read_plaintext ops A rotator port env buf (c\<lparr>tls_session := s\<rparr>, w)
          else ((c\<lparr>tls_session := s\<rparr>, w), Ok ()))"

definition start_handshake :: "'s ke_server_conn \<Rightarrow> 's ke_server_conn" where
  "start_handshake c = (if conn_state c = Connected then c\<lparr>conn_state := TlsHandshaking\<rparr> else c)"

text \<open>A failure to process the TLS messages shuts the connection down but does not return.\<close>

definition process_packets ::
  "'s tls_ops \<Rightarrow> 's ke_server_conn \<Rightarrow> 's ke_server_conn \<times> (unit, 'e) result" where
  "process_packets ops c =
     (case process_new_packets ops (tls_session c) of
        (s, Ok _) \<Rightarrow> (c\<lparr>tls_session := s\<rparr>, Ok ())
      | (s, Err e) \<Rightarrow> shutdown ops (c\<lparr>tls_session := s\<rparr>)
      | (s, Panic p) \<Rightarrow> (c\<lparr>tls_session := s\<rparr>, Panic p))"

definition read_ready ::
  "'s tls_ops \<Rightarrow> aead \<Rightarrow> key_rotator rwlock \<Rightarrow> u16 \<Rightarrow> ke_env \<Rightarrow> 's ke_server_conn \<times> ke_world \<Rightarrow>
     ('s ke_server_conn \<times> ke_world) \<times> (unit, 'e) result" where
  "read_ready ops A rotator port env cw =
     (let (c, w) = cw; c = start_handshake c in
      case read_tls ops (tls_session c) of
        (s, Panic p) \<Rightarrow> ((c\<lparr>tls_session := s\<rparr>, w), Panic p)
      | (s, Err e) \<Rightarrow>
          if io_kind e = WouldBlock then ((c\<lparr>tls_session := s\<rparr>, w), Ok ())
          else with_world w (shutdown ops (c\<lparr>tls_session := s\<rparr>))
      | (s, Ok read_count) \<Rightarrow>
          if read_count = 0 then with_world w (shutdown ops (c\<lparr>tls_session := s\<rparr>))
          else bind_s (with_world w (process_packets ops (c\<lparr>tls_session := s\<rparr>))) (\<lambda>_ cw.
               read_decrypted ops A rotator port env cw))"

definition write_ready ::
  "'s tls_ops \<Rightarrow> 's ke_server_conn \<Rightarrow> 's ke_server_conn \<times> (unit, 'e) result" where
  "write_ready ops c =
     (case write_tls ops (tls_session c) of
        (s, Ok _) \<Rightarrow> (c\<lparr>tls_session := s\<rparr>, Ok ())
      | (s, Err e) \<Rightarrow> shutdown ops (c\<lparr>tls_session := s\<rparr>)
      | (s, Panic p) \<Rightarrow> (c\<lparr>tls_session := s\<rparr>, Panic p))"

text \<open>What the connection waits for: readable, writable.\<close>

definition interest :: "'s tls_ops \<Rightarrow> 's ke_server_conn \<Rightarrow> bool \<times> bool" where
  "interest ops c = (wants_read ops (tls_session c), wants_write ops (tls_session c))"

text \<open>Registration with the poll, whose answer to a token and an interest is a parameter.\<close>

type_synonym poll_answer = "usize \<Rightarrow> bool \<times> bool \<Rightarrow> (unit, io_error) result"

definition register :: "'s tls_ops \<Rightarrow> poll_answer \<Rightarrow> 's ke_server_conn \<Rightarrow> (unit, io_error) result" where
  "register ops poll c = poll (token c) (interest ops c)"

definition reregister :: "'s tls_ops \<Rightarrow> poll_answer \<Rightarrow> 's ke_server_conn \<Rightarrow> (unit, io_error) result" where
  "reregister ops poll c = poll (token c) (interest ops c)"

text \<open>An event: readable, writable.\<close>

definition ready ::
  "'s tls_ops \<Rightarrow> aead \<Rightarrow> key_rotator rwlock \<Rightarrow> u16 \<Rightarrow> poll_answer \<Rightarrow> ke_env \<Rightarrow> bool \<times> bool \<Rightarrow>
     's ke_server_conn \<times> ke_world \<Rightarrow> ('s ke_server_conn \<times> ke_world) \<times> (unit, 'e) result" where
  "ready ops A rotator port poll env event cw =
     bind_s (if fst event then read_ready ops A rotator port env cw else (cw, Ok ())) (\<lambda>_ (c, w).
     bind_s (with_world w (if snd event then write_ready ops c else (c, Ok ()))) (\<lambda>_ (c, w).
     if conn_state c \<noteq> Closed
     then ((c, w), unwrap_r ''called `Result::unwrap()` on an `Err` value'' (reregister ops poll c))
     else ((c, w), Ok ())))"

section \<open>The record loop\<close>

lemma with_world_eq [result_simps]: "with_world w cr = ((c, w'), r) \<longleftrightarrow> cr = (c, r) \<and> w' = w"
  by (cases cr) (auto simp: with_world_def)

lemma frame_header:
  assumes "4 \<le> length r"
  shows "u16_from_be [r ! 2, r ! 3] = u16_from_be (take 2 (drop 2 r))"
proof -
  obtain a b x y t where "r = a # b # x # y # t" using four_bytes [OF assms] by blast
  then show ?thesis by simp
qed

text \<open>The loop in terms of the first complete record.\<close>

lemma record_loop_stop: "finished st \<Longrightarrow> record_loop r st = (st, Ok LoopDone)"
  by (simp add: record_loop.simps)

lemma record_loop_more:
  "\<not> finished st \<Longrightarrow> \<not> complete_record r \<Longrightarrow> record_loop r st = (st, Ok (LoopMore r))"
  by (auto simp: record_loop.simps [of r st] complete_record_def body_length_def frame_header
      KE_HEADER_SIZE_def Let_def)

definition first_record :: "bytes \<Rightarrow> bytes" where
  "first_record r = take (4 + body_length r) r"

definition after_record :: "bytes \<Rightarrow> bytes" where
  "after_record r = drop (4 + body_length r) r"

lemma record_loop_step:
  assumes "\<not> finished st" and "complete_record r"
  shows "record_loop r st =
    (case deserialize Party_Server (first_record r) of
       Ok record \<Rightarrow>
         (case process_record record st of
            (st', Ok _) \<Rightarrow> record_loop (after_record r) st'
          | (st', Err _) \<Rightarrow> (st', Ok LoopShutdown)
          | (st', Panic p) \<Rightarrow> (st', Panic p))
     | Err UnknownNotCriticalRecord \<Rightarrow> record_loop (after_record r) st
     | Err UnknownCriticalRecord \<Rightarrow> (st, Ok LoopShutdown)
     | Err (Parsing _) \<Rightarrow> (st, Ok LoopShutdown)
     | Panic p \<Rightarrow> (st, Panic p))"
proof -
  have l: "4 \<le> length r" "4 + body_length r \<le> length r" using assms(2) by (auto simp: complete_record_def)
  have b: "unat (u16_from_be [r ! 2, r ! 3]) = body_length r"
    using frame_header [OF l(1)] by (simp add: body_length_def)
  show ?thesis
    unfolding first_record_def after_record_def
    using assms(1) l by (subst record_loop.simps) (simp add: b KE_HEADER_SIZE_def Let_def)
qed

lemma complete_append:
  assumes "complete_record r"
  shows "complete_record (r @ x)" and "first_record (r @ x) = first_record r"
    and "after_record (r @ x) = after_record r @ x"
proof -
  have l: "4 \<le> length r" "4 + body_length r \<le> length r" using assms by (auto simp: complete_record_def)
  have b: "body_length (r @ x) = body_length r" using l(1) by (simp add: body_length_def)
  show "complete_record (r @ x)" "first_record (r @ x) = first_record r"
    "after_record (r @ x) = after_record r @ x"
    using l by (simp_all add: complete_record_def first_record_def after_record_def b)
qed

lemma body_length_first: "body_length (first_record r) = body_length r"
proof -
  have "take 2 (drop 2 (take (4 + n) r)) = take 2 (drop 2 r)" for n :: nat
    by (simp add: drop_take numeral_2_eq_2)
  then show ?thesis by (simp add: body_length_def first_record_def)
qed

lemma complete_first: "complete_record r \<Longrightarrow> complete_record (first_record r)"
  unfolding complete_record_def body_length_first by (auto simp: first_record_def)

lemma length_after_record: "complete_record r \<Longrightarrow> length (after_record r) < length r"
  by (auto simp: complete_record_def after_record_def)

lemma process_record_no_panic: "\<not> panics (snd (process_record rec st))"
  by (simp add: process_record_def split: ke_record.split)


lemma record_loop_induct [consumes 0, case_names stop more step]:
  assumes stop: "\<And>r st. finished st \<Longrightarrow> P r st"
    and more: "\<And>r st. \<not> finished st \<Longrightarrow> \<not> complete_record r \<Longrightarrow> P r st"
    and step: "\<And>r st. \<not> finished st \<Longrightarrow> complete_record r \<Longrightarrow> (\<And>st'. P (after_record r) st') \<Longrightarrow> P r st"
  shows "P r st"
proof (induction r arbitrary: st rule: length_induct)
  case (1 r)
  then show ?case
    using length_after_record by (cases "finished st"; cases "complete_record r") (auto intro: assms)
qed

lemma record_loop_no_panic: "\<exists>st' e. record_loop r st = (st', Ok e)"
proof (induction r st rule: record_loop_induct)
  case (step r st)
  have d: "deserialize Party_Server (first_record r) \<noteq> Panic p" for p
    using deserialize_panics_iff [of Party_Server "first_record r"] complete_first [OF step(2)] by auto
  have p: "snd (process_record rec st) \<noteq> Panic m" for rec m
    using process_record_no_panic [of rec st] by auto
  show ?case
    unfolding record_loop_step [OF step(1,2)]
    using d p step(3)
    by (auto split: result.split prod.split deserialize_error.split) (metis snd_conv)+
qed (simp_all add: record_loop_stop record_loop_more)

text \<open>Consuming a longer input: first what is there, then the rest.\<close>

lemma record_loop_append:
  "record_loop (r @ x) st =
     (case record_loop r st of
        (st', Ok (LoopMore left)) \<Rightarrow> record_loop (left @ x) st'
      | other \<Rightarrow> other)"
proof (induction r st rule: record_loop_induct)
  case (step r st)
  note c = complete_append [OF step(2), of x]
  show ?case
    unfolding record_loop_step [OF step(1,2)] record_loop_step [OF step(1) c(1)] c(2,3)
    by (simp add: step(3) split: result.split prod.split deserialize_error.split)
qed (simp_all add: record_loop_stop record_loop_more)

lemma record_loop_exit:
  "record_loop r st = (st', Ok e) \<Longrightarrow>
     (case e of LoopMore left \<Rightarrow> \<not> finished st' \<and> \<not> complete_record left
      | LoopDone \<Rightarrow> finished st' | LoopShutdown \<Rightarrow> \<not> finished st')"
proof (induction r st rule: record_loop_induct)
  case (step r st)
  have "process_record rec st = (st1, Err m) \<Longrightarrow> \<not> finished st1" for rec st1 m
    using step(1) by (auto simp: process_record_def split: ke_record.splits)
  with step show ?case
    by (auto simp: record_loop_step [OF step(1,2)] split: result.splits prod.splits deserialize_error.splits)
qed (auto simp: record_loop_stop record_loop_more)

end
