(* ===== verification/Ke_Connection_Props.thy ===== *)
theory Ke_Connection_Props
  imports Ke_Connection
begin

text \<open>
  What the NTS-KE connection guarantees: the response it sends and what the records of a message
  do to the received state, the invariant of its states, independence of how TLS cuts the stream
  into pieces, and that no peer can make it panic. The witnesses run on a scripted TLS session.
\<close>

section \<open>The response in closed form\<close>

definition ke_bytes :: "ke_record \<Rightarrow> bytes" where
  "ke_bytes k = (case (serialize_ke k :: (bytes, unit) result) of Ok w \<Rightarrow> w | _ \<Rightarrow> [])"

lemma serialize_ke_bytes:
  assumes "wf_ke k"
  shows "serialize_ke k = Ok (ke_bytes k)"
proof -
  have "\<exists>w. (serialize_ke k :: (bytes, unit) result) = Ok w \<and> (serialize_ke k :: (bytes, 'a) result) = Ok w"
    using assms by (cases k) (auto simp: serialize_wf_simps)
  then show ?thesis by (auto simp: ke_bytes_def)
qed

lemma deserialize_ke_bytes: "wf_ke k \<Longrightarrow> deserialize s (ke_bytes k @ tail) = Ok (resend_ke s k)"
  using deserialize_serialize_ke [OF _ serialize_ke_bytes [where 'a = unit]] by blast

definition request_records :: "ke_record list" where
  "request_records =
     [KeNextProtocol (NextProtocolRecord [Ntpv4]), KeAeadAlgorithm (AeadAlgorithmRecord [AeadAesSivCmac256]),
      KeEndOfMessage EndOfMessageRecord]"

definition response_records :: "aead \<Rightarrow> ke_env \<Rightarrow> nts_keys \<Rightarrow> key_rotator \<Rightarrow> u16 \<Rightarrow> ke_record list" where
  "response_records A env keys rot port =
     [KeNextProtocol (NextProtocolRecord [Ntpv4]), KeAeadAlgorithm (AeadAlgorithmRecord [AeadAesSivCmac256])] @
     map (\<lambda>i. KeNewCookie (NewCookieRecord (make_cookie A (ke_cookie_nonce env i) keys
            (the (kr_get rot (latest_key_id rot))) (latest_key_id rot)))) [0..<8] @
     [KePort (port_record_new Party_Server port), KeEndOfMessage EndOfMessageRecord]"

definition ke_nonces_ok :: "ke_env \<Rightarrow> bool" where
  "ke_nonces_ok env \<longleftrightarrow> (\<forall>i. length (ke_cookie_nonce env i) = 16)"

lemma wf_request_records: "list_all wf_ke request_records"
  by (simp add: request_records_def wf_next_protocol_def wf_aead_algorithm_def)

lemma wf_response_records:
  assumes "aead_expands A" and "wf_keys keys" and "ke_nonces_ok env"
  shows "list_all wf_ke (response_records A env keys rot port)"
  using length_make_cookie [OF assms(1,2)] assms(3)
  by (auto simp: response_records_def list_all_iff wf_next_protocol_def wf_aead_algorithm_def wf_new_cookie_def
      ke_nonces_ok_def COOKIE_SIZE_def)

lemma cookie_records_Ok:
  assumes "aead_expands A" and "wf_keys keys" and "ke_nonces_ok env"
  shows "cookie_records A env keys key kid is =
    Ok (concat (map (\<lambda>i. ke_bytes (KeNewCookie (NewCookieRecord (make_cookie A (ke_cookie_nonce env i) keys key kid)))) is))"
proof (induction "is")
  case (Cons i "is")
  have "wf_ke (KeNewCookie (NewCookieRecord (make_cookie A (ke_cookie_nonce env i) keys key kid)))"
    using length_make_cookie [OF assms(1,2)] assms(3) by (simp add: wf_new_cookie_def ke_nonces_ok_def COOKIE_SIZE_def)
  from serialize_ke_bytes [OF this, where 'a = 'a] Cons show ?case by simp
qed simp

definition ke_measuring :: "ke_env \<Rightarrow> ke_world \<Rightarrow> bool" where
  "ke_measuring env w \<longleftrightarrow>
     (\<exists>get ip. ke_experiment_cfg env = Some get \<and> get ''meas_client_ip'' = Some ip) \<and>
     chan_set (server_ke_s w) \<and> chan_open (server_ke_s w)"

definition rotator_up :: "key_rotator rwlock \<Rightarrow> bool" where
  "rotator_up l \<longleftrightarrow> \<not> lock_poisoned l \<and> latest_key_id (lock_val l) \<in> dom (cache (lock_val l))"

lemma ke_response_Ok:
  assumes "aead_expands A" and "wf_keys keys" and "ke_nonces_ok env"
    and "rotator_up rotator" and "ke_measuring env w"
  obtains w' where "ke_response A env keys rotator port w =
      (w', Ok (concat (map ke_bytes (response_records A env keys (lock_val rotator) port))) :: (bytes, 'e) result)"
    and "chan_set (server_ke_s w')" and "chan_open (server_ke_s w')"
proof -
  obtain get ip where ip: "ke_experiment_cfg env = Some get" "get ''meas_client_ip'' = Some ip"
    using assms(5) by (auto simp: ke_measuring_def)
  obtain ch where ch: "write_measurement (ke_client_addr w) ip (ke_elapsed env) (server_ke_s w) =
      (Ok ch :: (channel, 'e) result)" "chan_set ch" "chan_open ch"
    using write_measurement_no_panic [of "server_ke_s w"] assms(5) unfolding ke_measuring_def by metis
  let ?rot = "lock_val rotator"
  have lk: "(latest_key_value ?rot :: (key_id \<times> bytes, 'e) result) =
      Ok (latest_key_id ?rot, the (kr_get ?rot (latest_key_id ?rot)))"
    using assms(4) by (simp add: rotator_up_def latest_key_value_Ok)
  have rr: "(rw_read rotator :: (key_rotator, 'e) result) = Ok ?rot"
    using assms(4) by (simp add: rotator_up_def rw_read_def)
  have "wf_ke (KeNextProtocol (NextProtocolRecord [Ntpv4]))" "wf_ke (KeAeadAlgorithm (AeadAlgorithmRecord [AeadAesSivCmac256]))"
    "wf_ke (KePort (port_record_new Party_Server port))" "wf_ke (KeEndOfMessage EndOfMessageRecord)"
    by (simp_all add: wf_next_protocol_def wf_aead_algorithm_def)
  from this [THEN serialize_ke_bytes [where 'a = 'e]]
  have "ke_response A env keys rotator port w =
      (w\<lparr>server_ke_s := ch\<rparr>, Ok (concat (map ke_bytes (response_records A env keys ?rot port))) :: (bytes, 'e) result)"
    by (simp add: ke_response_def rr lk cookie_records_Ok [OF assms(1-3)] meas_client_ip_def ip ch
        response_records_def o_def del: upt_Suc)
  from that [OF this] ch show thesis by simp
qed

section \<open>Running records through the loop\<close>

fun process_all :: "ke_record list \<Rightarrow> received_nts_ke_record_state \<Rightarrow> received_nts_ke_record_state option" where
  "process_all [] st = Some st"
| "process_all (k # ks) st =
     (case process_record k st of (st', Ok _) \<Rightarrow> process_all ks st' | _ \<Rightarrow> None)"

lemma ke_bytes_frame:
  assumes "wf_ke k"
  shows "complete_record (ke_bytes k @ tail)" and "first_record (ke_bytes k @ tail) = ke_bytes k"
    and "after_record (ke_bytes k @ tail) = tail"
proof -
  have "\<exists>b (t :: u16). ke_bytes k = u16_to_be t @ u16_to_be (of_nat (length b)) @ b \<and> length b < 65536"
    using assms
    by (cases k)
      (auto simp: ke_bytes_def serialize_wf_simps eom_laws.len_fits next_protocol_laws.len_fits error_laws.len_fits
        warning_laws.len_fits aead_laws.len_fits cookie_laws.len_fits server_laws.len_fits port_laws.len_fits)
  then obtain b t where b: "ke_bytes k = u16_to_be t @ u16_to_be (of_nat (length b)) @ b" "length b < 65536" by blast
  have l: "body_length (ke_bytes k @ tail) = length b"
    using b by (simp add: body_length_def unat_of_nat_u16)
  show "complete_record (ke_bytes k @ tail)" "first_record (ke_bytes k @ tail) = ke_bytes k"
    "after_record (ke_bytes k @ tail) = tail"
    by (simp_all add: complete_record_def first_record_def after_record_def l) (simp_all add: b)
qed

lemma process_record_Ok_unfinished: "process_record k st = (st', Ok u) \<Longrightarrow> \<not> finished st"
  by (auto simp: process_record_def split: if_splits)

lemma record_loop_records:
  "list_all wf_ke ks \<Longrightarrow> process_all (map (resend_ke Party_Server) ks) st = Some st' \<Longrightarrow>
     (record_loop (concat (map ke_bytes ks) @ tail) st :: _ \<times> (loop_exit, 'e) result) = record_loop tail st'"
proof (induction ks arbitrary: st)
  case (Cons k ks)
  note f = ke_bytes_frame [of k]
  have wf: "wf_ke k" using Cons.prems(1) by simp
  obtain st1 u where p: "process_record (resend_ke Party_Server k) st = (st1, Ok u)"
    "process_all (map (resend_ke Party_Server) ks) st1 = Some st'"
    using Cons.prems(2) by (auto split: prod.splits result.splits)
  have nf: "\<not> finished st" using process_record_Ok_unfinished [OF p(1)] .
  have "deserialize Party_Server (ke_bytes k) = Ok (resend_ke Party_Server k)"
    using deserialize_ke_bytes [OF wf, of Party_Server "[]"] by simp
  then have "(record_loop (concat (map ke_bytes (k # ks)) @ tail) st :: _ \<times> (loop_exit, 'e) result) = record_loop (concat (map ke_bytes ks) @ tail) st1"
    using record_loop_step [OF nf f(1) [OF wf, of "concat (map ke_bytes ks) @ tail"]] f(2,3) [OF wf] p(1)
    by simp
  also have "\<dots> = record_loop tail st'" using Cons.IH [OF _ p(2)] Cons.prems(1) by simp
  finally show ?case .
qed simp

lemma process_request:
  "process_all (map (resend_ke s) request_records) empty_record_state =
     Some \<lparr>finished = True, next_protocols = [0], aead_scheme = [15], cookies = [], next_server = None,
           next_port = None\<rparr>"
  by (simp add: request_records_def empty_record_state_def process_record_def)

lemma process_all_append:
  "process_all (ks @ ls) st = (case process_all ks st of Some st' \<Rightarrow> process_all ls st' | None \<Rightarrow> None)"
  by (induction ks st rule: process_all.induct) (auto split: prod.split result.split)

lemma process_cookies:
  "\<not> finished st \<Longrightarrow>
   process_all (map (\<lambda>i. KeNewCookie (NewCookieRecord (f i))) is) st = Some (st\<lparr>cookies := cookies st @ map f is\<rparr>)"
  by (induction "is" arbitrary: st) (auto simp: process_record_def new_cookie_trait_def)

text \<open>What a client collects from the response.\<close>

lemma process_response:
  "process_all (map (resend_ke s) (response_records A env keys rot port)) empty_record_state =
     Some \<lparr>finished = True, next_protocols = [0], aead_scheme = [15],
           cookies = map (\<lambda>i. make_cookie A (ke_cookie_nonce env i) keys
             (the (kr_get rot (latest_key_id rot))) (latest_key_id rot)) [0..<8],
           next_server = None, next_port = Some port\<rparr>"
  unfolding response_records_def
  by (simp add: o_def process_all_append process_record_def process_cookies empty_record_state_def
      resend_port_def port_record_new_def del: upt_Suc)


section \<open>The states of a connection\<close>

definition conn_inv :: "'s ke_server_conn \<Rightarrow> bool" where
  "conn_inv c \<longleftrightarrow>
     (conn_state c \<in> {Connected, TlsHandshaking} \<longrightarrow>
        ntske_state c = empty_record_state \<and> ntske_buffer c = []) \<and>
     (conn_state c = Opened \<longrightarrow> \<not> finished (ntske_state c) \<and> \<not> complete_record (ntske_buffer c)) \<and>
     (conn_state c = ResponseSent \<longrightarrow> finished (ntske_state c))"

text \<open>What the TLS layer was given to send, as a function of its state.\<close>

definition tls_log :: "'s tls_ops \<Rightarrow> ('s \<Rightarrow> bytes) \<Rightarrow> bool" where
  "tls_log ops out \<longleftrightarrow>
     (\<forall>s. out (fst (read_tls ops s)) = out s \<and> out (fst (process_new_packets ops s)) = out s \<and>
          out (fst (read_to_end ops s)) = out s \<and> out (fst (write_tls ops s)) = out s \<and>
          out (fst (tcp_shutdown ops s)) = out s) \<and>
     (\<forall>b s s'. write_all ops b s = (s', Ok ()) \<longrightarrow> out s' = out s @ b)"

definition is_response :: "bytes \<Rightarrow> bool" where
  "is_response b \<longleftrightarrow> (\<exists>A env keys rotator port w w'.
     ke_response A env keys rotator port w = (w', Ok b :: (bytes, io_error) result))"

definition conn_out :: "('s \<Rightarrow> bytes) \<Rightarrow> 's ke_server_conn \<Rightarrow> bool" where
  "conn_out out c \<longleftrightarrow>
     (case conn_state c of
        Closed \<Rightarrow> out (tls_session c) = [] \<or> is_response (out (tls_session c))
      | ResponseSent \<Rightarrow> is_response (out (tls_session c))
      | _ \<Rightarrow> out (tls_session c) = [])"

definition conn_good :: "('s \<Rightarrow> bytes) \<Rightarrow> 's ke_server_conn \<Rightarrow> bool" where
  "conn_good out c \<longleftrightarrow> conn_inv c \<and> conn_out out c"

lemma tls_logD:
  assumes "tls_log ops out"
  shows "read_tls ops s = (s', r1) \<Longrightarrow> out s' = out s"
    and "process_new_packets ops s = (s', r2) \<Longrightarrow> out s' = out s"
    and "read_to_end ops s = (s', r3) \<Longrightarrow> out s' = out s"
    and "write_tls ops s = (s', r4) \<Longrightarrow> out s' = out s"
    and "tcp_shutdown ops s = (s', r5) \<Longrightarrow> out s' = out s"
    and "write_all ops b s = (s', Ok ()) \<Longrightarrow> out s' = out s @ b"
  using assms unfolding tls_log_def by (metis fst_conv)+

lemma conn_good_session:
  "out s = out (tls_session c) \<Longrightarrow> conn_good out (c\<lparr>tls_session := s\<rparr>) = conn_good out c"
  by (simp add: conn_good_def conn_inv_def conn_out_def cong: ke_server_conn_state.case_cong)

lemma shutdown_good:
  assumes "tls_log ops out" and "conn_good out c" and "shutdown ops c = (c', Ok u)"
  shows "conn_good out c' \<and> conn_state c' = Closed"
  using assms(2,3) tls_logD(5) [OF assms(1)]
  by (auto simp: shutdown_def conn_good_def conn_inv_def conn_out_def
      split: prod.splits result.splits ke_server_conn_state.splits)

lemma conn_out_open: "conn_out out c \<Longrightarrow> conn_state c = TlsHandshaking \<or> conn_state c = Opened \<Longrightarrow> out (tls_session c) = []"
  by (auto simp: conn_out_def)

lemma with_plaintext_simps [simp]:
  "tls_session (with_plaintext buf c) = tls_session c" "token (with_plaintext buf c) = token c"
  "ntske_buffer (with_plaintext buf c) = ntske_buffer c @ buf" "ntske_state (with_plaintext buf c) = ntske_state c"
  "conn_state (with_plaintext buf c) = (if conn_state c = TlsHandshaking then Opened else conn_state c)"
  by (simp_all add: with_plaintext_def Let_def)

lemma read_plaintext_after_loop:
  assumes "gen_key (export_keying_material ops (tls_session c)) = Ok keys"
  shows "read_plaintext ops A rotator port env buf (c, w) =
    after_loop ops A rotator port env keys (record_loop (ntske_buffer c @ buf) (ntske_state c)) (with_plaintext buf c, w)"
  using assms by (simp add: read_plaintext_def Let_def)

text \<open>The four ways plaintext is handled without a panic.\<close>

lemma read_plaintext_OkE:
  assumes "read_plaintext ops A rotator port env buf (c, w) = ((c', w'), Ok u :: (unit, 'e) result)"
  obtains
    (more) st reader where "(record_loop (ntske_buffer c @ buf) (ntske_state c) :: _ \<times> (loop_exit, 'e) result) = (st, Ok (LoopMore reader))"
      and "c' = (with_plaintext buf c)\<lparr>ntske_state := st, ntske_buffer := reader\<rparr>" and "w' = w"
  | (shut) st where "(record_loop (ntske_buffer c @ buf) (ntske_state c) :: _ \<times> (loop_exit, 'e) result) = (st, Ok LoopShutdown)"
      and "shutdown ops ((with_plaintext buf c)\<lparr>ntske_state := st\<rparr>) = (c', Ok u :: (unit, 'e) result)" and "w' = w"
  | (sent) keys st resp s where "gen_key (export_keying_material ops (tls_session c)) = Ok keys"
      and "(record_loop (ntske_buffer c @ buf) (ntske_state c) :: _ \<times> (loop_exit, 'e) result) = (st, Ok LoopDone)"
      and "conn_state c = TlsHandshaking \<or> conn_state c = Opened"
      and "ke_response A env keys rotator port w = (w', Ok resp :: (bytes, 'e) result)"
      and "write_all ops resp (tls_session c) = (s, Ok ())"
      and "c' = (with_plaintext buf c)\<lparr>ntske_state := st, tls_session := s, conn_state := ResponseSent\<rparr>"
  | (over) st where "(record_loop (ntske_buffer c @ buf) (ntske_state c) :: _ \<times> (loop_exit, 'e) result) = (st, Ok LoopDone)"
      and "conn_state c \<noteq> TlsHandshaking" and "conn_state c \<noteq> Opened"
      and "c' = (with_plaintext buf c)\<lparr>ntske_state := st\<rparr>" and "w' = w"
proof -
  obtain st e where l: "(record_loop (ntske_buffer c @ buf) (ntske_state c) :: _ \<times> (loop_exit, 'e) result) = (st, Ok e)"
    using record_loop_no_panic by blast
  obtain keys where k: "gen_key (export_keying_material ops (tls_session c)) = Ok keys"
    using assms by (cases "gen_key (export_keying_material ops (tls_session c))") (simp_all add: read_plaintext_def Let_def)
  note a = assms [unfolded read_plaintext_after_loop [OF k] l]
  show thesis
  proof (cases e)
    case (LoopMore reader)
    with a show ?thesis by (intro more [OF l [unfolded LoopMore]]) (simp_all add: after_loop_def)
  next
    case LoopShutdown
    with a show ?thesis by (intro shut [OF l [unfolded LoopShutdown]]) (simp_all add: after_loop_def with_world_eq)
  next
    case LoopDone
    note s = a [unfolded LoopDone after_loop_def, simplified]
    show ?thesis
    proof (cases "conn_state c = TlsHandshaking \<or> conn_state c = Opened")
      case True
      then have "conn_state (with_plaintext buf c) = Opened" by auto
      with s obtain resp t where "ke_response A env keys rotator port w = (w', Ok resp :: (bytes, 'e) result)"
        "write_all ops resp (tls_session c) = (t, Ok ())"
        "c' = (with_plaintext buf c)\<lparr>ntske_state := st, tls_session := t, conn_state := ResponseSent\<rparr>"
        by (auto simp: send_response_def split: prod.splits result.splits)
      from sent [OF k l [unfolded LoopDone] True this] show ?thesis .
    next
      case False
      with s show ?thesis
        by (intro over [OF l [unfolded LoopDone]]) (auto simp: send_response_def split: if_splits)
    qed
  qed
qed

lemma read_plaintext_good:
  fixes u :: unit
  assumes log: "tls_log ops out" and good: "conn_good out c" and st: "conn_state c \<noteq> Connected"
    and r: "read_plaintext ops A rotator port env buf (c, w) = ((c', w'), Ok u :: (unit, io_error) result)"
  shows "conn_good out c'"
  using r
proof (cases rule: read_plaintext_OkE)
  case (more s reader)
  note e = record_loop_exit [OF more(1)]
  have "finished (ntske_state c) \<Longrightarrow> False" using more(1) by (simp add: record_loop_stop)
  with good more(2) e st show ?thesis
    by (cases "conn_state c") (auto simp: conn_good_def conn_inv_def conn_out_def)
next
  case (shut s)
  note e = record_loop_exit [OF shut(1)]
  have "finished (ntske_state c) \<Longrightarrow> False" using shut(1) by (simp add: record_loop_stop)
  then have "conn_out out ((with_plaintext buf c)\<lparr>ntske_state := s\<rparr>)"
    using good st by (cases "conn_state c") (auto simp: conn_good_def conn_inv_def conn_out_def)
  with shut(2) tls_logD(5) [OF log] show ?thesis
    by (auto simp: shutdown_def conn_good_def conn_inv_def conn_out_def
        split: prod.splits result.splits ke_server_conn_state.splits)
next
  case (sent keys s resp t)
  have "out t = resp"
    using tls_logD(6) [OF log sent(5)] conn_out_open [of out c] good sent(3) by (simp add: conn_good_def)
  moreover have "is_response resp" unfolding is_response_def using sent(4) by blast
  ultimately show ?thesis
    using sent(6) record_loop_exit [OF sent(2)] by (simp add: conn_good_def conn_inv_def conn_out_def)
next
  case (over s)
  with good st record_loop_exit [OF over(1)] show ?thesis
    by (cases "conn_state c") (auto simp: conn_good_def conn_inv_def conn_out_def)
qed

lemma shutdown_keeps_good:
  fixes u :: unit
  shows "tls_log ops out \<Longrightarrow> conn_good out c \<Longrightarrow> shutdown ops c = (c', Ok u :: (unit, io_error) result) \<Longrightarrow> conn_good out c'"
  using shutdown_good by blast

lemma process_packets_good:
  fixes u :: unit
  assumes log: "tls_log ops out" and "conn_good out c"
    and "process_packets ops c = (c', Ok u :: (unit, io_error) result)"
  shows "conn_good out c'" and "conn_state c' = conn_state c \<or> conn_state c' = Closed"
proof -
  obtain s r where p: "process_new_packets ops (tls_session c) = (s, r)" by fastforce
  have g: "conn_good out (c\<lparr>tls_session := s\<rparr>)"
    using assms(2) conn_good_session [of out s c] tls_logD(2) [OF log p] by blast
  show "conn_good out c'"
    using assms(3) p g shutdown_keeps_good [OF log g] by (cases r) (auto simp: process_packets_def)
  show "conn_state c' = conn_state c \<or> conn_state c' = Closed"
    using assms(3) p shutdown_good [OF log g] by (cases r) (auto simp: process_packets_def)
qed

lemma read_decrypted_good:
  fixes u :: unit
  assumes log: "tls_log ops out" and "conn_good out c" and "conn_state c \<noteq> Connected"
    and "read_decrypted ops A rotator port env (c, w) = ((c', w'), Ok u :: (unit, io_error) result)"
  shows "conn_good out c'"
proof -
  obtain s r where p: "read_to_end ops (tls_session c) = (s, r)" by fastforce
  have g: "conn_good out (c\<lparr>tls_session := s\<rparr>)"
    using assms(2) conn_good_session [of out s c] tls_logD(3) [OF log p] by blast
  show ?thesis
    using assms(3,4) p g shutdown_keeps_good [OF log g] read_plaintext_good [OF log g]
    by (cases r) (auto simp: read_decrypted_def with_world_eq split: if_splits)
qed

lemma read_ready_good:
  fixes u :: unit
  assumes log: "tls_log ops out" and good: "conn_good out c"
    and r: "read_ready ops A rotator port env (c, w) = ((c', w'), Ok u :: (unit, io_error) result)"
  shows "conn_good out c'"
proof -
  let ?c = "start_handshake c"
  have g: "conn_good out ?c" and n: "conn_state ?c \<noteq> Connected"
    using good by (auto simp: conn_good_def conn_inv_def conn_out_def start_handshake_def)
  obtain s1 r1 where rd: "read_tls ops (tls_session ?c) = (s1, r1)" by fastforce
  let ?d = "?c\<lparr>tls_session := s1\<rparr>"
  have g1: "conn_good out ?d"
    using g conn_good_session [of out s1 ?c] tls_logD(1) [OF log rd] by blast
  show ?thesis
  proof (cases r1)
    case (Ok k)
    show ?thesis
    proof (cases "k = 0")
      case True
      with r rd Ok shutdown_keeps_good [OF log g1] show ?thesis by (auto simp: read_ready_def with_world_eq)
    next
      case False
      then obtain c1 v where p: "process_packets ops ?d = (c1, Ok v :: (unit, io_error) result)"
        and d: "read_decrypted ops A rotator port env (c1, w) = ((c', w'), Ok u :: (unit, io_error) result)"
        using r rd Ok by (auto simp: read_ready_def result_simps)
      from process_packets_good [OF log g1 p] n
      have "conn_good out c1" "conn_state c1 \<noteq> Connected" by auto
      from read_decrypted_good [OF log this d] show ?thesis .
    qed
  next
    case (Err e)
    with r rd g1 shutdown_keeps_good [OF log g1] show ?thesis
      by (auto simp: read_ready_def with_world_eq Let_def split: if_splits)
  qed (use r rd in \<open>simp add: read_ready_def\<close>)
qed

lemma write_ready_good:
  fixes u :: unit
  assumes log: "tls_log ops out" and "conn_good out c" and "write_ready ops c = (c', Ok u :: (unit, io_error) result)"
  shows "conn_good out c'"
proof -
  obtain s r where p: "write_tls ops (tls_session c) = (s, r)" by fastforce
  have g: "conn_good out (c\<lparr>tls_session := s\<rparr>)"
    using assms(2) conn_good_session [of out s c] tls_logD(4) [OF log p] by blast
  show ?thesis
    using assms(3) p g shutdown_keeps_good [OF log g] by (cases r) (auto simp: write_ready_def)
qed

lemma ready_OkE:
  fixes u :: unit
  assumes "ready ops A rotator port poll env ev (c, w) = ((c', w'), Ok u :: (unit, 'e) result)"
  obtains c1 where "if fst ev then read_ready ops A rotator port env (c, w) = ((c1, w'), Ok () :: (unit, 'e) result)
      else c1 = c \<and> w' = w"
    and "if snd ev then write_ready ops c1 = (c', Ok () :: (unit, 'e) result) else c' = c1"
    and "conn_state c' \<noteq> Closed \<Longrightarrow> reregister ops poll c' = Ok ()"
proof -
  obtain c1 w1 c2 where a: "(if fst ev then read_ready ops A rotator port env (c, w) else ((c, w), Ok ())) =
      ((c1, w1), Ok () :: (unit, 'e) result)"
    and b: "(if snd ev then write_ready ops c1 else (c1, Ok ())) = (c2, Ok () :: (unit, 'e) result)"
    and c: "(if conn_state c2 \<noteq> Closed
      then ((c2, w1), unwrap_r ''called `Result::unwrap()` on an `Err` value'' (reregister ops poll c2))
      else ((c2, w1), Ok ())) = ((c', w'), Ok u :: (unit, 'e) result)"
    using assms unfolding ready_def by (auto simp: bind_s_eq_Ok with_world_eq)
  have "c2 = c'" "w1 = w'" using c by (auto split: if_splits)
  with a b c show thesis by (intro that [of c1]) (auto simp: result_simps split: if_splits)
qed

lemma ready_good:
  fixes u :: unit
  assumes log: "tls_log ops out" and "conn_good out c"
    and "ready ops A rotator port poll env ev (c, w) = ((c', w'), Ok u :: (unit, io_error) result)"
  shows "conn_good out c'"
proof -
  obtain c1 where a: "if fst ev then read_ready ops A rotator port env (c, w) = ((c1, w'), Ok () :: (unit, io_error) result)
      else c1 = c \<and> w' = w"
    and b: "if snd ev then write_ready ops c1 = (c', Ok () :: (unit, io_error) result) else c' = c1"
    using assms(3) by (rule ready_OkE)
  have "conn_good out c1" using a assms(2) read_ready_good [OF log assms(2)] by (auto split: if_splits)
  with b show ?thesis using write_ready_good [OF log] by (auto split: if_splits)
qed


text \<open>The life of a connection: events while it is not closed, and the shutdown after its deadline.\<close>

definition conn_init :: "('s \<Rightarrow> bytes) \<Rightarrow> 's ke_server_conn \<Rightarrow> bool" where
  "conn_init out c \<longleftrightarrow> (\<exists>peer s tok w w'.
     ke_server_conn_new peer s tok w = (w', Ok c :: ('s ke_server_conn, io_error) result) \<and> out s = [])"

inductive conn_step :: "'s tls_ops \<Rightarrow> 's ke_server_conn \<Rightarrow> 's ke_server_conn \<Rightarrow> bool" for ops where
  conn_event: "conn_state c \<noteq> Closed \<Longrightarrow>
    ready ops A rotator port poll env ev (c, w) = ((c', w'), Ok () :: (unit, io_error) result) \<Longrightarrow>
    conn_step ops c c'"
| conn_timeout: "shutdown ops c = (c', Ok () :: (unit, io_error) result) \<Longrightarrow> conn_step ops c c'"

inductive_cases conn_stepE: "conn_step ops c c'"

lemma conn_init_good: "conn_init out c \<Longrightarrow> conn_good out c"
  unfolding conn_init_def ke_server_conn_new_def
  by (clarify, split result.split_asm) (auto simp: conn_good_def conn_inv_def conn_out_def)

interpretation conn_sys: transition_system "conn_init out" "conn_step ops" "\<lambda>c. tls_log ops out \<longrightarrow> conn_good out c"
  for out and ops
proof
  fix c c' :: "'a ke_server_conn"
  show "conn_init out c \<Longrightarrow> tls_log ops out \<longrightarrow> conn_good out c"
    using conn_init_good by blast
  show "tls_log ops out \<longrightarrow> conn_good out c \<Longrightarrow> conn_step ops c c' \<Longrightarrow> tls_log ops out \<longrightarrow> conn_good out c'"
    by (auto elim!: conn_stepE intro: ready_good shutdown_keeps_good)
qed

lemma incomplete_short: "\<not> complete_record b \<Longrightarrow> length b < 65540"
  using unat_width(1) [of "u16_from_be (take 2 (drop 2 b))"]
  by (auto simp: complete_record_def body_length_def)

section \<open>Fragmentation\<close>

definition same_conn :: "'s ke_server_conn \<Rightarrow> 's ke_server_conn \<Rightarrow> bool" where
  "same_conn c d \<longleftrightarrow> c\<lparr>ntske_buffer := []\<rparr> = d\<lparr>ntske_buffer := []\<rparr>"

definition exporter_stable :: "'s tls_ops \<Rightarrow> bool" where
  "exporter_stable ops \<longleftrightarrow> (\<forall>b s. export_keying_material ops (fst (write_all ops b s)) = export_keying_material ops s)"

lemma shutdown_buffer:
  "shutdown ops (c\<lparr>ntske_buffer := b\<rparr>) = (case shutdown ops c of (c', r) \<Rightarrow> (c'\<lparr>ntske_buffer := b\<rparr>, r))"
  by (simp add: shutdown_def split: prod.split result.split)

lemma send_response_buffer:
  "send_response ops A rotator port env keys (c\<lparr>ntske_buffer := b\<rparr>, w) =
     (case send_response ops A rotator port env keys (c, w) of ((c', w'), r) \<Rightarrow> ((c'\<lparr>ntske_buffer := b\<rparr>, w'), r))"
  by (simp add: send_response_def split: prod.split result.split)

lemma same_conn_buffer [simp]: "same_conn (c\<lparr>ntske_buffer := a\<rparr>) (c\<lparr>ntske_buffer := b\<rparr>)"
  "same_conn (c\<lparr>ntske_buffer := a\<rparr>) c" "same_conn c c"
  by (simp_all add: same_conn_def)

lemma after_loop_buffer:
  "\<exists>c1 c2 w' r. after_loop ops A rotator port env keys lr (c\<lparr>ntske_buffer := b\<rparr>, w) = ((c1, w'), r) \<and>
     after_loop ops A rotator port env keys lr (c, w) = ((c2, w'), r) \<and> same_conn c1 c2"
proof (cases lr)
  case (Pair st r)
  have u: "c\<lparr>ntske_buffer := b, ntske_state := st\<rparr> = (c\<lparr>ntske_state := st\<rparr>)\<lparr>ntske_buffer := b\<rparr>" by simp
  show ?thesis
    unfolding Pair after_loop_def Let_def split u
    by (cases r) (auto simp: shutdown_buffer send_response_buffer with_world_def split: loop_exit.split prod.split)
qed


lemma after_loop_state:
  "after_loop ops A rotator port env keys lr (c\<lparr>ntske_state := x\<rparr>, w) = after_loop ops A rotator port env keys lr (c, w)"
  by (simp add: after_loop_def)

lemma with_plaintext_twice:
  "conn_state c1 \<noteq> TlsHandshaking \<Longrightarrow> with_plaintext b c1 = c1\<lparr>ntske_buffer := ntske_buffer c1 @ b\<rparr>"
  by (simp add: with_plaintext_def Let_def)

lemma with_plaintext_append:
  "with_plaintext (a @ b) c = (with_plaintext a c)\<lparr>ntske_buffer := ntske_buffer c @ a @ b\<rparr>"
  by (cases c) (simp add: with_plaintext_def Let_def)

lemma shutdown_Closed: "shutdown ops c = (c', Ok u) \<Longrightarrow> conn_state c' = Closed"
  by (auto simp: shutdown_def split: prod.splits result.splits)

lemma read_plaintext_fragments:
  fixes u :: unit
  assumes stable: "exporter_stable ops"
    and first: "read_plaintext ops A rotator port env a (c, w) = ((c1, w1), Ok u :: (unit, 'e) result)"
    and "conn_state c1 \<noteq> Closed"
  shows "\<exists>c2 d2 w2 r. read_plaintext ops A rotator port env b (c1, w1) = ((c2, w2), r :: (unit, 'e) result) \<and>
      read_plaintext ops A rotator port env (a @ b) (c, w) = ((d2, w2), r) \<and> same_conn c2 d2"
proof -
  obtain keys where k: "gen_key (export_keying_material ops (tls_session c)) = Ok keys"
    using first by (cases "gen_key (export_keying_material ops (tls_session c))") (simp_all add: read_plaintext_def Let_def)
  note whole = read_plaintext_after_loop [OF k, of A rotator port env "a @ b" w, where 'b = 'e,
      unfolded with_plaintext_append]
  note app = record_loop_append [of "ntske_buffer c @ a" b "ntske_state c", where 'a = 'e, unfolded append_assoc]
  from first show ?thesis
  proof (cases rule: read_plaintext_OkE)
    case (more st reader)
    have k1: "gen_key (export_keying_material ops (tls_session c1)) = Ok keys" using k more(2) by simp
    let ?c = "with_plaintext a c"
    have wp: "with_plaintext b c1 = (?c\<lparr>ntske_buffer := reader @ b\<rparr>)\<lparr>ntske_state := st\<rparr>"
      using more(2) by (simp add: with_plaintext_def Let_def)
    show ?thesis
      using after_loop_buffer [of ops A rotator port env keys "record_loop (reader @ b) st :: _ \<times> (loop_exit, 'e) result"
          "reader @ b" "?c\<lparr>ntske_buffer := ntske_buffer c @ a @ b\<rparr>" w]
      unfolding read_plaintext_after_loop [OF k1] whole app more(1) wp after_loop_state more(3)
      using more(2) by simp
  next
    case (shut st)
    then show ?thesis using shutdown_Closed assms(3) by blast
  next
    case (sent keys' st resp s)
    have "export_keying_material ops s = export_keying_material ops (tls_session c)"
      using stable sent(5) by (metis exporter_stable_def fst_conv)
    then have k1: "gen_key (export_keying_material ops (tls_session c1)) = Ok keys" using k sent(6) by simp
    have f: "finished st" using record_loop_exit [OF sent(2)] by simp
    have "keys' = keys" using sent(1) k by simp
    then show ?thesis
      unfolding read_plaintext_after_loop [OF k1] whole app sent(2) using sent f
      by (auto simp: record_loop_stop after_loop_def send_response_def with_plaintext_twice same_conn_def Let_def)
  next
    case (over st)
    have k1: "gen_key (export_keying_material ops (tls_session c1)) = Ok keys" using k over(4) by simp
    have f: "finished st" using record_loop_exit [OF over(1)] by simp
    show ?thesis
      unfolding read_plaintext_after_loop [OF k1] whole app over(1) using over f
      by (auto simp: record_loop_stop after_loop_def send_response_def with_plaintext_twice same_conn_def Let_def)
  qed
qed


section \<open>Survival\<close>

text \<open>
  A TLS layer without panics, which takes what is written to it, and which exports 32 byte keys once
  it has delivered plaintext. Nothing is said about shutting its stream down.
\<close>

definition tls_sound :: "'s tls_ops \<Rightarrow> bool" where
  "tls_sound ops \<longleftrightarrow>
     (\<forall>s. \<not> panics (snd (read_tls ops s)) \<and> \<not> panics (snd (process_new_packets ops s)) \<and>
          \<not> panics (snd (read_to_end ops s)) \<and> \<not> panics (snd (write_tls ops s)) \<and>
          (\<forall>b. is_ok (snd (write_all ops b s))) \<and>
          (\<forall>s' b. read_to_end ops s = (s', Ok b) \<longrightarrow> b \<noteq> [] \<longrightarrow>
             (\<forall>l x. \<exists>k. export_keying_material ops s' l x = Ok k \<and> length k = 32)))"

text \<open>
  The sessions a session becomes by the operations on it. It is resettable when in one of them the stream
  cannot be shut down, as happens once the peer has reset it.
\<close>

inductive tls_touch :: "'s tls_ops \<Rightarrow> 's \<Rightarrow> 's \<Rightarrow> bool" for ops where
  touch_read_tls: "tls_touch ops s (fst (read_tls ops s))"
| touch_process: "tls_touch ops s (fst (process_new_packets ops s))"
| touch_read: "tls_touch ops s (fst (read_to_end ops s))"
| touch_write_tls: "tls_touch ops s (fst (write_tls ops s))"
| touch_write: "tls_touch ops s (fst (write_all ops b s))"
| touch_shutdown: "tls_touch ops s (fst (tcp_shutdown ops s))"

definition resettable :: "'s tls_ops \<Rightarrow> 's \<Rightarrow> bool" where
  "resettable ops s \<longleftrightarrow> (\<exists>t. (tls_touch ops)\<^sup>*\<^sup>* s t \<and> \<not> is_ok (snd (tcp_shutdown ops t)))"

lemma resettable_touch: "\<not> resettable ops s \<Longrightarrow> tls_touch ops s t \<Longrightarrow> \<not> resettable ops t"
  unfolding resettable_def by (meson converse_rtranclp_into_rtranclp)

lemma resettable_next:
  assumes "\<not> resettable ops s"
  shows "read_tls ops s = (t, r1) \<Longrightarrow> \<not> resettable ops t"
    and "process_new_packets ops s = (t, r2) \<Longrightarrow> \<not> resettable ops t"
    and "read_to_end ops s = (t, r3) \<Longrightarrow> \<not> resettable ops t"
    and "write_tls ops s = (t, r4) \<Longrightarrow> \<not> resettable ops t"
    and "write_all ops b s = (t, r5) \<Longrightarrow> \<not> resettable ops t"
    and "tcp_shutdown ops s = (t, r5) \<Longrightarrow> \<not> resettable ops t"
  using tls_touch.intros [of ops s] resettable_touch [OF assms] by (metis fst_conv)+

definition ke_serving :: "ke_env \<Rightarrow> ke_world \<Rightarrow> key_rotator rwlock \<Rightarrow> poll_answer \<Rightarrow> bool" where
  "ke_serving env w rotator poll \<longleftrightarrow>
     ke_nonces_ok env \<and> ke_measuring env w \<and> rotator_up rotator \<and> (\<forall>t i. poll t i = Ok ())"

lemma shutdown_Ok:
  assumes "is_ok (snd (tcp_shutdown ops (tls_session c)))"
  shows "shutdown ops c = (c\<lparr>tls_session := fst (tcp_shutdown ops (tls_session c)), conn_state := Closed\<rparr>, Ok ())"
  using assms by (auto simp: shutdown_def is_ok_iff split: prod.split)

lemma shutdown_sound:
  assumes "\<not> resettable ops (tls_session c)"
  shows "\<exists>c'. shutdown ops c = (c', Ok () :: (unit, 'e) result) \<and> \<not> resettable ops (tls_session c')"
proof -
  have "is_ok (snd (tcp_shutdown ops (tls_session c)))" using assms unfolding resettable_def by blast
  moreover have "\<not> resettable ops (fst (tcp_shutdown ops (tls_session c)))"
    by (rule resettable_touch [OF assms touch_shutdown])
  ultimately show ?thesis by (simp add: shutdown_Ok)
qed

lemma gen_key_sound:
  assumes "\<And>l x. \<exists>k. ex l x = Ok k \<and> length k = 32"
  shows "\<exists>keys. gen_key ex = Ok keys \<and> wf_keys keys"
proof -
  obtain k1 k2 where "ex EXPORTER_LABEL (Some [0, 0, 0, 15, 0]) = Ok k1" "length k1 = 32"
    "ex EXPORTER_LABEL (Some [0, 0, 0, 15, 1]) = Ok k2" "length k2 = 32" using assms by metis
  then show ?thesis by (simp add: gen_key_def wf_keys_def)
qed

lemma ke_measuring_channel:
  "ke_measuring env w \<Longrightarrow> chan_set (server_ke_s w') \<Longrightarrow> chan_open (server_ke_s w') \<Longrightarrow> ke_measuring env w'"
  by (auto simp: ke_measuring_def)

text \<open>What a handler leaves behind when it returns: a stream as good as before and a server that is set up.\<close>

definition survived ::
  "'s tls_ops \<Rightarrow> ke_env \<Rightarrow> key_rotator rwlock \<Rightarrow> poll_answer \<Rightarrow> ('s ke_server_conn \<times> ke_world) \<times> (unit, 'e) result \<Rightarrow> bool" where
  "survived ops env rotator poll r \<longleftrightarrow>
     (\<exists>c w. r = ((c, w), Ok ()) \<and> \<not> resettable ops (tls_session c) \<and> ke_serving env w rotator poll)"

lemma survived_simp [simp]:
  "survived ops env rotator poll ((c, w), Ok ()) \<longleftrightarrow>
     \<not> resettable ops (tls_session c) \<and> ke_serving env w rotator poll"
  by (auto simp: survived_def)

lemma survived_shutdown:
  "\<not> resettable ops (tls_session c) \<Longrightarrow> ke_serving env w rotator poll \<Longrightarrow>
     survived ops env rotator poll (with_world w (shutdown ops c) :: _ \<times> (unit, 'e) result)"
  using shutdown_sound [of ops c, where 'e = 'e] by (auto simp: survived_def with_world_def)

lemma read_plaintext_sound:
  assumes "tls_sound ops" and "aead_expands A" and "ke_serving env w rotator poll"
    and "\<not> resettable ops (tls_session c)"
    and "\<And>l x. \<exists>k. export_keying_material ops (tls_session c) l x = Ok k \<and> length k = 32"
  shows "survived ops env rotator poll (read_plaintext ops A rotator port env buf (c, w) :: _ \<times> (unit, 'e) result)"
proof -
  obtain keys where k: "gen_key (export_keying_material ops (tls_session c)) = Ok keys" "wf_keys keys"
    using gen_key_sound assms(5) by blast
  have up: "ke_nonces_ok env" "rotator_up rotator" "ke_measuring env w"
    using assms(3) by (simp_all add: ke_serving_def)
  obtain st e where l: "(record_loop (ntske_buffer c @ buf) (ntske_state c) :: _ \<times> (loop_exit, 'e) result) = (st, Ok e)"
    using record_loop_no_panic by blast
  obtain w' resp where r: "ke_response A env keys rotator port w = (w', Ok resp :: (bytes, 'e) result)"
      "chan_set (server_ke_s w')" "chan_open (server_ke_s w')"
    by (rule ke_response_Ok [OF assms(2) k(2) up])
  have w': "ke_serving env w' rotator poll"
    using assms(3) r(2,3) ke_measuring_channel by (auto simp: ke_serving_def)
  obtain t where t: "write_all ops resp (tls_session c) = (t, Ok ())"
    using assms(1) unfolding tls_sound_def is_ok_iff by (metis old.unit.exhaust prod.collapse)
  have p: "tls_session (with_plaintext buf c) = tls_session c" by (simp add: with_plaintext_def Let_def)
  show ?thesis
  proof (cases e)
    case LoopShutdown
    then show ?thesis
      using survived_shutdown [of ops "(with_plaintext buf c)\<lparr>ntske_state := st\<rparr>", where 'e = 'e] assms(3,4)
      by (simp add: read_plaintext_after_loop [OF k(1)] l after_loop_def p)
  next
    case LoopDone
    then show ?thesis
      using r t w' assms(3,4) resettable_next(5) [OF assms(4) t]
      by (simp add: read_plaintext_after_loop [OF k(1)] l after_loop_def send_response_def Let_def p)
  qed (use assms(3,4) in \<open>simp add: read_plaintext_after_loop [OF k(1)] l after_loop_def p\<close>)
qed

lemma read_decrypted_sound:
  assumes "tls_sound ops" and "aead_expands A" and "ke_serving env w rotator poll"
    and "\<not> resettable ops (tls_session c)"
  shows "survived ops env rotator poll (read_decrypted ops A rotator port env (c, w) :: _ \<times> (unit, 'e) result)"
proof -
  obtain s r where rd: "read_to_end ops (tls_session c) = (s, r)" by fastforce
  note s = resettable_next(3) [OF assms(4) rd]
  show ?thesis
  proof (cases r)
    case (Ok b)
    show ?thesis
    proof (cases "b = []")
      case False
      then have "\<exists>k. export_keying_material ops s l x = Ok k \<and> length k = 32" for l x
        using assms(1) rd Ok unfolding tls_sound_def by blast
      with read_plaintext_sound [OF assms(1-3), of "c\<lparr>tls_session := s\<rparr>" port b, where 'e = 'e] s show ?thesis
        using False rd Ok by (simp add: read_decrypted_def)
    qed (use rd Ok assms(3) s in \<open>simp add: read_decrypted_def\<close>)
  next
    case (Err e)
    then show ?thesis
      using rd survived_shutdown [of ops "c\<lparr>tls_session := s\<rparr>", where 'e = 'e] assms(3) s by (simp add: read_decrypted_def)
  next
    case (Panic p)
    then show ?thesis using assms(1) rd unfolding tls_sound_def by (metis panics.simps(1) snd_conv)
  qed
qed

lemma process_packets_sound:
  assumes "tls_sound ops" and "\<not> resettable ops (tls_session c)"
  shows "\<exists>c'. process_packets ops c = (c', Ok () :: (unit, 'e) result) \<and> \<not> resettable ops (tls_session c')"
proof -
  obtain t r where p: "process_new_packets ops (tls_session c) = (t, r)" by fastforce
  then have "\<not> panics r" using assms(1) unfolding tls_sound_def by (metis snd_conv)
  then show ?thesis
    using p shutdown_sound [of ops "c\<lparr>tls_session := t\<rparr>", where 'e = 'e] resettable_next(2) [OF assms(2) p]
    by (cases r) (auto simp: process_packets_def)
qed

lemma read_ready_sound:
  assumes "tls_sound ops" and "aead_expands A" and "ke_serving env w rotator poll"
    and "\<not> resettable ops (tls_session c)"
  shows "survived ops env rotator poll (read_ready ops A rotator port env (c, w) :: _ \<times> (unit, 'e) result)"
proof -
  obtain s r where rd: "read_tls ops (tls_session (start_handshake c)) = (s, r)" by fastforce
  let ?d = "(start_handshake c)\<lparr>tls_session := s\<rparr>"
  have "tls_session (start_handshake c) = tls_session c" by (simp add: start_handshake_def)
  then have s: "\<not> resettable ops (tls_session ?d)" using resettable_next(1) [OF assms(4)] rd by simp
  obtain c1 where p: "process_packets ops ?d = (c1, Ok () :: (unit, 'e) result)" "\<not> resettable ops (tls_session c1)"
    using process_packets_sound [OF assms(1) s] by blast
  have "\<not> panics r" using assms(1) rd unfolding tls_sound_def by (metis snd_conv)
  then show ?thesis
    using rd p assms(3) s survived_shutdown [OF s assms(3), where 'e = 'e] read_decrypted_sound [OF assms(1-3) p(2), of port, where 'e = 'e]
    by (cases r) (simp_all add: read_ready_def with_world_def Let_def)
qed

lemma write_ready_sound:
  assumes "tls_sound ops" and "\<not> resettable ops (tls_session c)"
  shows "\<exists>c'. write_ready ops c = (c', Ok () :: (unit, 'e) result) \<and> \<not> resettable ops (tls_session c')"
proof -
  obtain t r where p: "write_tls ops (tls_session c) = (t, r)" by fastforce
  then have "\<not> panics r" using assms(1) unfolding tls_sound_def by (metis snd_conv)
  then show ?thesis
    using p shutdown_sound [of ops "c\<lparr>tls_session := t\<rparr>", where 'e = 'e] resettable_next(4) [OF assms(2) p]
    by (cases r) (auto simp: write_ready_def)
qed

lemma ready_sound:
  assumes "tls_sound ops" and "aead_expands A" and "ke_serving env w rotator poll"
    and "\<not> resettable ops (tls_session c)"
  shows "\<exists>c' w'. ready ops A rotator port poll env ev (c, w) = ((c', w'), Ok () :: (unit, 'e) result) \<and>
     ke_serving env w' rotator poll"
proof -
  have "survived ops env rotator poll
      (if fst ev then read_ready ops A rotator port env (c, w) else ((c, w), Ok ()) :: _ \<times> (unit, 'e) result)"
    using read_ready_sound [OF assms, where 'e = 'e] assms(3,4) by simp
  then obtain c1 w1 where r: "(if fst ev then read_ready ops A rotator port env (c, w) else ((c, w), Ok ())) =
      ((c1, w1), Ok () :: (unit, 'e) result)" "ke_serving env w1 rotator poll" "\<not> resettable ops (tls_session c1)"
    unfolding survived_def by blast
  obtain c2 where "(if snd ev then write_ready ops c1 else (c1, Ok ())) = (c2, Ok () :: (unit, 'e) result)"
    using write_ready_sound [OF assms(1) r(3), where 'e = 'e] by (cases "snd ev") auto
  with r show ?thesis
    by (auto simp: ready_def with_world_def reregister_def ke_serving_def interest_def)
qed


section \<open>A scripted TLS session\<close>

text \<open>A session that delivers given pieces of plaintext and records what is written to it.\<close>

record script =
  script_in :: "bytes list"
  script_out :: bytes

definition script_ops :: "script tls_ops" where
  "script_ops =
     \<lparr>read_tls = (\<lambda>s. (s, Ok (length (script_in s)))),
      process_new_packets = (\<lambda>s. (s, Ok ())),
      read_to_end = (\<lambda>s. case script_in s of [] \<Rightarrow> (s, Ok []) | b # bs \<Rightarrow> (s\<lparr>script_in := bs\<rparr>, Ok b)),
      write_all = (\<lambda>b s. (s\<lparr>script_out := script_out s @ b\<rparr>, Ok ())),
      write_tls = (\<lambda>s. (s, Ok 1)),
      export_keying_material = (\<lambda>s l x. Ok (replicate 32 (case x of Some c \<Rightarrow> last c | None \<Rightarrow> 9))),
      wants_read = (\<lambda>s. True), wants_write = (\<lambda>s. True), tcp_shutdown = (\<lambda>s. (s, Ok ()))\<rparr>"

lemma script_log: "tls_log script_ops script_out"
  by (auto simp: tls_log_def script_ops_def split: list.split)

lemma script_sound: "tls_sound script_ops"
  by (auto simp: tls_sound_def script_ops_def split: list.split)

lemma script_not_resettable: "\<not> resettable script_ops s"
  by (simp add: resettable_def script_ops_def)

lemma script_stable: "exporter_stable script_ops"
  by (simp add: exporter_stable_def script_ops_def)

definition script_conn :: "bytes list \<Rightarrow> script ke_server_conn" where
  "script_conn pieces =
     \<lparr>tls_session = \<lparr>script_in = pieces, script_out = []\<rparr>, token = 1, conn_state = Connected,
      ntske_state = empty_record_state, ntske_buffer = []\<rparr>"

definition ke_up_env :: ke_env where
  "ke_up_env = \<lparr>ke_experiment_cfg = Some (\<lambda>k. Some ''192.0.2.1''), ke_elapsed = 10, ke_cookie_nonce = (\<lambda>i. replicate 16 6)\<rparr>"

definition ke_up_world :: ke_world where
  "ke_up_world = \<lparr>ke_client_addr = ''192.0.2.1:4460'',
     server_ke_s = \<lparr>chan_set = True, chan_open = True, chan_sent = []\<rparr>\<rparr>"

definition ke_up_rotator :: "key_rotator rwlock" where
  "ke_up_rotator = new_lock (sample_rotator\<lparr>cache := [KeyId 7 \<mapsto> [5]], latest_key_id := KeyId 7\<rparr>)"

lemma ke_up_serving: "ke_serving ke_up_env ke_up_world ke_up_rotator (\<lambda>_ _. Ok ())"
  by (simp add: ke_serving_def ke_nonces_ok_def ke_measuring_def rotator_up_def ke_up_env_def ke_up_world_def
      ke_up_rotator_def new_lock_def)

lemma script_conn_init: "conn_init script_out (script_conn pieces)"
  unfolding conn_init_def
  by (intro exI [of _ "Ok ''192.0.2.1:4460''"] exI [of _ "\<lparr>script_in = pieces, script_out = []\<rparr>"] exI [of _ 1])
    (simp add: ke_server_conn_new_def script_conn_def)

lemma script_conn_open: "conn_state (script_conn pieces) \<noteq> Closed"
  by (simp add: script_conn_def)

lemma reachable_event:
  assumes "ready ops A rotator port poll env ev (c, w) = ((c', w'), Ok () :: (unit, io_error) result)"
    and "conn_init out c" and "conn_state c \<noteq> Closed"
  shows "reachable (conn_init out) (conn_step ops) c'"
proof (rule reachable_step)
  show "reachable (conn_init out) (conn_step ops) c" by (rule reachable_init [of "conn_init out", OF assms(2)])
  show "conn_step ops c c'" by (rule conn_event [OF assms(3,1)])
qed

text \<open>One byte of a request has arrived; the whole request has arrived and was answered.\<close>

definition half_read :: "script ke_server_conn" where
  "half_read = (script_conn [])\<lparr>conn_state := Opened, ntske_buffer := [0x80]\<rparr>"

lemma half_read_reachable: "reachable (conn_init script_out) (conn_step script_ops) half_read"
proof (rule reachable_event [OF _ script_conn_init])
  show "ready script_ops checksum_aead ke_up_rotator 123 (\<lambda>_ _. Ok ()) ke_up_env (True, False)
      (script_conn [[0x80]], ke_up_world) = ((half_read, ke_up_world), Ok () :: (unit, io_error) result)"
    by (simp add: ready_def read_ready_def read_decrypted_def process_packets_def start_handshake_def with_world_def
        read_plaintext_def gen_key_def script_ops_def with_plaintext_def script_conn_def after_loop_def
        record_loop_more complete_record_def empty_record_state_def reregister_def half_read_def Let_def)
qed (rule script_conn_open)

lemma answered_reachable:
  obtains c where "reachable (conn_init script_out) (conn_step script_ops) c" "conn_state c = ResponseSent"
proof -
  let ?keys = "\<lparr>c2s = replicate 32 0, s2c = replicate 32 1\<rparr>"
  have wf: "wf_keys ?keys" by (simp add: wf_keys_def)
  obtain w' where r: "ke_response checksum_aead ke_up_env ?keys ke_up_rotator 123 ke_up_world =
      (w', Ok (concat (map ke_bytes (response_records checksum_aead ke_up_env ?keys (lock_val ke_up_rotator) 123))) :: (bytes, io_error) result)"
    using ke_response_Ok [OF checksum_aead_expands wf, where 'e = io_error] ke_up_serving unfolding ke_serving_def by metis
  have l: "record_loop [0x80, 0, 0, 0] empty_record_state =
      (empty_record_state\<lparr>finished := True\<rparr>, Ok LoopDone :: (loop_exit, io_error) result)"
    by code_simp
  obtain c where "ready script_ops checksum_aead ke_up_rotator 123 (\<lambda>_ _. Ok ()) ke_up_env (True, False)
      (script_conn [[0x80, 0, 0, 0]], ke_up_world) = ((c, w'), Ok () :: (unit, io_error) result)" "conn_state c = ResponseSent"
    using r l by (simp add: ready_def read_ready_def read_decrypted_def process_packets_def start_handshake_def with_world_def
        read_plaintext_def gen_key_def script_ops_def with_plaintext_def script_conn_def after_loop_def
        send_response_def reregister_def Let_def)
  then show thesis using that reachable_event [OF _ script_conn_init] by (metis script_conn_open)
qed

section \<open>Properties\<close>

text \<open>
  No bytes of a peer can panic a connection: whatever arrives and however the TLS layer
  fails, as long as the stream is not reset and the server is set up (latest key in the
  rotator, experiment file, measurement channel, poll), handling an event returns normally, and
  the server is still set up afterwards.
\<close>

lemma connection_survives_events:
  assumes "tls_sound ops" and "aead_expands A" and "ke_serving env w rotator poll"
    and "\<not> resettable ops (tls_session c)"
  shows "\<exists>c' w'. ready ops A rotator port poll env ev (c, w) = ((c', w'), Ok () :: (unit, io_error) result) \<and>
     ke_serving env w' rotator poll"
  by (rule ready_sound [OF assms])

lemma connection_survives_events_witness:
  "\<exists>c' w'. ready script_ops checksum_aead ke_up_rotator 123 (\<lambda>_ _. Ok ()) ke_up_env (True, True)
       (script_conn [[0xff, 0xff, 0, 1, 7]], ke_up_world) = ((c', w'), Ok () :: (unit, io_error) result) \<and>
     ke_serving ke_up_env w' ke_up_rotator (\<lambda>_ _. Ok ())"
  by (rule connection_survives_events [OF script_sound checksum_aead_expands ke_up_serving script_not_resettable])

text \<open>
  C13: A connection answers at most once: in every state reachable by events and by the timeout,
  the plaintext handed to the TLS layer is empty until the response is sent, and it is exactly one
  response afterwards; the response is sent only after an End of Message record was received.
\<close>

theorem connection_answers_once:
  assumes "reachable (conn_init out) (conn_step ops) c" and "tls_log ops out"
  shows "(case conn_state c of
      ResponseSent \<Rightarrow> is_response (out (tls_session c)) \<and> finished (ntske_state c)
    | Closed \<Rightarrow> out (tls_session c) = [] \<or> is_response (out (tls_session c))
    | _ \<Rightarrow> out (tls_session c) = [] \<and> \<not> finished (ntske_state c))"
proof -
  have "conn_good out c" using conn_sys.inv_reachable [OF assms(1)] assms(2) by blast
  then show ?thesis
    by (auto simp: conn_good_def conn_inv_def conn_out_def empty_record_state_def split: ke_server_conn_state.splits)
qed

theorem connection_answers_once_witness:
  "\<exists>c. reachable (conn_init script_out) (conn_step script_ops) c \<and> conn_state c = ResponseSent \<and>
     is_response (script_out (tls_session c)) \<and> finished (ntske_state c)"
proof -
  obtain c where c: "reachable (conn_init script_out) (conn_step script_ops) c" "conn_state c = ResponseSent"
    by (rule answered_reachable)
  with connection_answers_once [OF c(1) script_log] show ?thesis by (intro exI [of _ c]) simp
qed

text \<open>
  C26: While the request is not finished, the bytes a connection keeps between events are an
  incomplete record and hence less than 65540, whatever the peer sends.
\<close>

theorem unfinished_buffer_bounded:
  assumes "reachable (conn_init out) (conn_step ops) c" and "tls_log ops out"
    and "conn_state c \<in> {Connected, TlsHandshaking, Opened}"
  shows "\<not> complete_record (ntske_buffer c) \<and> length (ntske_buffer c) < 65540"
proof -
  have "conn_good out c" using conn_sys.inv_reachable [OF assms(1)] assms(2) by blast
  then have "\<not> complete_record (ntske_buffer c)"
    using assms(3) by (auto simp: conn_good_def conn_inv_def complete_record_def)
  then show ?thesis using incomplete_short by blast
qed

theorem unfinished_buffer_bounded_witness:
  "ntske_buffer half_read = [0x80] \<and> \<not> complete_record (ntske_buffer half_read) \<and> length (ntske_buffer half_read) < 65540"
  using unfinished_buffer_bounded [OF half_read_reachable script_log] by (simp add: half_read_def script_conn_def)

text \<open>
  C14: How TLS cuts the request into pieces does not matter: reading a piece and then another one
  leaves the same connection, up to the bytes in its buffer, the same process state and the same
  outcome as reading both at once, as long as the first piece does not close the connection. The
  keys exported by the TLS session do not change when data is written.
\<close>

theorem request_fragmentation_irrelevant:
  assumes "exporter_stable ops"
    and "read_plaintext ops A rotator port env a (c, w) = ((c1, w1), Ok () :: (unit, io_error) result)"
    and "conn_state c1 \<noteq> Closed"
  shows "\<exists>c2 d2 w2 r. read_plaintext ops A rotator port env b (c1, w1) = ((c2, w2), r :: (unit, io_error) result) \<and>
      read_plaintext ops A rotator port env (a @ b) (c, w) = ((d2, w2), r) \<and>
      c2\<lparr>ntske_buffer := []\<rparr> = d2\<lparr>ntske_buffer := []\<rparr>"
  using read_plaintext_fragments [OF assms] by (simp add: same_conn_def)

theorem request_fragmentation_irrelevant_witness:
  "\<exists>c1 w1 c2 d2 w2 r.
     read_plaintext script_ops checksum_aead ke_up_rotator 123 ke_up_env [0x80] (script_conn [], ke_up_world) =
       ((c1, w1), Ok () :: (unit, io_error) result) \<and>
     read_plaintext script_ops checksum_aead ke_up_rotator 123 ke_up_env [0, 0, 0] (c1, w1) =
       ((c2, w2), r :: (unit, io_error) result) \<and>
     read_plaintext script_ops checksum_aead ke_up_rotator 123 ke_up_env ([0x80] @ [0, 0, 0]) (script_conn [], ke_up_world) =
       ((d2, w2), r) \<and> c2\<lparr>ntske_buffer := []\<rparr> = d2\<lparr>ntske_buffer := []\<rparr>"
proof -
  let ?c = "(script_conn [])\<lparr>ntske_buffer := [0x80]\<rparr>"
  have "read_plaintext script_ops checksum_aead ke_up_rotator 123 ke_up_env [0x80] (script_conn [], ke_up_world) =
      ((?c, ke_up_world), Ok () :: (unit, io_error) result)"
    by (simp add: read_plaintext_def gen_key_def script_ops_def with_plaintext_def script_conn_def after_loop_def
        record_loop_more complete_record_def empty_record_state_def Let_def)
  moreover have "conn_state ?c \<noteq> Closed" by (simp add: script_conn_def)
  ultimately show ?thesis
    using request_fragmentation_irrelevant [OF script_stable, of checksum_aead ke_up_rotator 123 ke_up_env "[0x80]"
        "script_conn []" ke_up_world ?c ke_up_world "[0, 0, 0]"] by blast
qed

end
