(* ===== verification/Net_Text.thy ===== *)
theory Net_Text
  imports Ip_Addr
begin

text \<open>
  What the program reads from text with the standard library besides plain IP addresses: integers
  (\<^verbatim>\<open>str::parse\<close>) and socket addresses (\<^verbatim>\<open>SocketAddr::from_str\<close>), with the printers and the round
  trips that the other theories use.
\<close>

section \<open>Integers in strings\<close>

datatype parse_int_error = IntEmpty | InvalidDigit | IntOverflow | IntUnderflow

fun parse_pos :: "int \<Rightarrow> int \<Rightarrow> string \<Rightarrow> (int, parse_int_error) result" where
  "parse_pos hi acc [] = Ok acc"
| "parse_pos hi acc (c # cs) =
     (case to_digit 10 c of
        None \<Rightarrow> Err InvalidDigit
      | Some d \<Rightarrow> if hi < acc * 10 + int d then Err IntOverflow else parse_pos hi (acc * 10 + int d) cs)"

fun parse_neg :: "int \<Rightarrow> int \<Rightarrow> string \<Rightarrow> (int, parse_int_error) result" where
  "parse_neg lo acc [] = Ok acc"
| "parse_neg lo acc (c # cs) =
     (case to_digit 10 c of
        None \<Rightarrow> Err InvalidDigit
      | Some d \<Rightarrow> if acc * 10 - int d < lo then Err IntUnderflow else parse_neg lo (acc * 10 - int d) cs)"

text \<open>A minus sign is accepted by the signed types only.\<close>

definition parse_int :: "int \<Rightarrow> int \<Rightarrow> string \<Rightarrow> (int, parse_int_error) result" where
  "parse_int lo hi s =
     (case s of
        [] \<Rightarrow> Err IntEmpty
      | c # cs \<Rightarrow>
          if c = CHR ''+'' then (if cs = [] then Err IntEmpty else parse_pos hi 0 cs)
          else if c = CHR ''-'' \<and> lo < 0 then (if cs = [] then Err IntEmpty else parse_neg lo 0 cs)
          else parse_pos hi 0 s)"

definition parse_u16 :: "string \<Rightarrow> (u16, parse_int_error) result" where
  "parse_u16 s = bind_r (parse_int 0 65535 s) (\<lambda>i. Ok (word_of_int i))"

definition parse_i32 :: "string \<Rightarrow> (int, parse_int_error) result" where
  "parse_i32 s = parse_int (- (2 ^ 31)) (2 ^ 31 - 1) s"

text \<open>Printing a signed integer.\<close>

definition show_int :: "int \<Rightarrow> string" where
  "show_int i = (if i < 0 then CHR ''-'' # show_nat (nat (- i)) else show_nat (nat i))"

lemma parse_pos_show_nat:
  "acc * 10 ^ length (show_nat n) + int n \<le> hi \<Longrightarrow> 0 \<le> acc \<Longrightarrow>
     parse_pos hi acc (show_nat n @ r) = parse_pos hi (acc * 10 ^ length (show_nat n) + int n) r"
proof (induction n arbitrary: r rule: show_nat.induct)
  case (1 n)
  show ?case
  proof (cases "n < 10")
    case True
    with 1(2) show ?thesis by (simp add: show_nat.simps [of n] to_digit_decimal)
  next
    case False
    let ?m = "n div 10" and ?d = "n mod 10"
    let ?w = "acc * 10 ^ length (show_nat ?m) + int ?m"
    have s: "show_nat n = show_nat ?m @ [char_of (48 + ?d)]" using False by (simp add: show_nat.simps [of n])
    have n: "int n = 10 * int ?m + int ?d" by presburger
    have v: "acc * 10 ^ length (show_nat n) + int n = ?w * 10 + int ?d" by (simp add: s n algebra_simps)
    have w0: "0 \<le> ?w" using 1(3) by simp
    have le: "?w * 10 + int ?d \<le> hi" using 1(2) unfolding v .
    have "x \<le> hi" if "x * 10 + int d \<le> hi" "0 \<le> x" for x and d :: nat using that by linarith
    from this [OF le w0] have "parse_pos hi acc (show_nat ?m @ char_of (48 + ?d) # r) = parse_pos hi ?w (char_of (48 + ?d) # r)"
      using 1(1) [OF False] 1(3) by blast
    also have "\<dots> = parse_pos hi (?w * 10 + int ?d) r"
      using le by (simp add: to_digit_decimal)
    finally show ?thesis unfolding v by (simp add: s)
  qed
qed

lemma show_nat_digits: "c \<in> set (show_nat n) \<Longrightarrow> to_digit 10 c \<noteq> None"
proof (induction n rule: show_nat.induct)
  case (1 n)
  then show ?case by (cases "n < 10") (auto simp: show_nat.simps [of n] to_digit_decimal)
qed

lemma to_digit_sign: "to_digit 10 (CHR ''+'') = None" "to_digit 10 (CHR ''-'') = None"
  by (simp_all add: to_digit_def)

lemma parse_int_show_nat:
  assumes "int n \<le> hi"
  shows "parse_int lo hi (show_nat n) = Ok (int n)"
proof -
  obtain c cs where s: "show_nat n = c # cs" using show_nat_nonempty [of n] by (cases "show_nat n") auto
  have "to_digit 10 c \<noteq> None" using show_nat_digits [of c n] s by simp
  then have "c \<noteq> CHR ''+''" "c \<noteq> CHR ''-''" using to_digit_sign by metis+
  then show ?thesis
    using parse_pos_show_nat [of 0 n hi "[]"] assms by (simp add: parse_int_def s)
qed

lemma parse_u16_show: "parse_u16 (show_nat (unat (p :: u16))) = Ok p"
proof -
  have "int (unat p) \<le> 65535" using unat_width(1) [of p] by linarith
  from parse_int_show_nat [OF this, of 0] show ?thesis by (simp add: parse_u16_def)
qed

section \<open>Socket addresses\<close>

datatype ip_addr = IpV4 ipv4_addr | IpV6 ipv6_addr

text \<open>The scope id is that of a version 6 address; it is 0 unless it is given.\<close>

datatype socket_addr = SockAddr (sock_ip: ip_addr) (sock_port: u16) (sock_scope_id: u32)

abbreviation SocketAddr :: "ip_addr \<Rightarrow> u16 \<Rightarrow> socket_addr" where
  "SocketAddr ip port \<equiv> SockAddr ip port 0"

fun is_ipv4 :: "socket_addr \<Rightarrow> bool" where
  "is_ipv4 (SockAddr (IpV4 _) _ _) = True"
| "is_ipv4 (SockAddr (IpV6 _) _ _) = False"

definition is_ipv6 :: "socket_addr \<Rightarrow> bool" where
  "is_ipv6 a \<longleftrightarrow> \<not> is_ipv4 a"

text \<open>\<^verbatim>\<open>IpAddr::from_str\<close> and \<^verbatim>\<open>SocketAddr::from_str\<close>: version 4 first, then version 6.\<close>

definition ip_addr_from_str :: "string \<Rightarrow> ip_addr option" where
  "ip_addr_from_str s =
     (case ipv4_from_str s of
        Some a \<Rightarrow> Some (IpV4 a)
      | None \<Rightarrow> map_option IpV6 (ipv6_from_str s))"

definition read_port :: "u16 parser" where
  "read_port s =
     (case read_given_char (CHR '':'') s of
        None \<Rightarrow> None
      | Some (_, s) \<Rightarrow>
          (case read_number 10 (length s) 65536 s of
             None \<Rightarrow> None
           | Some (n, s) \<Rightarrow> Some (of_nat n, s)))"

definition read_socket_addr_v4 :: "socket_addr parser" where
  "read_socket_addr_v4 s =
     (case read_ipv4_addr s of
        None \<Rightarrow> None
      | Some (ip, s) \<Rightarrow> map_option (\<lambda>(p, s). (SocketAddr (IpV4 ip) p, s)) (read_port s))"

text \<open>A scope id that is not there or cannot be read is 0, and nothing is consumed.\<close>

definition read_scope_id :: "string \<Rightarrow> u32 \<times> string" where
  "read_scope_id s =
     (case read_given_char (CHR ''%'') s of
        None \<Rightarrow> (0, s)
      | Some (_, t) \<Rightarrow>
          (case read_number 10 (length t) 4294967296 t of
             None \<Rightarrow> (0, s)
           | Some (n, t) \<Rightarrow> (of_nat n, t)))"

definition read_socket_addr_v6 :: "socket_addr parser" where
  "read_socket_addr_v6 s =
     (case read_given_char (CHR ''['') s of
        None \<Rightarrow> None
      | Some (_, s) \<Rightarrow>
          (case read_ipv6_addr s of
             None \<Rightarrow> None
           | Some (ip, s) \<Rightarrow>
               let (scope_id, s) = read_scope_id s in
               (case read_given_char (CHR '']'') s of
                  None \<Rightarrow> None
                | Some (_, s) \<Rightarrow> map_option (\<lambda>(p, s). (SockAddr (IpV6 ip) p scope_id, s)) (read_port s))))"

definition socket_addr_from_str :: "string \<Rightarrow> socket_addr option" where
  "socket_addr_from_str s =
     (case read_till_eof read_socket_addr_v4 s of
        Some a \<Rightarrow> Some a
      | None \<Rightarrow> read_till_eof read_socket_addr_v6 s)"

fun socket_addr_to_string :: "socket_addr \<Rightarrow> string" where
  "socket_addr_to_string (SockAddr (IpV4 a) p _) = ipv4_to_string a @ '':'' @ show_nat (unat p)"
| "socket_addr_to_string (SockAddr (IpV6 a) p scope_id) =
     ''['' @ ipv6_to_string a @ (if scope_id = 0 then [] else CHR ''%'' # show_nat (unat scope_id)) @ '']:'' @ show_nat (unat p)"


lemma read_port_show: "read_port (CHR '':'' # show_nat (unat p)) = Some (p, [])"
proof -
  have "unat p < 65536" by (rule unat_width)
  then have "read_number 10 (length (show_nat (unat p))) 65536 (show_nat (unat p)) = Some (unat p, [])"
    using read_number_loop_show_nat [of 0 "unat p" "length (show_nat (unat p))" 0 65536 "[]"]
      read_number_loop_end [of 10 "[]" "length (show_nat (unat p))"] show_nat_nonempty [of "unat p"]
    by (simp add: read_number_def digits_end_def)
  then show ?thesis by (simp add: read_port_def)
qed

lemma socket_addr_v4_from_to_string:
  "socket_addr_from_str (socket_addr_to_string (SocketAddr (IpV4 a) p)) = Some (SocketAddr (IpV4 a) p)"
proof -
  have "digits_end 10 (CHR '':'' # show_nat (unat p))" by (simp add: digits_end_def to_digit_def)
  from read_ipv4_show [OF this, of a] show ?thesis
    by (simp add: socket_addr_from_str_def read_till_eof_def read_socket_addr_v4_def read_port_show)
qed

end
