(* ===== verification/Cfsock.thy ===== *)
theory Cfsock
  imports Net_Text
begin

text \<open>
  \<^verbatim>\<open>src/src/cfsock.rs\<close>: the listening sockets. The system calls and the builders of \<^verbatim>\<open>net2\<close> are
  parameters: a new socket is a value of any type, and each call has an outcome that depends on it.
\<close>

record 'fd sock_ops =
  builder_new_v4 :: "('fd, io_error) result"
  builder_new_v6 :: "('fd, io_error) result"
  reuse_address :: "'fd \<Rightarrow> (unit, io_error) result"
  setsockopt_freebind :: "'fd \<Rightarrow> int" \<comment> \<open>the return value of \<^verbatim>\<open>setsockopt\<close>\<close>
  last_os_error :: string
  sock_bind :: "'fd \<Rightarrow> socket_addr \<Rightarrow> (unit, io_error) result"
  sock_listen :: "'fd \<Rightarrow> nat \<Rightarrow> (unit, io_error) result"

definition set_freebind :: "'fd sock_ops \<Rightarrow> 'fd \<Rightarrow> (unit, io_error) result" where
  "set_freebind ops fd =
     (if setsockopt_freebind ops fd = -1 then Err (Io_Error Other (last_os_error ops)) else Ok ())"

definition tcp_listener :: "'fd sock_ops \<Rightarrow> socket_addr \<Rightarrow> ('fd, io_error) result" where
  "tcp_listener ops addr =
     bind_r (if is_ipv4 addr then builder_new_v4 ops else builder_new_v6 ops) (\<lambda>builder.
     bind_r (reuse_address ops builder) (\<lambda>_.
     bind_r (set_freebind ops builder) (\<lambda>_.
     bind_r (sock_bind ops builder addr) (\<lambda>_.
     bind_r (sock_listen ops builder 128) (\<lambda>_.
     Ok builder)))))"

definition udp_listen :: "'fd sock_ops \<Rightarrow> socket_addr \<Rightarrow> ('fd, io_error) result" where
  "udp_listen ops addr =
     bind_r (if is_ipv4 addr then builder_new_v4 ops else builder_new_v6 ops) (\<lambda>builder.
     bind_r (reuse_address ops builder) (\<lambda>_.
     bind_r (set_freebind ops builder) (\<lambda>_.
     bind_r (sock_bind ops builder addr) (\<lambda>_.
     Ok builder))))"

text \<open>A socket that is returned was created for the family of the address and bound to it.\<close>

lemma udp_listen_OkE:
  assumes "udp_listen ops addr = Ok fd"
  shows "(if is_ipv4 addr then builder_new_v4 ops else builder_new_v6 ops) = Ok fd"
    and "sock_bind ops fd addr = Ok ()" and "setsockopt_freebind ops fd \<noteq> -1"
  using assms by (auto simp: udp_listen_def set_freebind_def result_simps split: if_splits)

lemma tcp_listener_OkE:
  assumes "tcp_listener ops addr = Ok fd"
  shows "(if is_ipv4 addr then builder_new_v4 ops else builder_new_v6 ops) = Ok fd"
    and "sock_bind ops fd addr = Ok ()" and "setsockopt_freebind ops fd \<noteq> -1" and "sock_listen ops fd 128 = Ok ()"
  using assms by (auto simp: tcp_listener_def set_freebind_def result_simps split: if_splits)

text \<open>The listening sockets never panic when the system calls below them return.\<close>

lemma listen_no_panic:
  assumes "\<not> panics (builder_new_v4 ops)" and "\<not> panics (builder_new_v6 ops)"
    and "\<And>fd. \<not> panics (reuse_address ops fd)" and "\<And>fd. \<not> panics (sock_bind ops fd addr)"
    and "\<And>fd. \<not> panics (sock_listen ops fd 128)"
  shows "\<not> panics (tcp_listener ops addr)" and "\<not> panics (udp_listen ops addr)"
  using assms by (auto simp: tcp_listener_def udp_listen_def set_freebind_def panics_bind_r)

end
