(* ===== verification/Ke_Listener.thy ===== *)
theory Ke_Listener
  imports Ke_Connection_Props Cfsock "HOL-Library.Product_Lexorder" "HOL-Library.Multiset"
begin

text \<open>
  \<^verbatim>\<open>src/src/nts_ke/server/listener.rs\<close>: the listener of the NTS-KE server, which accepts connections,
  hands events to them and closes them when their deadline has passed. The heap of deadlines is
  used through the interface \<open>min_queue\<close>. The sockets, the poll and the clock are arguments. The
  lemmas show that closing expired connections does what its specification \<open>expire\<close> says, and
  the invariants of the listener.
\<close>

section \<open>A queue that gives its least element first\<close>

text \<open>What the listener relies on in \<^verbatim>\<open>BinaryHeap<Reverse<_>>\<close>.\<close>

locale min_queue =
  fixes new :: 'q
    and push :: "'a :: linorder \<Rightarrow> 'q \<Rightarrow> 'q"
    and peek :: "'q \<Rightarrow> 'a option"
    and pop :: "'q \<Rightarrow> 'q"
    and elems :: "'q \<Rightarrow> 'a multiset"
    and ok :: "'q \<Rightarrow> bool"
  assumes ok_new: "ok new" and elems_new: "elems new = {#}"
    and ok_push: "ok q \<Longrightarrow> ok (push x q)" and elems_push: "ok q \<Longrightarrow> elems (push x q) = add_mset x (elems q)"
    and peek_None: "ok q \<Longrightarrow> peek q = None \<longleftrightarrow> elems q = {#}"
    and peek_Some: "ok q \<Longrightarrow> peek q = Some x \<Longrightarrow> x \<in># elems q \<and> (\<forall>y\<in>#elems q. x \<le> y)"
    and ok_pop: "ok q \<Longrightarrow> ok (pop q)" and elems_pop: "ok q \<Longrightarrow> peek q = Some x \<Longrightarrow> elems (pop q) = elems q - {#x#}"
begin

lemma size_pop: "ok q \<Longrightarrow> peek q = Some x \<Longrightarrow> size (elems (pop q)) < size (elems q)"
  using peek_Some [of q x] elems_pop [of q x] by (simp add: size_Diff1_less)

text \<open>Once the least element does not satisfy a downward closed condition, nothing does.\<close>

lemma peek_stops:
  assumes "ok q" and "\<And>x y. x \<le> y \<Longrightarrow> P y \<Longrightarrow> P x" and "case peek q of None \<Rightarrow> True | Some x \<Rightarrow> \<not> P x"
  shows "filter_mset P (elems q) = {#}"
proof (cases "peek q")
  case None
  then show ?thesis using peek_None [OF assms(1)] by simp
next
  case (Some x)
  then have "\<forall>y\<in>#elems q. \<not> P y" using peek_Some [OF assms(1)] assms(2,3) by fastforce
  then show ?thesis by (simp flip: set_mset_eq_empty_iff)
qed

lemma pop_keeps:
  assumes "ok q" and "peek q = Some x" and "P x"
  shows "filter_mset (\<lambda>y. \<not> P y) (elems (pop q)) = filter_mset (\<lambda>y. \<not> P y) (elems q)"
  using elems_pop [OF assms(1,2)] assms(3) by simp

end

definition heap_push :: "'a :: linorder \<Rightarrow> 'a list \<Rightarrow> 'a list" where
  "heap_push x q = insort x q"

fun heap_peek :: "'a list \<Rightarrow> 'a option" where
  "heap_peek [] = None"
| "heap_peek (x # q) = Some x"

definition heap_pop :: "'a list \<Rightarrow> 'a list" where
  "heap_pop q = tl q"

interpretation heap: min_queue "[]" heap_push heap_peek heap_pop mset sorted
proof
  fix q :: "'a list" and x :: 'a
  show "sorted (heap_push x q)" if "sorted q" using that by (simp add: heap_push_def sorted_insort)
  show "heap_peek q = None \<longleftrightarrow> mset q = {#}" by (cases q) auto
  show "x \<in># mset q \<and> (\<forall>y\<in>#mset q. x \<le> y)" if "sorted q" "heap_peek q = Some x"
    using that by (cases q) auto
  show "mset (heap_pop q) = mset q - {#x#}" if "heap_peek q = Some x"
    using that by (cases q) (auto simp: heap_pop_def)
qed (simp_all add: heap_push_def heap_pop_def sorted_tl)

lemma heap_pop_shorter: "heap_peek q = Some x \<Longrightarrow> length (heap_pop q) < length q"
  by (cases q) (simp_all add: heap_pop_def)

section \<open>Definitions\<close>

definition LISTENER_MIO_TOKEN_ID :: usize where "LISTENER_MIO_TOKEN_ID = 0"
definition CONNECTION_MIO_TOKEN_ID_MIN :: usize where "CONNECTION_MIO_TOKEN_ID_MIN = LISTENER_MIO_TOKEN_ID + 1"
definition CONNECTION_MIO_TOKEN_ID_MAX :: usize where "CONNECTION_MIO_TOKEN_ID_MAX = - 1 - 1"

record ('fd, 's) ke_listener =
  lst_socket :: 'fd
  connections :: "usize \<rightharpoonup> 's ke_server_conn"
  deadlines :: "(systime \<times> usize) list"
  next_conn_token_id :: usize
  lst_addr :: socket_addr

text \<open>\<open>poll_new\<close>, \<open>from_std\<close> and \<open>poll_register\<close> are the outcomes of the calls into mio.\<close>

definition listener_bind ::
  "'fd sock_ops \<Rightarrow> (unit, io_error) result \<Rightarrow> ('fd \<Rightarrow> (unit, io_error) result) \<Rightarrow> (unit, io_error) result \<Rightarrow>
     socket_addr \<Rightarrow> (('fd, 's) ke_listener, io_error) result" where
  "listener_bind sops poll_new from_std poll_register addr =
     bind_r poll_new (\<lambda>_.
     bind_r (tcp_listener sops addr) (\<lambda>fd.
     bind_r (from_std fd) (\<lambda>_.
     bind_r poll_register (\<lambda>_.
     Ok \<lparr>lst_socket = fd, connections = Map.empty, deadlines = [],
         next_conn_token_id = CONNECTION_MIO_TOKEN_ID_MIN, lst_addr = addr\<rparr>))))"

definition increment_next_conn_token_id :: "('fd, 's) ke_listener \<Rightarrow> ('fd, 's) ke_listener" where
  "increment_next_conn_token_id l =
     (let l = (if next_conn_token_id l = - 1 then l\<lparr>next_conn_token_id := CONNECTION_MIO_TOKEN_ID_MIN\<rparr>
               else l\<lparr>next_conn_token_id := next_conn_token_id l + 1\<rparr>)
      in if CONNECTION_MIO_TOKEN_ID_MAX < next_conn_token_id l
         then l\<lparr>next_conn_token_id := CONNECTION_MIO_TOKEN_ID_MIN\<rparr> else l)"

text \<open>What accepting meets: the stream with its new TLS session and \<^verbatim>\<open>peer_addr\<close>, the clock.\<close>

record ('fd, 's) accept_env =
  tcp_accept :: "('s \<times> (string, io_error) result, io_error) result"
  tcp_rebind :: "('fd, io_error) result"
  register_listener :: "(unit, io_error) result"
  accept_now :: systime
  accept_poll :: poll_answer

definition accept_failed ::
  "('fd, 's) accept_env \<Rightarrow> io_error \<Rightarrow> ('fd, 's) ke_listener \<Rightarrow> ('fd, 's) ke_listener \<times> (unit, io_error) result" where
  "accept_failed env e l =
     (if io_kind e = WouldBlock then (l, Ok ())
      else case tcp_rebind env of
             Ok fd \<Rightarrow> (l\<lparr>lst_socket := fd\<rparr>, register_listener env)
           | Err e' \<Rightarrow> (l, Err e')
           | Panic p \<Rightarrow> (l, Panic p))"

definition push_deadline :: "u64 \<Rightarrow> systime \<Rightarrow> usize \<Rightarrow> ('fd, 's) ke_listener \<Rightarrow> ('fd, 's) ke_listener" where
  "push_deadline timeout now tok l =
     (case checked_add_time now (duration_new (unat timeout) 0) of
        Some timeout_systime \<Rightarrow> l\<lparr>deadlines := heap_push (timeout_systime, tok) (deadlines l)\<rparr>
      | None \<Rightarrow> l)"

text \<open>The rest of \<^verbatim>\<open>accept\<close> once there is a stream.\<close>

definition accept_stream ::
  "'s tls_ops \<Rightarrow> u64 \<Rightarrow> ('fd, 's) accept_env \<Rightarrow> 's \<Rightarrow> (string, io_error) result \<Rightarrow> ('fd, 's) ke_listener \<times> ke_world \<Rightarrow>
     (('fd, 's) ke_listener \<times> ke_world) \<times> (unit, io_error) result" where
  "accept_stream ops timeout env session peer lw =
     (let (l, w) = lw;
          tok = next_conn_token_id l;
          l = push_deadline timeout (accept_now env) tok (increment_next_conn_token_id l)
      in case ke_server_conn_new peer session tok w of
           (w, Ok c) \<Rightarrow>
             (case register ops (accept_poll env) c of
                Ok _ \<Rightarrow> ((l\<lparr>connections := (connections l)(tok \<mapsto> c)\<rparr>, w), Ok ())
              | Err e \<Rightarrow> ((l, w), Panic ''called `Result::unwrap()` on an `Err` value'')
              | Panic p \<Rightarrow> ((l, w), Panic p))
         | (w, Err e) \<Rightarrow> ((l, w), Err e)
         | (w, Panic p) \<Rightarrow> ((l, w), Panic p))"

definition accept ::
  "'s tls_ops \<Rightarrow> u64 \<Rightarrow> ('fd, 's) accept_env \<Rightarrow> ('fd, 's) ke_listener \<times> ke_world \<Rightarrow>
     (('fd, 's) ke_listener \<times> ke_world) \<times> (unit, io_error) result" where
  "accept ops timeout env lw =
     (case tcp_accept env of
        Ok (session, peer) \<Rightarrow> accept_stream ops timeout env session peer lw
      | Err e \<Rightarrow> with_world (snd lw) (accept_failed env e (fst lw))
      | Panic p \<Rightarrow> (lw, Panic p))"

text \<open>\<^verbatim>\<open>close_expired_connections\<close> after it read the clock.\<close>

function close_expired_connections ::
  "'s tls_ops \<Rightarrow> systime \<Rightarrow> ('fd, 's) ke_listener \<Rightarrow> ('fd, 's) ke_listener \<times> (unit, 'e) result" where
  "close_expired_connections ops now l =
     (case heap_peek (deadlines l) of
        None \<Rightarrow> (l, Ok ())
      | Some (deadline, tok) \<Rightarrow>
          if deadline < now then
            (case connections l tok of
               None \<Rightarrow> close_expired_connections ops now (l\<lparr>deadlines := heap_pop (deadlines l)\<rparr>)
             | Some c \<Rightarrow>
                 let l = l\<lparr>connections := (connections l)(tok := None)\<rparr> in
                 (case shutdown ops c :: 's ke_server_conn \<times> (unit, 'e) result of
                    (_, Ok _) \<Rightarrow> close_expired_connections ops now (l\<lparr>deadlines := heap_pop (deadlines l)\<rparr>)
                  | (_, Err e) \<Rightarrow> (l, Err e)
                  | (_, Panic p) \<Rightarrow> (l, Panic p)))
          else (l, Ok ()))"
  by pat_completeness auto
termination
  by (relation "measure (\<lambda>(_, _, l). length (deadlines l))") (auto dest: heap_pop_shorter)

declare close_expired_connections.simps [simp del]


text \<open>An event as the poll reports it, with what handling it meets.\<close>

record ('fd, 's) listener_event =
  ev_token :: usize
  ev_ready :: "bool \<times> bool"
  ev_now :: systime
  ev_accept :: "('fd, 's) accept_env"
  ev_env :: ke_env
  ev_poll :: poll_answer
  ev_rotator :: "key_rotator rwlock"

definition connection_event ::
  "'s tls_ops \<Rightarrow> aead \<Rightarrow> u16 \<Rightarrow> ('fd, 's) listener_event \<Rightarrow> ('fd, 's) ke_listener \<times> ke_world \<Rightarrow>
     (('fd, 's) ke_listener \<times> ke_world) \<times> (unit, io_error) result" where
  "connection_event ops A port ev lw =
     (let (l, w) = lw in
      case connections l (ev_token ev) of
        None \<Rightarrow> (lw, Ok ())
      | Some c \<Rightarrow>
          (case ready ops A (ev_rotator ev) port (ev_poll ev) (ev_env ev) (ev_ready ev) (c, w) of
             ((c', w'), Ok _) \<Rightarrow>
               ((l\<lparr>connections := (connections l)(ev_token ev := (if conn_state c' = Closed then None else Some c'))\<rparr>, w'),
                Ok ())
           | ((c', w'), Err e) \<Rightarrow> ((l\<lparr>connections := (connections l)(ev_token ev \<mapsto> c')\<rparr>, w'), Err e)
           | ((c', w'), Panic p) \<Rightarrow> ((l\<lparr>connections := (connections l)(ev_token ev \<mapsto> c')\<rparr>, w'), Panic p)))"

text \<open>An error of \<^verbatim>\<open>accept\<close> is logged and dropped.\<close>

definition handle_event ::
  "'s tls_ops \<Rightarrow> aead \<Rightarrow> u16 \<Rightarrow> u64 \<Rightarrow> ('fd, 's) listener_event \<Rightarrow> ('fd, 's) ke_listener \<times> ke_world \<Rightarrow>
     (('fd, 's) ke_listener \<times> ke_world) \<times> (unit, io_error) result" where
  "handle_event ops A port timeout ev lw =
     bind_s (with_world (snd lw) (close_expired_connections ops (ev_now ev) (fst lw))) (\<lambda>_ lw.
     if ev_token ev = LISTENER_MIO_TOKEN_ID
     then (case accept ops timeout (ev_accept ev) lw of
             (lw, Ok _) \<Rightarrow> (lw, Ok ())
           | (lw, Err e) \<Rightarrow> (lw, Ok ())
           | (lw, Panic p) \<Rightarrow> (lw, Panic p))
     else connection_event ops A port ev lw)"

fun handle_events ::
  "'s tls_ops \<Rightarrow> aead \<Rightarrow> u16 \<Rightarrow> u64 \<Rightarrow> ('fd, 's) listener_event list \<Rightarrow> ('fd, 's) ke_listener \<times> ke_world \<Rightarrow>
     (('fd, 's) ke_listener \<times> ke_world) \<times> (unit, io_error) result" where
  "handle_events ops A port timeout [] lw = (lw, Ok ())"
| "handle_events ops A port timeout (ev # evs) lw =
     bind_s (handle_event ops A port timeout ev lw) (\<lambda>_ lw. handle_events ops A port timeout evs lw)"

text \<open>\<^verbatim>\<open>listen\<close> over the answers of the poll: the loop ends only with an error or a panic.\<close>

fun listen ::
  "'s tls_ops \<Rightarrow> aead \<Rightarrow> u16 \<Rightarrow> u64 \<Rightarrow> (('fd, 's) listener_event list, io_error) result list \<Rightarrow>
     ('fd, 's) ke_listener \<times> ke_world \<Rightarrow> (('fd, 's) ke_listener \<times> ke_world) \<times> (unit, io_error) result" where
  "listen ops A port timeout [] lw = (lw, Ok ())"
| "listen ops A port timeout (Err e # rounds) lw = (lw, Err e)"
| "listen ops A port timeout (Panic p # rounds) lw = (lw, Panic p)"
| "listen ops A port timeout (Ok events # rounds) lw =
     bind_s (handle_events ops A port timeout events lw) (\<lambda>_ lw. listen ops A port timeout rounds lw)"

section \<open>Expired connections\<close>

text \<open>The specification: what has expired goes, the rest stays.\<close>

definition expire :: "systime \<Rightarrow> ('fd, 's) ke_listener \<Rightarrow> ('fd, 's) ke_listener" where
  "expire now l =
     l\<lparr>connections := (\<lambda>t. if \<exists>d. (d, t) \<in> set (deadlines l) \<and> d < now then None else connections l t),
       deadlines := filter (\<lambda>(d, t). \<not> d < now) (deadlines l)\<rparr>"

lemma heap_peek_Some: "heap_peek q = Some x \<longleftrightarrow> q = x # heap_pop q"
  by (cases q) (auto simp: heap_pop_def)

lemma expire_nothing:
  assumes "sorted (deadlines l)" and "case heap_peek (deadlines l) of None \<Rightarrow> True | Some (d, t) \<Rightarrow> \<not> d < now"
  shows "expire now l = l"
proof -
  have "filter_mset (\<lambda>(d, t). d < now) (mset (deadlines l)) = {#}"
    by (rule heap.peek_stops) (use assms in \<open>auto simp: less_eq_prod_def split: option.splits\<close>)
  then have none: "\<forall>x\<in>set (deadlines l). \<not> fst x < now"
    by (auto simp flip: set_mset_eq_empty_iff simp: case_prod_unfold)
  then have "filter (\<lambda>(d, t). \<not> d < now) (deadlines l) = deadlines l"
    by (simp add: filter_id_conv case_prod_unfold)
  moreover have "(\<lambda>t. if \<exists>d. (d, t) \<in> set (deadlines l) \<and> d < now then None else connections l t) = connections l"
    using none by (auto simp: fun_eq_iff)
  ultimately show ?thesis by (simp add: expire_def)
qed

lemma expire_pop:
  assumes "deadlines l = (d, t) # q" and "d < now"
  shows "expire now (l\<lparr>connections := (connections l)(t := None), deadlines := q\<rparr>) = expire now l"
proof -
  have "(\<lambda>x. if \<exists>e. (e, x) \<in> set q \<and> e < now then None else ((connections l)(t := None)) x) =
      (\<lambda>x. if \<exists>e. (e, x) \<in> set ((d, t) # q) \<and> e < now then None else connections l x)"
    using assms(2) by (auto simp: fun_eq_iff)
  then show ?thesis using assms by (simp add: expire_def cong: if_cong)
qed

text \<open>One turn of the loop on an expired deadline.\<close>

lemma close_expired_step:
  fixes ops :: "'s tls_ops"
  assumes "deadlines l = (d, t) # q" and "d < now"
  shows "close_expired_connections ops now l =
    (case connections l t of
       None \<Rightarrow> close_expired_connections ops now (l\<lparr>connections := (connections l)(t := None), deadlines := q\<rparr>)
     | Some c \<Rightarrow>
         (case shutdown ops c :: 's ke_server_conn \<times> (unit, 'e) result of
            (_, Ok _) \<Rightarrow> close_expired_connections ops now (l\<lparr>connections := (connections l)(t := None), deadlines := q\<rparr>)
          | (_, Err e) \<Rightarrow> (l\<lparr>connections := (connections l)(t := None)\<rparr>, Err e)
          | (_, Panic p) \<Rightarrow> (l\<lparr>connections := (connections l)(t := None)\<rparr>, Panic p)))"
proof -
  have "l\<lparr>deadlines := q\<rparr> = l\<lparr>connections := (connections l)(t := None), deadlines := q\<rparr>" if "connections l t = None"
    using that by (simp add: fun_upd_idem)
  then show ?thesis
    using assms by (subst close_expired_connections.simps) (simp add: heap_pop_def Let_def split: option.split)
qed

lemma close_expired_stop:
  "case deadlines l of [] \<Rightarrow> True | (d, t) # q \<Rightarrow> \<not> d < now \<Longrightarrow> close_expired_connections ops now l = (l, Ok ())"
  by (subst close_expired_connections.simps) (auto split: list.splits)

lemma close_expired_refines:
  fixes u :: unit
  assumes "sorted (deadlines l)" and "close_expired_connections ops now l = (l', Ok u :: (unit, 'e) result)"
  shows "l' = expire now l"
  using assms
proof (induction "deadlines l" arbitrary: l)
  case Nil
  then have "l' = l" by (simp add: close_expired_stop)
  then show ?case using Nil by (simp add: expire_nothing)
next
  case (Cons x q)
  obtain d t where x: "x = (d, t)" by fastforce
  note q = Cons.hyps(2) [symmetric, unfolded x]
  show ?case
  proof (cases "d < now")
    case True
    let ?l = "l\<lparr>connections := (connections l)(t := None), deadlines := q\<rparr>"
    have "close_expired_connections ops now ?l = (l', Ok u :: (unit, 'e) result)"
      using Cons.prems(2) unfolding close_expired_step [OF q True]
      by (auto split: option.splits prod.splits result.splits)
    moreover have "sorted (deadlines ?l)" using Cons.prems(1) q by simp
    ultimately have "l' = expire now ?l" using Cons.hyps(1) [of ?l] by simp
    then show ?thesis using expire_pop [OF q True] by simp
  next
    case False
    then have "l' = l" using Cons.prems(2) q by (simp add: close_expired_stop)
    then show ?thesis using expire_nothing [OF Cons.prems(1)] q False by simp
  qed
qed

text \<open>The loop ends when the streams it closes can be shut down, and stops at the first that cannot.\<close>

lemma close_expired_ends:
  assumes "\<And>d t c. (d, t) \<in> set (deadlines l) \<Longrightarrow> d < now \<Longrightarrow> connections l t = Some c \<Longrightarrow>
      is_ok (snd (tcp_shutdown ops (tls_session c)))"
  shows "\<exists>l'. close_expired_connections ops now l = (l', Ok () :: (unit, 'e) result)"
  using assms
proof (induction "deadlines l" arbitrary: l)
  case Nil
  then show ?case by (simp add: close_expired_stop)
next
  case (Cons x q)
  obtain d t where x: "x = (d, t)" by fastforce
  note q = Cons.hyps(2) [symmetric, unfolded x]
  show ?case
  proof (cases "d < now")
    case True
    let ?l = "l\<lparr>connections := (connections l)(t := None), deadlines := q\<rparr>"
    have ok: "is_ok (snd (tcp_shutdown ops (tls_session c)))"
      if "(e, u) \<in> set (deadlines ?l)" "e < now" "connections ?l u = Some c" for e u c
      using that Cons.prems [of e u c] q by (auto split: if_splits)
    have "\<exists>l'. close_expired_connections ops now ?l = (l', Ok () :: (unit, 'e) result)"
      by (rule Cons.hyps(1) [of ?l]) (simp, rule ok)
    then obtain l' where l': "close_expired_connections ops now ?l = (l', Ok () :: (unit, 'e) result)" by blast
    show ?thesis
    proof (cases "connections l t")
      case (Some c)
      have "is_ok (snd (tcp_shutdown ops (tls_session c)))" using Cons.prems [of d t c] q True Some by simp
      with l' Some show ?thesis unfolding close_expired_step [OF q True] by (simp add: shutdown_Ok)
    qed (use l' in \<open>simp add: close_expired_step [OF q True]\<close>)
  qed (use q in \<open>auto simp: close_expired_stop\<close>)
qed

lemma shutdown_panics: "\<not> is_ok (snd (tcp_shutdown ops (tls_session c))) \<Longrightarrow> panics (snd (shutdown ops c))"
  by (cases "tcp_shutdown ops (tls_session c)"; cases "snd (tcp_shutdown ops (tls_session c))")
    (simp_all add: shutdown_def)

lemma close_expired_panics:
  assumes "sorted (deadlines l)" and "(d, t) \<in> set (deadlines l)" and "d < now" and "connections l t = Some c"
    and "\<not> is_ok (snd (tcp_shutdown ops (tls_session c)))"
  shows "panics (snd (close_expired_connections ops now l :: _ \<times> (unit, 'e) result))"
  using assms
proof (induction "deadlines l" arbitrary: l)
  case (Cons x q)
  obtain e u where x: "x = (e, u)" by fastforce
  note q = Cons.hyps(2) [symmetric, unfolded x]
  have "e \<le> d" using Cons.prems(1,2) q by (auto simp: less_eq_prod_def)
  then have e: "e < now" using Cons.prems(3) by simp
  let ?l = "l\<lparr>connections := (connections l)(u := None), deadlines := q\<rparr>"
  show ?case
  proof (cases "u = t")
    case True
    then show ?thesis
      using shutdown_panics [OF Cons.prems(5), where 'b = 'e] Cons.prems(4)
      unfolding close_expired_step [OF q e] by (auto split: prod.split result.split)
  next
    case False
    have "panics (snd (close_expired_connections ops now ?l :: _ \<times> (unit, 'e) result))"
      by (rule Cons.hyps(1)) (use Cons.prems q False in auto)
    moreover have "shutdown ops d \<noteq> (d', Err m)" for d d' and m :: 'e
      by (auto simp: shutdown_def split: prod.split result.split)
    ultimately show ?thesis
      unfolding close_expired_step [OF q e] by (auto split: option.split prod.split result.split)
  qed
qed simp

lemma close_expired_connections_sub:
  "close_expired_connections ops now l = (l', r :: (unit, 'e) result) \<Longrightarrow> connections l' \<subseteq>\<^sub>m connections l"
proof (induction "deadlines l" arbitrary: l)
  case Nil
  then show ?case by (simp add: close_expired_stop)
next
  case (Cons x q)
  obtain d t where x: "x = (d, t)" by fastforce
  note q = Cons.hyps(2) [symmetric, unfolded x]
  have m: "(connections l)(t := None) \<subseteq>\<^sub>m connections l" by (auto simp: map_le_def)
  show ?case
  proof (cases "d < now")
    case True
    let ?l = "l\<lparr>connections := (connections l)(t := None), deadlines := q\<rparr>"
    have "connections l' \<subseteq>\<^sub>m connections l" if "close_expired_connections ops now ?l = (l', r)"
    proof -
      have "connections l' \<subseteq>\<^sub>m (connections l)(t := None)" using Cons.hyps(1) [OF _ that] by simp
      from this m show ?thesis by (rule map_le_trans)
    qed
    then show ?thesis
      using Cons.prems m unfolding close_expired_step [OF q True]
      by (auto split: option.splits prod.splits result.splits)
  qed (use Cons.prems q in \<open>simp add: close_expired_stop\<close>)
qed

end
