(* ===== verification/Ke_Listener_Props.thy ===== *)
theory Ke_Listener_Props
  imports Ke_Listener
begin

text \<open>
  The invariants of the listener: its tokens, its connections and their deadlines, as transition
  systems over the events; that it goes on listening whatever bytes the peers send, unless it meets a
  stream that was reset; and that such a stream stops it.
\<close>

section \<open>Invariants\<close>

lemmas token_ids = LISTENER_MIO_TOKEN_ID_def CONNECTION_MIO_TOKEN_ID_MIN_def CONNECTION_MIO_TOKEN_ID_MAX_def

text \<open>Tokens of connections: neither the listener's nor mio's own.\<close>

definition conn_token :: "usize \<Rightarrow> bool" where
  "conn_token t \<longleftrightarrow> CONNECTION_MIO_TOKEN_ID_MIN \<le> t \<and> t \<le> CONNECTION_MIO_TOKEN_ID_MAX"

lemma unat_max_token: "unat CONNECTION_MIO_TOKEN_ID_MAX = 2 ^ 64 - 2"
  by (simp add: token_ids)

lemma unat_min_token: "unat CONNECTION_MIO_TOKEN_ID_MIN = 1"
  by (simp add: token_ids)

lemma conn_token_unat: "conn_token t \<longleftrightarrow> 1 \<le> unat t \<and> unat t \<le> 2 ^ 64 - 2"
  by (simp add: conn_token_def word_le_nat_alt unat_max_token unat_min_token)

lemma unat_all_ones: "unat (- 1 :: usize) = 18446744073709551615"
  by (simp add: unsigned_minus_1_eq_mask mask_eq_exp_minus_1)

lemma conn_token_not_listener: "conn_token t \<Longrightarrow> t \<noteq> LISTENER_MIO_TOKEN_ID \<and> t \<noteq> - 1"
  by (auto simp: conn_token_unat LISTENER_MIO_TOKEN_ID_def unat_all_ones)

lemma unat_succ_usize: "unat t \<le> 18446744073709551614 \<Longrightarrow> unat (t + 1 :: usize) = unat t + 1"
  by (simp add: unat_word_ariths)

lemma max_token_iff: "t = CONNECTION_MIO_TOKEN_ID_MAX \<longleftrightarrow> unat t = 18446744073709551614"
  using unat_max_token by (simp add: word_unat_eq_iff)

lemma next_token:
  assumes "conn_token (next_conn_token_id l)"
  shows "next_conn_token_id (increment_next_conn_token_id l) =
    (if next_conn_token_id l = CONNECTION_MIO_TOKEN_ID_MAX then CONNECTION_MIO_TOKEN_ID_MIN
     else next_conn_token_id l + 1)"
proof -
  let ?n = "next_conn_token_id l"
  have n: "?n \<noteq> - 1" using conn_token_not_listener [OF assms] by simp
  have le: "unat ?n \<le> 18446744073709551614" using assms by (simp add: conn_token_unat)
  have m: "unat CONNECTION_MIO_TOKEN_ID_MAX = 18446744073709551614" using unat_max_token by simp
  have "CONNECTION_MIO_TOKEN_ID_MAX < ?n + 1 \<longleftrightarrow> ?n = CONNECTION_MIO_TOKEN_ID_MAX"
    unfolding word_less_nat_alt unat_succ_usize [OF le] m max_token_iff using le by linarith
  with n show ?thesis by (auto simp: increment_next_conn_token_id_def Let_def)
qed

lemma next_token_ok:
  assumes "conn_token (next_conn_token_id l)"
  shows "conn_token (next_conn_token_id (increment_next_conn_token_id l))"
proof -
  let ?n = "next_conn_token_id l"
  have le: "unat ?n \<le> 18446744073709551614" using assms by (simp add: conn_token_unat)
  have "conn_token (?n + 1)" if "unat ?n \<noteq> 18446744073709551614"
    using le that unat_succ_usize [OF le] by (simp add: conn_token_unat)
  moreover have "conn_token CONNECTION_MIO_TOKEN_ID_MIN" by (simp add: conn_token_unat unat_min_token)
  ultimately show ?thesis unfolding next_token [OF assms] by (simp add: max_token_iff)
qed

lemma increment_fields [simp]:
  "connections (increment_next_conn_token_id l) = connections l"
  "deadlines (increment_next_conn_token_id l) = deadlines l"
  by (simp_all add: increment_next_conn_token_id_def Let_def)

lemma push_deadline_fields [simp]:
  "connections (push_deadline timeout now tok l) = connections l"
  "next_conn_token_id (push_deadline timeout now tok l) = next_conn_token_id l"
  by (simp_all add: push_deadline_def split: option.split)

lemma push_deadline_sorted: "sorted (deadlines l) \<Longrightarrow> sorted (deadlines (push_deadline timeout now tok l))"
  by (simp add: push_deadline_def heap.ok_push split: option.split)

text \<open>
  What every listener satisfies: the deadlines are ordered, the next token is one for a
  connection, and every connection carries its own token, is not closed and is in a good state.
\<close>

definition listener_inv :: "('s \<Rightarrow> bytes) \<Rightarrow> ('fd, 's) ke_listener \<Rightarrow> bool" where
  "listener_inv out l \<longleftrightarrow> sorted (deadlines l) \<and> conn_token (next_conn_token_id l) \<and>
     (\<forall>t c. connections l t = Some c \<longrightarrow>
        conn_token t \<and> token c = t \<and> conn_state c \<noteq> Closed \<and> conn_good out c)"

lemma expire_sub: "connections (expire now l) t = Some c \<Longrightarrow> connections l t = Some c"
  by (auto simp: expire_def split: if_splits)

lemma expire_deadlines: "sorted (deadlines l) \<Longrightarrow> sorted (deadlines (expire now l))"
  by (simp add: expire_def sorted_wrt_filter)

lemma expire_next: "next_conn_token_id (expire now l) = next_conn_token_id l"
  by (simp add: expire_def)

lemma expire_inv: "listener_inv out l \<Longrightarrow> listener_inv out (expire now l)"
  unfolding listener_inv_def using expire_sub [of now l] by (metis expire_deadlines expire_next)


text \<open>An accept that does not panic changes at most the socket, or adds a connection.\<close>

definition accepted ::
  "u64 \<Rightarrow> systime \<Rightarrow> 's \<Rightarrow> ('fd, 's) ke_listener \<Rightarrow> ('fd, 's) ke_listener" where
  "accepted timeout now s l =
     (let tok = next_conn_token_id l;
          c = \<lparr>tls_session = s, token = tok, conn_state = Connected, ntske_state = empty_record_state, ntske_buffer = []\<rparr>
      in (push_deadline timeout now tok (increment_next_conn_token_id l))
           \<lparr>connections := (connections l)(tok \<mapsto> c)\<rparr>)"

lemma accept_stream_cases:
  assumes "accept_stream ops timeout env s peer (l, w) = ((l', w'), r)" and "\<not> panics r"
  shows "\<exists>a. peer = Ok a \<and> w' = w\<lparr>ke_client_addr := a\<rparr> \<and> l' = accepted timeout (accept_now env) s l"
proof (cases peer)
  case (Ok a)
  let ?c = "\<lparr>tls_session = s, token = next_conn_token_id l, conn_state = Connected,
      ntske_state = empty_record_state, ntske_buffer = []\<rparr>"
  show ?thesis
    using assms Ok
    by (cases r; cases "register ops (accept_poll env) ?c")
      (auto simp: accept_stream_def ke_server_conn_new_def accepted_def Let_def)
qed (use assms in \<open>auto simp: accept_stream_def ke_server_conn_new_def Let_def\<close>)

lemma accept_failed_cases: "\<exists>fd. fst (accept_failed env e l) = l\<lparr>lst_socket := fd\<rparr>"
proof -
  have "\<exists>fd. l = l\<lparr>lst_socket := fd\<rparr>" by (rule exI [of _ "lst_socket l"]) simp
  then show ?thesis by (cases "tcp_rebind env") (auto simp: accept_failed_def)
qed

lemma accept_cases:
  assumes "accept ops timeout env (l, w) = ((l', w'), r)" and "\<not> panics r"
  obtains fd where "l' = l\<lparr>lst_socket := fd\<rparr>" and "w' = w"
  | s a where "tcp_accept env = Ok (s, Ok a)" and "w' = w\<lparr>ke_client_addr := a\<rparr>"
      and "l' = accepted timeout (accept_now env) s l"
proof (cases "tcp_accept env")
  case (Ok x)
  obtain s peer where x: "x = (s, peer)" by fastforce
  from accept_stream_cases [of ops timeout env s peer l w l' w' r] assms Ok x that(2)
  show thesis by (auto simp: accept_def)
next
  case (Err e)
  from accept_failed_cases [of env e l] assms(1) Err that(1)
  show thesis by (auto simp: accept_def with_world_def split: prod.splits)
qed (use assms in \<open>auto simp: accept_def\<close>)

lemma accepted_inv:
  assumes "listener_inv out l" and "out s = []"
  shows "listener_inv out (accepted timeout now s l)"
proof -
  let ?c = "\<lparr>tls_session = s, token = next_conn_token_id l, conn_state = Connected,
      ntske_state = empty_record_state, ntske_buffer = []\<rparr>"
  have g: "conn_good out ?c"
    using assms(2) by (simp add: conn_good_def conn_inv_def conn_out_def)
  have "sorted (deadlines (push_deadline timeout now (next_conn_token_id l) (increment_next_conn_token_id l)))"
    using assms(1) by (intro push_deadline_sorted) (simp add: listener_inv_def)
  with g assms(1) show ?thesis
    using next_token_ok [of l] by (auto simp: listener_inv_def accepted_def Let_def)
qed

text \<open>The events of a connection.\<close>

lemma connection_event_OkE:
  fixes u :: unit
  assumes "connection_event ops A port ev (l, w) = ((l', w'), Ok u)"
  obtains (gone) "connections l (ev_token ev) = None" and "l' = l" and "w' = w"
  | (there) c c' where "connections l (ev_token ev) = Some c"
      and "ready ops A (ev_rotator ev) port (ev_poll ev) (ev_env ev) (ev_ready ev) (c, w) =
             ((c', w'), Ok () :: (unit, io_error) result)"
      and "l' = l\<lparr>connections := (connections l)(ev_token ev := (if conn_state c' = Closed then None else Some c'))\<rparr>"
proof (cases "connections l (ev_token ev)")
  case (Some c)
  obtain c' w1 r where r: "ready ops A (ev_rotator ev) port (ev_poll ev) (ev_env ev) (ev_ready ev) (c, w) =
      ((c', w1), r :: (unit, io_error) result)" by (metis prod.exhaust)
  show thesis
    by (rule there [OF Some, of c']) (use assms r in \<open>cases r; simp add: connection_event_def Some\<close>)+
next
  case None
  show thesis by (rule gone [OF None]) (use assms in \<open>simp_all add: connection_event_def None\<close>)
qed

lemma handle_event_OkE:
  fixes u :: unit
  assumes "handle_event ops A port timeout ev (l, w) = ((l', w'), Ok u)" and "sorted (deadlines l)"
  obtains (listener) r where "ev_token ev = LISTENER_MIO_TOKEN_ID"
      and "accept ops timeout (ev_accept ev) (expire (ev_now ev) l, w) = ((l', w'), r)" and "\<not> panics r"
  | (connection) "ev_token ev \<noteq> LISTENER_MIO_TOKEN_ID"
      and "connection_event ops A port ev (expire (ev_now ev) l, w) = ((l', w'), Ok ())"
proof -
  obtain l1 v where c: "close_expired_connections ops (ev_now ev) l = (l1, Ok v :: (unit, io_error) result)"
    and b: "(if ev_token ev = LISTENER_MIO_TOKEN_ID
     then (case accept ops timeout (ev_accept ev) (l1, w) of
             (lw, Ok _) \<Rightarrow> (lw, Ok ())
           | (lw, Err e) \<Rightarrow> (lw, Ok ())
           | (lw, Panic p) \<Rightarrow> (lw, Panic p))
     else connection_event ops A port ev (l1, w)) = ((l', w'), Ok u)"
    using assms(1) by (auto simp: handle_event_def bind_s_eq_Ok with_world_eq)
  have l1: "l1 = expire (ev_now ev) l" by (rule close_expired_refines [OF assms(2) c])
  show thesis
  proof (cases "ev_token ev = LISTENER_MIO_TOKEN_ID")
    case True
    obtain lw r where r: "accept ops timeout (ev_accept ev) (l1, w) = (lw, r)" by fastforce
    show thesis by (rule listener [OF True, of r]) (use b r l1 True in \<open>cases r; simp\<close>)+
  next
    case False
    then show thesis using b connection l1 by simp
  qed
qed


text \<open>Handling an event never changes the token of a connection.\<close>

lemma bind_s_state:
  assumes "P (fst x)" and "\<And>a s. P s \<Longrightarrow> P (fst (f a s))"
  shows "P (fst (bind_s x f))"
  using assms by (cases x; cases "snd x") auto

lemma token_shutdown [simp]: "token (fst (shutdown ops c)) = token c"
  by (simp add: shutdown_def split: prod.split result.split)

lemma fst_with_world [simp]: "fst (fst (with_world w cr)) = fst cr"
  by (simp add: with_world_def split: prod.split)

lemma token_start_handshake [simp]: "token (start_handshake c) = token c"
  by (simp add: start_handshake_def)

lemma token_send_response [simp]: "token (fst (fst (send_response ops A rotator port env keys (c, w)))) = token c"
  by (simp add: send_response_def split: prod.split result.split)

lemma token_after_loop [simp]: "token (fst (fst (after_loop ops A rotator port env keys lr (c, w)))) = token c"
  by (cases lr) (simp add: after_loop_def Let_def split: result.split loop_exit.split)

lemma token_read_plaintext [simp]: "token (fst (fst (read_plaintext ops A rotator port env buf (c, w)))) = token c"
  by (simp add: read_plaintext_def with_plaintext_def Let_def split: result.split)

lemma token_read_decrypted [simp]: "token (fst (fst (read_decrypted ops A rotator port env (c, w)))) = token c"
  by (simp add: read_decrypted_def split: prod.split result.split)

lemma token_process_packets [simp]: "token (fst (process_packets ops c)) = token c"
  by (simp add: process_packets_def split: prod.split result.split)

lemma token_write_ready [simp]: "token (fst (write_ready ops c)) = token c"
  by (simp add: write_ready_def split: prod.split result.split)

lemma token_read_ready: "token (fst (fst (read_ready ops A rotator port env (c, w)))) = token c"
proof -
  obtain s r where s: "read_tls ops (tls_session (start_handshake c)) = (s, r)" by fastforce
  show ?thesis
  proof (cases r)
    case (Ok n)
    then show ?thesis
      using s by (auto simp: read_ready_def Let_def intro!: bind_s_state [where P = "\<lambda>cw. token (fst cw) = token c"])
  qed (simp_all add: read_ready_def s Let_def)
qed

lemma token_ready:
  "token (fst (fst (ready ops A rotator port poll env ev (c, w) :: ('s ke_server_conn \<times> ke_world) \<times> (unit, 'e) result))) = token c"
  unfolding ready_def
  by (rule bind_s_state [where P = "\<lambda>cw. token (fst cw) = token c"],
      simp add: token_read_ready, clarsimp split del: if_split,
      rule bind_s_state [where P = "\<lambda>cw. token (fst cw) = token c"]) (auto split: if_splits)


text \<open>One event, and the life of a listener. A new TLS session has written nothing yet.\<close>

definition listener_init :: "('fd, 's) ke_listener \<Rightarrow> bool" where
  "listener_init l \<longleftrightarrow> (\<exists>sops poll_new from_std poll_register addr.
     listener_bind sops poll_new from_std poll_register addr = Ok l)"

inductive listener_step ::
  "('s \<Rightarrow> bytes) \<Rightarrow> 's tls_ops \<Rightarrow> ('fd, 's) ke_listener \<Rightarrow> ('fd, 's) ke_listener \<Rightarrow> bool" for out ops where
  listener_event: "handle_event ops A port timeout ev (l, w) = ((l', w'), Ok ()) \<Longrightarrow>
    (\<And>s p. tcp_accept (ev_accept ev) = Ok (s, p) \<Longrightarrow> out s = []) \<Longrightarrow> listener_step out ops l l'"

inductive_cases listener_stepE: "listener_step out ops l l'"

lemma listener_initD:
  "listener_init l \<Longrightarrow> connections l = Map.empty \<and> deadlines l = [] \<and> next_conn_token_id l = CONNECTION_MIO_TOKEN_ID_MIN"
  by (auto simp: listener_init_def listener_bind_def result_simps)

lemma listener_inv_init: "listener_init l \<Longrightarrow> listener_inv out l"
  by (auto dest!: listener_initD simp: listener_inv_def conn_token_unat unat_min_token)

lemma handle_event_inv:
  fixes u :: unit
  assumes log: "tls_log ops out" and inv: "listener_inv out l"
    and h: "handle_event ops A port timeout ev (l, w) = ((l', w'), Ok u)"
    and new: "\<And>s p. tcp_accept (ev_accept ev) = Ok (s, p) \<Longrightarrow> out s = []"
  shows "listener_inv out l'"
proof -
  let ?l = "expire (ev_now ev) l"
  have inv': "listener_inv out ?l" using inv by (rule expire_inv)
  have "sorted (deadlines l)" using inv by (simp add: listener_inv_def)
  from h this show ?thesis
  proof (cases rule: handle_event_OkE)
    case (listener r)
    from listener(2,3) show ?thesis
    proof (cases rule: accept_cases)
      case (1 fd)
      then show ?thesis using inv' by (simp add: listener_inv_def)
    next
      case (2 s a)
      then show ?thesis using accepted_inv [OF inv' new] by simp
    qed
  next
    case connection
    from connection(2) show ?thesis
    proof (cases rule: connection_event_OkE)
      case (there c c')
      have c: "conn_token (ev_token ev)" "token c = ev_token ev" "conn_good out c"
        using there(1) inv' by (auto simp: listener_inv_def)
      have "token c' = ev_token ev"
        using token_ready [of ops A "ev_rotator ev" port "ev_poll ev" "ev_env ev" "ev_ready ev" c w, where 'e = io_error] there(2) c(2)
        by simp
      moreover have "conn_good out c'" by (rule ready_good [OF log c(3) there(2)])
      ultimately show ?thesis using inv' c(1) there(3) by (auto simp: listener_inv_def)
    qed (use inv' in simp)
  qed
qed

interpretation listener_sys: transition_system listener_init "listener_step out ops"
    "\<lambda>l. tls_log ops out \<longrightarrow> listener_inv out l"
  for out and ops
  by unfold_locales (auto intro: listener_inv_init elim!: listener_stepE intro: handle_event_inv)

section \<open>Deadlines\<close>

text \<open>
  While tokens are fresh, every deadline belongs to one connection and every connection has one.
\<close>

definition timed_inv :: "('fd, 's) ke_listener \<Rightarrow> bool" where
  "timed_inv l \<longleftrightarrow> sorted (deadlines l) \<and> conn_token (next_conn_token_id l) \<and> distinct (map snd (deadlines l)) \<and>
     (\<forall>t\<in>snd ` set (deadlines l). t < next_conn_token_id l) \<and>
     dom (connections l) \<subseteq> snd ` set (deadlines l)"

text \<open>The tokens have not run out, and the deadline of a new connection can be represented.\<close>

definition fresh_tokens :: "u64 \<Rightarrow> ('fd, 's) listener_event \<Rightarrow> ('fd, 's) ke_listener \<Rightarrow> bool" where
  "fresh_tokens timeout ev l \<longleftrightarrow> next_conn_token_id l < CONNECTION_MIO_TOKEN_ID_MAX \<and>
     checked_add_time (accept_now (ev_accept ev)) (duration_new (unat timeout) 0) \<noteq> None"

inductive timed_step :: "'s tls_ops \<Rightarrow> u64 \<Rightarrow> ('fd, 's) ke_listener \<Rightarrow> ('fd, 's) ke_listener \<Rightarrow> bool" for ops timeout where
  timed_event: "handle_event ops A port timeout ev (l, w) = ((l', w'), Ok ()) \<Longrightarrow> fresh_tokens timeout ev l \<Longrightarrow>
    timed_step ops timeout l l'"

inductive_cases timed_stepE: "timed_step ops timeout l l'"

lemma set_heap_push [simp]: "set (heap_push x q) = insert x (set q)"
  by (simp add: heap_push_def set_insort_key)

lemma distinct_heap_push: "distinct (map f (heap_push x q)) \<longleftrightarrow> f x \<notin> f ` set q \<and> distinct (map f q)"
proof -
  have "mset (map f (heap_push x q)) = mset (map f (x # q))" by (simp add: heap_push_def)
  then have "distinct (map f (heap_push x q)) = distinct (map f (x # q))" by (rule mset_eq_imp_distinct_iff)
  then show ?thesis by simp
qed

lemma timed_inv_expire:
  assumes "timed_inv l"
  shows "timed_inv (expire now l)"
proof -
  have s: "sorted (deadlines (expire now l))" using assms by (simp add: timed_inv_def expire_deadlines)
  have d: "dom (connections (expire now l)) \<subseteq> snd ` set (deadlines (expire now l))"
  proof
    fix t assume "t \<in> dom (connections (expire now l))"
    then obtain c where c: "connections l t = Some c" "\<not> (\<exists>d. (d, t) \<in> set (deadlines l) \<and> d < now)"
      by (auto simp: expire_def split: if_splits)
    then obtain d where "(d, t) \<in> set (deadlines l)" using assms by (fastforce simp: timed_inv_def)
    with c(2) show "t \<in> snd ` set (deadlines (expire now l))" by (force simp: expire_def)
  qed
  have "distinct (map snd (deadlines (expire now l)))"
    using assms by (simp add: expire_def timed_inv_def distinct_map_filter)
  then show ?thesis using assms s d by (auto simp: timed_inv_def expire_def)
qed

lemma timed_inv_accepted:
  assumes "timed_inv l" and "next_conn_token_id l < CONNECTION_MIO_TOKEN_ID_MAX"
    and d: "checked_add_time now (duration_new (unat timeout) 0) = Some d"
  shows "timed_inv (accepted timeout now s l)" and "deadlines (accepted timeout now s l) = heap_push (d, next_conn_token_id l) (deadlines l)"
proof -
  let ?n = "next_conn_token_id l"
  show e: "deadlines (accepted timeout now s l) = heap_push (d, ?n) (deadlines l)"
    by (simp add: accepted_def Let_def push_deadline_def d)
  have ok: "conn_token ?n" using assms(1) by (simp add: timed_inv_def)
  have n: "next_conn_token_id (accepted timeout now s l) = ?n + 1"
    using assms(2) next_token [OF ok] by (auto simp: accepted_def Let_def)
  have le: "unat ?n \<le> 18446744073709551614" using ok by (simp add: conn_token_unat)
  have lt: "t < ?n + 1 \<longleftrightarrow> t < ?n \<or> t = ?n" for t
    unfolding word_less_nat_alt unat_succ_usize [OF le] word_unat_eq_iff by linarith
  have "conn_token (next_conn_token_id (accepted timeout now s l))"
    using next_token_ok [OF ok] by (simp add: accepted_def Let_def)
  moreover have "dom (connections (accepted timeout now s l)) = insert ?n (dom (connections l))"
    by (simp add: accepted_def Let_def)
  moreover have "?n \<notin> snd ` set (deadlines l)" using assms(1) by (auto simp: timed_inv_def)
  ultimately show "timed_inv (accepted timeout now s l)"
    using assms(1) unfolding timed_inv_def n e
    by (auto simp: distinct_heap_push lt heap.ok_push)
qed

lemma handle_event_timed:
  fixes u :: unit
  assumes inv: "timed_inv l" and h: "handle_event ops A port timeout ev (l, w) = ((l', w'), Ok u)"
    and fresh: "fresh_tokens timeout ev l"
  shows "timed_inv l'" and "ev_now ev \<le> accept_now (ev_accept ev) \<Longrightarrow> \<forall>d\<in>fst ` set (deadlines l'). ev_now ev \<le> d"
proof -
  let ?l = "expire (ev_now ev) l"
  have inv': "timed_inv ?l" using inv by (rule timed_inv_expire)
  have live: "\<forall>d\<in>fst ` set (deadlines ?l). ev_now ev \<le> d" by (auto simp: expire_def)
  have fresh': "next_conn_token_id ?l < CONNECTION_MIO_TOKEN_ID_MAX"
    using fresh by (simp add: fresh_tokens_def expire_next)
  obtain d where d: "checked_add_time (accept_now (ev_accept ev)) (duration_new (unat timeout) 0) = Some d"
    using fresh by (auto simp: fresh_tokens_def)
  have "sorted (deadlines l)" using inv by (simp add: timed_inv_def)
  from h this have "timed_inv l' \<and> (ev_now ev \<le> accept_now (ev_accept ev) \<longrightarrow> (\<forall>d\<in>fst ` set (deadlines l'). ev_now ev \<le> d))"
  proof (cases rule: handle_event_OkE)
    case (listener r)
    from listener(2,3) show ?thesis
    proof (cases rule: accept_cases)
      case (1 fd)
      then show ?thesis using inv' live by (simp add: timed_inv_def)
    next
      case (2 s a)
      have "accept_now (ev_accept ev) \<le> d" using d by (auto simp: checked_add_time_def split: if_splits)
      then show ?thesis using timed_inv_accepted [OF inv' fresh' d] live 2(3) by auto
    qed
  next
    case connection
    from connection(2) show ?thesis
    proof (cases rule: connection_event_OkE)
      case (there c c')
      have "dom (connections l') \<subseteq> dom (connections ?l)" using there(1,3) by (auto split: if_splits)
      then show ?thesis using inv' live there(3) by (auto simp: timed_inv_def)
    qed (use inv' live in simp)
  qed
  then show "timed_inv l'" and "ev_now ev \<le> accept_now (ev_accept ev) \<Longrightarrow> \<forall>d\<in>fst ` set (deadlines l'). ev_now ev \<le> d"
    by blast+
qed

lemma timed_inv_init: "listener_init l \<Longrightarrow> timed_inv l"
  by (auto dest!: listener_initD simp: timed_inv_def conn_token_unat unat_min_token)

interpretation timed_sys: transition_system listener_init "timed_step ops timeout" timed_inv
  for ops and timeout
  by unfold_locales (auto intro: timed_inv_init handle_event_timed(1) elim!: timed_stepE)


section \<open>Availability\<close>

text \<open>The measurement channel is there, and one event meets a server that is set up.\<close>

definition world_up :: "ke_world \<Rightarrow> bool" where
  "world_up w \<longleftrightarrow> chan_set (server_ke_s w) \<and> chan_open (server_ke_s w)"

definition event_ok :: "('fd, 's) listener_event \<Rightarrow> bool" where
  "event_ok ev \<longleftrightarrow>
     ke_nonces_ok (ev_env ev) \<and> (\<exists>get ip. ke_experiment_cfg (ev_env ev) = Some get \<and> get ''meas_client_ip'' = Some ip) \<and>
     rotator_up (ev_rotator ev) \<and> (\<forall>t i. ev_poll ev t i = Ok ()) \<and>
     \<not> panics (tcp_accept (ev_accept ev)) \<and>
     \<not> panics (tcp_rebind (ev_accept ev)) \<and> \<not> panics (register_listener (ev_accept ev)) \<and>
     (\<forall>t i. accept_poll (ev_accept ev) t i = Ok ())"

text \<open>
  An event meets a reset stream: one that has expired and cannot be shut down, one that was accepted
  and does not know its peer any more, or the one the event is for, when it cannot be shut down
  after the operations of TLS on it.
\<close>

definition expired_reset :: "'s tls_ops \<Rightarrow> systime \<Rightarrow> ('fd, 's) ke_listener \<Rightarrow> bool" where
  "expired_reset ops now l \<longleftrightarrow>
     (\<exists>d t c. (d, t) \<in> set (deadlines l) \<and> d < now \<and> connections l t = Some c \<and>
        \<not> is_ok (snd (tcp_shutdown ops (tls_session c))))"

definition accepted_reset :: "('fd, 's) listener_event \<Rightarrow> bool" where
  "accepted_reset ev \<longleftrightarrow>
     ev_token ev = LISTENER_MIO_TOKEN_ID \<and> (\<exists>s p. tcp_accept (ev_accept ev) = Ok (s, p) \<and> \<not> is_ok p)"

definition meets_reset :: "'s tls_ops \<Rightarrow> ('fd, 's) listener_event \<Rightarrow> ('fd, 's) ke_listener \<Rightarrow> bool" where
  "meets_reset ops ev l \<longleftrightarrow>
     expired_reset ops (ev_now ev) l \<or> accepted_reset ev \<or>
     (ev_token ev \<noteq> LISTENER_MIO_TOKEN_ID \<and>
      (\<exists>c. connections l (ev_token ev) = Some c \<and> resettable ops (tls_session c)))"

lemma event_ok_serving: "event_ok ev \<Longrightarrow> ke_serving (ev_env ev) w (ev_rotator ev) (ev_poll ev) \<longleftrightarrow> world_up w"
  by (auto simp: event_ok_def ke_serving_def ke_measuring_def world_up_def)

lemma accept_no_panic:
  assumes "event_ok ev" and "\<And>s p. tcp_accept (ev_accept ev) = Ok (s, p) \<Longrightarrow> is_ok p"
  shows "\<not> panics (snd (accept ops timeout (ev_accept ev) (l, w)))"
proof (cases "tcp_accept (ev_accept ev)")
  case (Ok x)
  obtain s p where x: "x = (s, p)" by fastforce
  then obtain a where "p = result.Ok a" using assms(2) Ok by (auto simp: is_ok_iff)
  then show ?thesis
    using assms(1) Ok x by (simp add: accept_def accept_stream_def ke_server_conn_new_def register_def interest_def event_ok_def Let_def)
next
  case (Err e)
  then show ?thesis
    using assms(1) by (auto simp: accept_def accept_failed_def with_world_def event_ok_def split: result.split)
qed (use assms(1) in \<open>simp add: event_ok_def\<close>)

lemma accept_world:
  assumes "accept ops timeout env (l, w) = ((l', w'), r)" and "\<not> panics r"
  shows "world_up w' \<longleftrightarrow> world_up w"
  using assms by (cases rule: accept_cases) (simp_all add: world_up_def)

lemma connection_event_ok:
  assumes "tls_sound ops" and "aead_expands A" and "event_ok ev" and "world_up w"
    and "\<And>c. connections l (ev_token ev) = Some c \<Longrightarrow> \<not> resettable ops (tls_session c)"
  shows "\<exists>l' w'. connection_event ops A port ev (l, w) = ((l', w'), Ok ()) \<and> world_up w'"
proof (cases "connections l (ev_token ev)")
  case (Some c)
  have "ke_serving (ev_env ev) w (ev_rotator ev) (ev_poll ev)"
    using event_ok_serving [OF assms(3)] assms(4) by simp
  from ready_sound [OF assms(1,2) this assms(5) [OF Some], of port "ev_ready ev", where 'e = io_error]
  show ?thesis using Some event_ok_serving [OF assms(3)] by (auto simp: connection_event_def)
qed (use assms(4) in \<open>simp add: connection_event_def\<close>)

lemma handle_event_ok:
  assumes ops: "tls_sound ops" "aead_expands A" and ev: "event_ok ev" and w: "world_up w"
    and reset: "\<not> meets_reset ops ev l"
  shows "\<exists>l' w'. handle_event ops A port timeout ev (l, w) = ((l', w'), Ok ()) \<and> world_up w'"
proof -
  obtain l1 where c: "close_expired_connections ops (ev_now ev) l = (l1, Ok () :: (unit, io_error) result)"
    using close_expired_ends [of l "ev_now ev" ops] reset unfolding meets_reset_def expired_reset_def by blast
  show ?thesis
  proof (cases "ev_token ev = LISTENER_MIO_TOKEN_ID")
    case True
    obtain l2 w2 r where a: "accept ops timeout (ev_accept ev) (l1, w) = ((l2, w2), r)" by (metis prod.exhaust)
    have r: "\<not> panics r"
      using accept_no_panic [OF ev, of ops timeout l1 w] a reset True unfolding meets_reset_def accepted_reset_def by auto
    have "world_up w2" using accept_world [OF a r] w by simp
    then show ?thesis using True a r c by (cases r) (auto simp: handle_event_def with_world_def)
  next
    case False
    have "\<not> resettable ops (tls_session x)" if "connections l1 (ev_token ev) = Some x" for x
    proof -
      have "connections l (ev_token ev) = Some x"
        using that close_expired_connections_sub [OF c] unfolding map_le_def by (metis domI)
      then show ?thesis using reset False unfolding meets_reset_def by blast
    qed
    from connection_event_ok [OF ops ev w, of l1 port] this show ?thesis
      using False c by (auto simp: handle_event_def with_world_def)
  qed
qed

text \<open>Rounds of events are handled one event after the other.\<close>

lemma handle_events_append:
  "handle_events ops A port timeout (xs @ ys) lw =
     bind_s (handle_events ops A port timeout xs lw) (\<lambda>_ lw. handle_events ops A port timeout ys lw)"
proof (induction xs arbitrary: lw)
  case (Cons x xs)
  obtain lw' r where "handle_event ops A port timeout x lw = (lw', r)" by fastforce
  then show ?case by (cases r) (simp_all add: Cons.IH)
qed simp

lemma listen_rounds:
  "listen ops A port timeout (map Ok evss) lw = handle_events ops A port timeout (concat evss) lw"
proof (induction evss arbitrary: lw)
  case (Cons evs evss)
  show ?case by (simp add: handle_events_append Cons.IH [abs_def])
qed simp

lemma handle_events_outcome:
  assumes "tls_sound ops" and "aead_expands A"
  shows "\<forall>ev\<in>set evs. event_ok ev \<Longrightarrow> world_up w \<Longrightarrow>
    (\<exists>l' w'. handle_events ops A port timeout evs (l, w) = ((l', w'), Ok ()) \<and> world_up w') \<or>
    (\<exists>before ev after l1 w1. evs = before @ ev # after \<and>
       handle_events ops A port timeout before (l, w) = ((l1, w1), Ok ()) \<and> meets_reset ops ev l1)"
proof (induction evs arbitrary: l w)
  case (Cons ev evs)
  show ?case
  proof (cases "meets_reset ops ev l")
    case True
    then have "ev # evs = [] @ ev # evs \<and> handle_events ops A port timeout [] (l, w) = ((l, w), Ok ()) \<and> meets_reset ops ev l"
      by simp
    then show ?thesis by blast
  next
    case False
    obtain l1 w1 where h: "handle_event ops A port timeout ev (l, w) = ((l1, w1), Ok ())" "world_up w1"
      using handle_event_ok [OF assms _ Cons.prems(2) False, of port timeout] Cons.prems(1) by auto
    then have step: "handle_events ops A port timeout (ev # xs) (l, w) = handle_events ops A port timeout xs (l1, w1)" for xs
      by simp
    consider (go) l' w' where "handle_events ops A port timeout evs (l1, w1) = ((l', w'), Ok ())" "world_up w'"
      | (stop) before e after l2 w2 where "evs = before @ e # after"
          "handle_events ops A port timeout before (l1, w1) = ((l2, w2), Ok ())" "meets_reset ops e l2"
      using Cons.IH [OF _ h(2), of l1] Cons.prems(1) by auto
    then show ?thesis
    proof cases
      case go
      then show ?thesis using step [of evs] by auto
    next
      case stop
      then have "ev # evs = (ev # before) @ e # after \<and>
          handle_events ops A port timeout (ev # before) (l, w) = ((l2, w2), Ok ()) \<and> meets_reset ops e l2"
        using step [of before] by simp
      then show ?thesis by blast
    qed
  qed
qed simp

text \<open>Streams that are reset do stop the listener.\<close>

lemma reset_stops:
  assumes "sorted (deadlines l)" and "expired_reset ops (ev_now ev) l \<or> accepted_reset ev"
  shows "panics (snd (handle_event ops A port timeout ev (l, w)))"
proof (cases "expired_reset ops (ev_now ev) l")
  case True
  then have "panics (snd (close_expired_connections ops (ev_now ev) l :: _ \<times> (unit, io_error) result))"
    using close_expired_panics [OF assms(1)] unfolding expired_reset_def by blast
  then show ?thesis
    by (cases "close_expired_connections ops (ev_now ev) l :: _ \<times> (unit, io_error) result";
        cases "snd (close_expired_connections ops (ev_now ev) l :: _ \<times> (unit, io_error) result)")
      (simp_all add: handle_event_def with_world_def)
next
  case False
  obtain s p where a: "ev_token ev = LISTENER_MIO_TOKEN_ID" "tcp_accept (ev_accept ev) = Ok (s, p)" "\<not> is_ok p"
    using assms(2) False unfolding accepted_reset_def by blast
  obtain l1 where "close_expired_connections ops (ev_now ev) l = (l1, Ok () :: (unit, io_error) result)"
    using close_expired_ends [of l "ev_now ev" ops] False unfolding expired_reset_def by blast
  with a show ?thesis
    by (cases p)
      (simp_all add: handle_event_def with_world_def accept_def accept_stream_def ke_server_conn_new_def Let_def)
qed

section \<open>A listener\<close>

definition up_listener :: "(unit, script) ke_listener" where
  "up_listener = \<lparr>lst_socket = (), connections = [1 \<mapsto> script_conn [], 2 \<mapsto> (script_conn [])\<lparr>token := 2\<rparr>],
     deadlines = [(5, 1), (9, 2)], next_conn_token_id = 3, lst_addr = SocketAddr (IpV4 (Ipv4Addr 192 0 2 1)) 4460\<rparr>"

definition first_listener :: "(unit, script) ke_listener" where
  "first_listener = \<lparr>lst_socket = (), connections = Map.empty,
     deadlines = [], next_conn_token_id = 1, lst_addr = SocketAddr (IpV4 (Ipv4Addr 192 0 2 1)) 4460\<rparr>"

definition up_sock_ops :: "unit sock_ops" where
  "up_sock_ops = \<lparr>builder_new_v4 = Ok (), builder_new_v6 = Ok (), reuse_address = (\<lambda>_. Ok ()), setsockopt_freebind = (\<lambda>_. 0),
     last_os_error = ''none'', sock_bind = (\<lambda>_ _. Ok ()), sock_listen = (\<lambda>_ _. Ok ())\<rparr>"

lemma first_listener_init: "listener_init first_listener"
  unfolding listener_init_def
  by (rule exI [of _ up_sock_ops], rule exI [of _ "Ok ()"], rule exI [of _ "\<lambda>_. Ok ()"], rule exI [of _ "Ok ()"],
      rule exI [of _ "SocketAddr (IpV4 (Ipv4Addr 192 0 2 1)) 4460"])
    (simp add: listener_bind_def tcp_listener_def set_freebind_def up_sock_ops_def first_listener_def token_ids)

definition accept_event :: "(unit, script) listener_event" where
  "accept_event = \<lparr>ev_token = 0, ev_ready = (True, False), ev_now = 3,
     ev_accept = \<lparr>tcp_accept = Ok (\<lparr>script_in = [], script_out = []\<rparr>, Ok ''192.0.2.7:40000''), tcp_rebind = Ok (),
       register_listener = Ok (), accept_now = 4, accept_poll = (\<lambda>_ _. Ok ())\<rparr>,
     ev_env = ke_up_env, ev_poll = (\<lambda>_ _. Ok ()), ev_rotator = ke_up_rotator\<rparr>"

lemma accept_event_ok: "event_ok accept_event"
  by (simp add: event_ok_def accept_event_def ke_nonces_ok_def ke_up_env_def rotator_up_def ke_up_rotator_def new_lock_def)

lemma ke_up_world_up: "world_up ke_up_world"
  by (simp add: world_up_def ke_up_world_def)

lemma first_accept:
  "handle_event script_ops checksum_aead 123 30 accept_event (first_listener, ke_up_world) =
     ((accepted 30 4 \<lparr>script_in = [], script_out = []\<rparr> first_listener, ke_up_world\<lparr>ke_client_addr := ''192.0.2.7:40000''\<rparr>), Ok ())"
proof -
  have "close_expired_connections script_ops 3 first_listener = (first_listener, Ok () :: (unit, io_error) result)"
    by (simp add: close_expired_stop first_listener_def)
  then show ?thesis
    by (simp add: handle_event_def accept_event_def with_world_def token_ids accept_def accept_stream_def
        ke_server_conn_new_def register_def accepted_def Let_def)
qed

section \<open>Properties\<close>

text \<open>
  C11: \<^verbatim>\<open>close_expired_connections\<close> terminates and does exactly what it is for: it removes the
  connections whose deadline lies before the clock reading and their deadlines, and leaves every other
  connection, deadline and field alone. The deadlines are in order, as they are in the heap, and
  the streams of the connections that have expired can be shut down.
\<close>

theorem expired_connections_closed:
  assumes "sorted (deadlines l)"
    and "\<And>d t c. (d, t) \<in> set (deadlines l) \<Longrightarrow> d < now \<Longrightarrow> connections l t = Some c \<Longrightarrow>
      is_ok (snd (tcp_shutdown ops (tls_session c)))"
  shows "close_expired_connections ops now l =
    (l\<lparr>connections := (\<lambda>t. if \<exists>d. (d, t) \<in> set (deadlines l) \<and> d < now then None else connections l t),
       deadlines := filter (\<lambda>(d, t). \<not> d < now) (deadlines l)\<rparr>, Ok () :: (unit, io_error) result)"
proof -
  obtain l' where c: "close_expired_connections ops now l = (l', Ok () :: (unit, io_error) result)"
    using close_expired_ends [of l now ops] assms(2) by blast
  then show ?thesis using close_expired_refines [OF assms(1) c] by (simp add: expire_def)
qed

theorem expired_connections_closed_witness:
  "connections (fst (close_expired_connections script_ops 7 up_listener :: _ \<times> (unit, io_error) result)) 1 = None \<and>
   connections (fst (close_expired_connections script_ops 7 up_listener :: _ \<times> (unit, io_error) result)) 2 \<noteq> None"
  using expired_connections_closed [of up_listener 7 script_ops]
  by (auto simp: up_listener_def script_ops_def)

text \<open>
  C15: Every listener that was bound and has handled any sequence of events is well formed: the
  token it will give next and the tokens of its connections are neither the listener's own nor
  the one reserved by mio, every connection is filed under its own token, none is closed, and each has
  written nothing before its response and one response afterwards.
\<close>

theorem listener_well_formed:
  assumes "reachable listener_init (listener_step out ops) l" and "tls_log ops out"
  shows "next_conn_token_id l \<notin> {LISTENER_MIO_TOKEN_ID, - 1} \<and>
    (\<forall>t c. connections l t = Some c \<longrightarrow>
       t \<notin> {LISTENER_MIO_TOKEN_ID, - 1} \<and> token c = t \<and> conn_state c \<noteq> Closed \<and>
       (if conn_state c = ResponseSent then is_response (out (tls_session c)) else out (tls_session c) = []))"
proof -
  have inv: "listener_inv out l" using listener_sys.inv_reachable [OF assms(1)] assms(2) by blast
  have "next_conn_token_id l \<notin> {LISTENER_MIO_TOKEN_ID, - 1}"
    using inv conn_token_not_listener by (auto simp: listener_inv_def)
  moreover have "t \<notin> {LISTENER_MIO_TOKEN_ID, - 1} \<and> token c = t \<and> conn_state c \<noteq> Closed \<and>
       (if conn_state c = ResponseSent then is_response (out (tls_session c)) else out (tls_session c) = [])"
    if "connections l t = Some c" for t c
  proof -
    have c: "conn_token t" "token c = t" "conn_state c \<noteq> Closed" "conn_good out c"
      using inv that by (auto simp: listener_inv_def)
    then show ?thesis using conn_token_not_listener [OF c(1)]
      by (auto simp: conn_good_def conn_inv_def conn_out_def split: ke_server_conn_state.splits)
  qed
  ultimately show ?thesis by blast
qed

theorem listener_well_formed_witness:
  "\<exists>(l :: (unit, script) ke_listener) c. reachable listener_init (listener_step script_out script_ops) l \<and> connections l 1 = Some c \<and> token c = 1"
proof -
  let ?l = "accepted 30 4 \<lparr>script_in = [], script_out = []\<rparr> first_listener"
  have "listener_step script_out script_ops first_listener ?l"
    by (rule listener_event [OF first_accept]) (simp add: accept_event_def)
  with first_listener_init have r: "reachable listener_init (listener_step script_out script_ops) ?l"
    by (blast intro: reachable.intros)
  obtain c where c: "connections ?l 1 = Some c" by (simp add: accepted_def first_listener_def Let_def)
  then have "token c = 1" using listener_well_formed [OF r script_log] by simp
  with r c show ?thesis by blast
qed

text \<open>
  C12: No connection outlives its deadline by more than one event: when the listener has handled
  an event at time \<open>now\<close>, every connection it still has carries a deadline that is not before
  \<open>now\<close>. This holds as long as the tokens have not been used up and deadlines can be represented, and when
  the clock does not go back while the event is handled.
\<close>

theorem connection_deadlines_enforced:
  assumes "reachable listener_init (timed_step ops timeout) l"
    and "handle_event ops A port timeout ev (l, w) = ((l', w'), Ok ())"
    and "fresh_tokens timeout ev l" and "ev_now ev \<le> accept_now (ev_accept ev)"
  shows "\<forall>t \<in> dom (connections l'). \<exists>d. (d, t) \<in> set (deadlines l') \<and> ev_now ev \<le> d"
proof
  fix t assume t: "t \<in> dom (connections l')"
  note i = handle_event_timed [OF timed_sys.inv_reachable [OF assms(1)] assms(2,3)]
  from i(1) t obtain d where "(d, t) \<in> set (deadlines l')" by (force simp: timed_inv_def)
  with i(2) [OF assms(4)] show "\<exists>d. (d, t) \<in> set (deadlines l') \<and> ev_now ev \<le> d" by force
qed

theorem connection_deadlines_enforced_witness:
  "\<exists>l' w'. handle_event script_ops checksum_aead 123 30 accept_event (first_listener, ke_up_world) = ((l', w'), Ok ()) \<and>
     1 \<in> dom (connections l') \<and> (\<exists>d. (d, 1) \<in> set (deadlines l') \<and> 3 \<le> d)"
proof -
  have f: "fresh_tokens 30 accept_event first_listener"
    by (simp add: fresh_tokens_def accept_event_def first_listener_def checked_add_time_def duration_new_def
        NANOS_PER_SEC_def word_less_nat_alt unat_max_token)
  have n: "ev_now accept_event \<le> accept_now (ev_accept accept_event)" "ev_now accept_event = 3"
    by (simp_all add: accept_event_def)
  have d: "1 \<in> dom (connections (accepted 30 4 \<lparr>script_in = [], script_out = []\<rparr> first_listener))"
    by (simp add: accepted_def first_listener_def Let_def)
  from connection_deadlines_enforced [OF reachable_init [of listener_init, OF first_listener_init] first_accept f n(1)] d n(2) first_accept
  show ?thesis by auto
qed

text \<open>
  C10: Only a reset stream can stop the listener. Whatever bytes the peers send and however TLS fails on them, in any number of
  rounds of any number of events, on any listener, either all events are handled without a panic
  and the listener goes on, or there is a first event that meets a reset stream: a connection past its deadline
  that cannot be shut down, an accepted stream whose peer address cannot be read, or the connection of
  the event, which cannot be shut down after some operations of TLS. All events before it
  are handled. The poll answers, and the server is set up (latest key, experiment file, measurement channel).
\<close>

theorem listener_available:
  assumes "tls_sound ops" and "aead_expands A" and "world_up w" and "\<forall>ev\<in>set (concat rounds). event_ok ev"
  shows "(\<exists>l' w'. listen ops A port timeout (map Ok rounds) (l, w) = ((l', w'), Ok ()) \<and> world_up w') \<or>
    (\<exists>before ev after l1 w1. concat rounds = before @ ev # after \<and>
       handle_events ops A port timeout before (l, w) = ((l1, w1), Ok ()) \<and>
       ((\<exists>d t c. (d, t) \<in> set (deadlines l1) \<and> d < ev_now ev \<and> connections l1 t = Some c \<and>
           \<not> is_ok (snd (tcp_shutdown ops (tls_session c)))) \<or>
        (ev_token ev = LISTENER_MIO_TOKEN_ID \<and> (\<exists>s p. tcp_accept (ev_accept ev) = Ok (s, p) \<and> \<not> is_ok p)) \<or>
        (ev_token ev \<noteq> LISTENER_MIO_TOKEN_ID \<and>
         (\<exists>c. connections l1 (ev_token ev) = Some c \<and> resettable ops (tls_session c)))))"
  using handle_events_outcome [OF assms(1,2,4,3), of port timeout l]
  unfolding listen_rounds meets_reset_def expired_reset_def accepted_reset_def .

theorem listener_available_witness:
  "\<exists>l' w'. listen script_ops checksum_aead 123 30 (map Ok [[accept_event], [], [accept_event, accept_event]])
     (first_listener, ke_up_world) = ((l', w'), Ok ()) \<and> world_up w'"
proof -
  let ?rounds = "[[accept_event], [], [accept_event, accept_event]]"
  have ok: "\<forall>ev\<in>set (concat ?rounds). event_ok ev" by (simp add: accept_event_ok)
  have shut: "is_ok (snd (tcp_shutdown script_ops s))" for s by (simp add: script_ops_def)
  have peer: "is_ok p" if "concat ?rounds = before @ ev # after" "tcp_accept (ev_accept ev) = Ok (s, p)" for before ev after s p
  proof -
    have "ev \<in> set (concat ?rounds)" using that(1) by (metis in_set_conv_decomp)
    then have "ev = accept_event" by simp
    with that(2) show ?thesis by (auto simp: accept_event_def)
  qed
  from listener_available [OF script_sound checksum_aead_expands ke_up_world_up ok, of 123 30 first_listener]
  show ?thesis using shut script_not_resettable peer by blast
qed

text \<open>
  Two of the three do stop it, whatever the peer sent before: a client that is gone before the listener
  reads its address (\<^verbatim>\<open>peer_addr\<close> fails on a connection that was reset after it was accepted, and
  its error is unwrapped), and one that has reset its connection when it expires.
\<close>

lemma reset_peer_panics_listener:
  assumes "sorted (deadlines l)"
    and "(\<exists>d t c. (d, t) \<in> set (deadlines l) \<and> d < ev_now ev \<and> connections l t = Some c \<and>
           \<not> is_ok (snd (tcp_shutdown ops (tls_session c)))) \<or>
      (ev_token ev = LISTENER_MIO_TOKEN_ID \<and> (\<exists>s p. tcp_accept (ev_accept ev) = Ok (s, p) \<and> \<not> is_ok p))"
  shows "panics (snd (handle_event ops A port timeout ev (l, w)))"
  by (rule reset_stops) (use assms in \<open>simp_all add: expired_reset_def accepted_reset_def\<close>)

lemma reset_peer_panics_listener_witness:
  "panics (snd (handle_event script_ops checksum_aead 123 30
     (accept_event\<lparr>ev_accept := (ev_accept accept_event)
        \<lparr>tcp_accept := Ok (\<lparr>script_in = [], script_out = []\<rparr>, Err (Io_Error Other ''not connected''))\<rparr>\<rparr>)
     (first_listener, ke_up_world)))"
  by (rule reset_peer_panics_listener) (simp_all add: first_listener_def accept_event_def token_ids)

end
