(* ===== verification/Protocol.thy ===== *)
theory Protocol
  imports Aead
begin

text \<open>
  \<^verbatim>\<open>src/src/ntp/protocol.rs\<close>: the wire format of NTP and NTS packets. The header's bit
  packing, the extension fields, and the authenticated and encrypted NTS packets, with the
  parsers written over a cursor exactly as the code moves it.
\<close>

section \<open>Constants and data\<close>

definition VERSION :: u8 where "VERSION = 4"
definition UNIX_OFFSET :: nat where "UNIX_OFFSET = 2208988800"
definition HEADER_SIZE :: nat where "HEADER_SIZE = 48"
definition NONCE_LEN :: nat where "NONCE_LEN = 16"
definition EXT_TYPE_UNIQUE_IDENTIFIER :: u16 where "EXT_TYPE_UNIQUE_IDENTIFIER = 0x0104"
definition EXT_TYPE_NTS_COOKIE :: u16 where "EXT_TYPE_NTS_COOKIE = 0x0204"
definition EXT_TYPE_NTS_COOKIE_PLACEHOLDER :: u16 where "EXT_TYPE_NTS_COOKIE_PLACEHOLDER = 0x0304"
definition EXT_TYPE_NTS_AUTHENTICATOR :: u16 where "EXT_TYPE_NTS_AUTHENTICATOR = 0x0404"

lemmas ext_type_defs =
  EXT_TYPE_UNIQUE_IDENTIFIER_def EXT_TYPE_NTS_COOKIE_def
  EXT_TYPE_NTS_COOKIE_PLACEHOLDER_def EXT_TYPE_NTS_AUTHENTICATOR_def

datatype leap_state = NoLeap | Positive | Negative | LeapUnknown

datatype packet_mode =
  SymmetricActive | SymmetricPassive | Client | Server | Broadcast | Invalid

datatype ntp_extension_type =
    UniqueIdentifier | NTSCookie | NTSCookiePlaceholder | NTSAuthenticator | UnknownExt u16

fun wire_type :: "ntp_extension_type \<Rightarrow> u16" where
  "wire_type UniqueIdentifier = EXT_TYPE_UNIQUE_IDENTIFIER"
| "wire_type NTSCookie = EXT_TYPE_NTS_COOKIE"
| "wire_type NTSCookiePlaceholder = EXT_TYPE_NTS_COOKIE_PLACEHOLDER"
| "wire_type NTSAuthenticator = EXT_TYPE_NTS_AUTHENTICATOR"
| "wire_type (UnknownExt y) = y"

definition type_from_wire :: "u16 \<Rightarrow> ntp_extension_type" where
  "type_from_wire ext =
     (if ext = EXT_TYPE_UNIQUE_IDENTIFIER then UniqueIdentifier
      else if ext = EXT_TYPE_NTS_COOKIE then NTSCookie
      else if ext = EXT_TYPE_NTS_COOKIE_PLACEHOLDER then NTSCookiePlaceholder
      else if ext = EXT_TYPE_NTS_AUTHENTICATOR then NTSAuthenticator
      else UnknownExt ext)"

record ntp_packet_header =
  leap_indicator :: leap_state
  version :: u8
  mode :: packet_mode
  stratum :: u8
  poll :: i8
  precision :: i8
  root_delay :: u32
  root_dispersion :: u32
  reference_id :: u32
  reference_timestamp :: u64
  origin_timestamp :: u64
  receive_timestamp :: u64
  transmit_timestamp :: u64

record ntp_extension =
  ext_type :: ntp_extension_type
  contents :: bytes

record nts_packet =
  nts_header :: ntp_packet_header
  auth_exts :: "ntp_extension list"
  auth_enc_exts :: "ntp_extension list"

record ntp_packet =
  ntp_header :: ntp_packet_header
  exts :: "ntp_extension list"

section \<open>The first byte\<close>

definition parse_leap_indicator :: "u8 \<Rightarrow> leap_state" where
  "parse_leap_indicator first =
     (let x = drop_bit 6 first in
      if x = 0 then NoLeap else if x = 1 then Positive else if x = 2 then Negative
      else LeapUnknown)"

definition parse_version :: "u8 \<Rightarrow> u8" where
  "parse_version first = drop_bit 3 (first AND 0x38)"

definition parse_mode :: "u8 \<Rightarrow> packet_mode" where
  "parse_mode first =
     (let modnum = first AND 0x07 in
      if modnum = 1 then SymmetricActive else if modnum = 2 then SymmetricPassive
      else if modnum = 3 then Client else if modnum = 4 then Server
      else if modnum = 5 then Broadcast else Invalid)"

text \<open>The enum discriminants (\<^verbatim>\<open>Invalid\<close> follows \<^verbatim>\<open>Broadcast = 5\<close>).\<close>

fun leap_as_u8 :: "leap_state \<Rightarrow> u8" where
  "leap_as_u8 NoLeap = 0"
| "leap_as_u8 Positive = 1"
| "leap_as_u8 Negative = 2"
| "leap_as_u8 LeapUnknown = 3"

fun mode_as_u8 :: "packet_mode \<Rightarrow> u8" where
  "mode_as_u8 SymmetricActive = 1"
| "mode_as_u8 SymmetricPassive = 2"
| "mode_as_u8 Client = 3"
| "mode_as_u8 Server = 4"
| "mode_as_u8 Broadcast = 5"
| "mode_as_u8 Invalid = 6"

definition create_first :: "leap_state \<Rightarrow> u8 \<Rightarrow> packet_mode \<Rightarrow> u8" where
  "create_first leap ver m =
     push_bit 6 (leap_as_u8 leap) OR (push_bit 3 ver AND 0x38) OR (mode_as_u8 m AND 0x07)"

section \<open>Headers\<close>

definition parse_packet_header :: "bytes \<Rightarrow> (ntp_packet_header, io_error) result" where
  "parse_packet_header packet =
     (if length packet < 48 then Err (Io_Error InvalidInput ''Too short'')
      else
        bind_r (read_u8 (new_cursor packet)) (\<lambda>(first, buff).
        bind_r (read_u8 buff) (\<lambda>(strat, buff).
        bind_r (read_u8 buff) (\<lambda>(pol, buff).
        bind_r (read_u8 buff) (\<lambda>(prec, buff).
        bind_r (read_u32 buff) (\<lambda>(rdelay, buff).
        bind_r (read_u32 buff) (\<lambda>(rdisp, buff).
        bind_r (read_u32 buff) (\<lambda>(refid, buff).
        bind_r (read_u64 buff) (\<lambda>(reft, buff).
        bind_r (read_u64 buff) (\<lambda>(origt, buff).
        bind_r (read_u64 buff) (\<lambda>(recvt, buff).
        bind_r (read_u64 buff) (\<lambda>(xmitt, buff).
        Ok \<lparr>leap_indicator = parse_leap_indicator first, version = parse_version first,
            mode = parse_mode first, stratum = strat, poll = pol, precision = prec,
            root_delay = rdelay, root_dispersion = rdisp, reference_id = refid,
            reference_timestamp = reft, origin_timestamp = origt, receive_timestamp = recvt,
            transmit_timestamp = xmitt\<rparr>))))))))))))"

definition serialize_header :: "ntp_packet_header \<Rightarrow> bytes" where
  "serialize_header head =
     [create_first (leap_indicator head) (version head) (mode head)] @ [stratum head] @
     [poll head] @ [precision head] @ u32_to_be (root_delay head) @
     u32_to_be (root_dispersion head) @ u32_to_be (reference_id head) @
     u64_to_be (reference_timestamp head) @ u64_to_be (origin_timestamp head) @
     u64_to_be (receive_timestamp head) @ u64_to_be (transmit_timestamp head)"

section \<open>Extension fields\<close>

function parse_extensions_loop ::
  "cursor \<Rightarrow> ntp_extension list \<Rightarrow> (ntp_extension list, io_error) result" where
  "parse_extensions_loop reader retval =
     (if length (cbuf reader) - cpos reader \<ge> 4 then
        bind_r (read_u16 reader) (\<lambda>(ety, reader).
        bind_r (read_u16 reader) (\<lambda>(ext_len, reader).
          if ext_len mod 4 \<noteq> 0 then
            Err (Io_Error InvalidInput ''extension not on word boundary'')
          else if ext_len < 4 then Err (Io_Error InvalidInput ''extension too short'')
          else
            let (conts, reader) = cursor_read (unat (ext_len - 4)) reader
            in parse_extensions_loop reader
                 (retval @ [\<lparr>ext_type = type_from_wire ety, contents = conts\<rparr>])))
      else Ok retval)"
  by pat_completeness auto
termination
proof (relation "measure (\<lambda>(c, _). remaining c)", goal_cases)
  case (2 reader retval x ety c1 y ext_len c2 z conts c3)
  have "c1 = reader\<lparr>cpos := cpos reader + 2\<rparr>" and "c2 = c1\<lparr>cpos := cpos c1 + 2\<rparr>"
    using 2 by (auto simp: cursor_simps)
  then have "remaining c2 < remaining reader"
    using 2(1) by (simp add: remaining_def)
  moreover have "remaining c3 \<le> remaining c2"
    using 2 cursor_read_props(4) [of "unat (ext_len - 4)" c2] by (metis snd_conv)
  ultimately show ?case by simp
qed simp

declare parse_extensions_loop.simps [simp del]

definition parse_extensions :: "bytes \<Rightarrow> (ntp_extension list, io_error) result" where
  "parse_extensions buff = parse_extensions_loop (new_cursor buff) []"

definition parse_ntp_packet :: "bytes \<Rightarrow> (ntp_packet, io_error) result" where
  "parse_ntp_packet buff =
     bind_r (parse_packet_header buff) (\<lambda>header.
     bind_r (slice_r buff 48 (length buff)) (\<lambda>tail.
     bind_r (parse_extensions tail) (\<lambda>extensions.
     Ok \<lparr>ntp_header = header, exts = extensions\<rparr>)))"

fun serialize_extensions :: "ntp_extension list \<Rightarrow> (bytes, 'e) result" where
  "serialize_extensions [] = Ok []"
| "serialize_extensions (ext # es) =
     (if length (contents ext) mod 4 \<noteq> 0 then Panic ''extension is the wrong length''
      else bind_r (serialize_extensions es) (\<lambda>tail.
             Ok (u16_to_be (wire_type (ext_type ext)) @
                 u16_to_be (of_nat (length (contents ext) + 4)) @ contents ext @ tail)))"

definition serialize_ntp_packet :: "ntp_packet \<Rightarrow> (bytes, 'e) result" where
  "serialize_ntp_packet pack =
     bind_r (serialize_extensions (exts pack)) (\<lambda>es. Ok (serialize_header (ntp_header pack) @ es))"

fun has_extension_in :: "ntp_extension list \<Rightarrow> ntp_extension_type \<Rightarrow> bool" where
  "has_extension_in [] kind = False"
| "has_extension_in (ext # es) kind = (if ext_type ext = kind then True else has_extension_in es kind)"

definition has_extension :: "ntp_packet \<Rightarrow> ntp_extension_type \<Rightarrow> bool" where
  "has_extension pack kind = has_extension_in (exts pack) kind"

definition is_nts_packet :: "ntp_packet \<Rightarrow> bool" where
  "is_nts_packet pack \<longleftrightarrow>
     has_extension pack NTSCookie \<and> has_extension pack NTSAuthenticator \<and>
     has_extension pack UniqueIdentifier"

fun extract_extension_in ::
  "ntp_extension list \<Rightarrow> ntp_extension_type \<Rightarrow> ntp_extension option" where
  "extract_extension_in [] kind = None"
| "extract_extension_in (ext # es) kind =
     (if ext_type ext = kind then Some ext else extract_extension_in es kind)"

definition extract_extension :: "ntp_packet \<Rightarrow> ntp_extension_type \<Rightarrow> ntp_extension option" where
  "extract_extension pack kind = extract_extension_in (exts pack) kind"

section \<open>NTS packets\<close>

definition pad4 :: "nat \<Rightarrow> nat" where
  "pad4 n = (4 - n mod 4) mod 4"

definition parse_decrypt_auth_ext ::
  "aead \<Rightarrow> bytes \<Rightarrow> bytes \<Rightarrow> bytes \<Rightarrow> (bytes, io_error) result" where
  "parse_decrypt_auth_ext A key auth_dat auth_ext_contents =
     (if length auth_ext_contents < 4 then Err (Io_Error InvalidInput ''insufficient length'')
      else
        bind_r (read_u16 (new_cursor auth_ext_contents)) (\<lambda>(nlen, reader).
        bind_r (read_u16 reader) (\<lambda>(clen, reader).
          let nonce_len = unat nlen; cipher_len = unat clen;
              nonce_pad_len = nonce_len + pad4 nonce_len;
              cipher_pad_len = cipher_len + pad4 cipher_len
          in if nonce_pad_len + cipher_pad_len + 4 > length auth_ext_contents then
               Err (Io_Error InvalidInput ''length of data exceeds wrapper'')
             else
               bind_r (slice_r auth_ext_contents 4 (4 + nonce_len)) (\<lambda>nonce.
               bind_r (slice_r auth_ext_contents (4 + nonce_pad_len)
                         (4 + nonce_pad_len + cipher_len)) (\<lambda>ciphertext.
               case aead_open A key nonce auth_dat ciphertext of
                 None \<Rightarrow> Err (Io_Error InvalidInput ''authentication failed'')
               | Some res \<Rightarrow> Ok res)))))"

text \<open>
  The loop of \<^verbatim>\<open>parse_nts_packet\<close>; the buffer is the cursor's. The declared length minus 4
  wraps at 16 bits, the start of the authenticator is computed in \<^verbatim>\<open>u64\<close>.
\<close>

function parse_nts_loop ::
  "aead \<Rightarrow> bytes \<Rightarrow> ntp_packet_header \<Rightarrow> cursor \<Rightarrow> ntp_extension list \<Rightarrow>
     (nts_packet, io_error) result" where
  "parse_nts_loop A key header reader aexts =
     (if length (cbuf reader) - cpos reader \<ge> 4 then
        bind_r (read_u16 reader) (\<lambda>(ety, reader).
        bind_r (read_u16 reader) (\<lambda>(len, reader).
          let ext_len = unat (len - 4) in
          if type_from_wire ety = NTSAuthenticator then
            let (auth_ext_contents, reader) = cursor_read ext_len reader;
                oldpos = unat ((of_nat (cpos reader) :: u64) - 4 - of_nat ext_len)
            in bind_r (slice_r (cbuf reader) 0 oldpos) (\<lambda>auth_dat.
               bind_r (parse_decrypt_auth_ext A key auth_dat auth_ext_contents) (\<lambda>enc_ext_data.
               bind_r (parse_extensions enc_ext_data) (\<lambda>enc_exts.
               Ok \<lparr>nts_header = header, auth_exts = aexts, auth_enc_exts = enc_exts\<rparr>)))
          else
            let (conts, reader) = cursor_read ext_len reader
            in parse_nts_loop A key header reader
                 (aexts @ [\<lparr>ext_type = type_from_wire ety, contents = conts\<rparr>])))
      else Err (Io_Error InvalidInput ''never saw the authenticator''))"
  by pat_completeness auto
termination
proof (relation "measure (\<lambda>(_, _, _, c, _). remaining c)", goal_cases)
  case (2 A key header reader aexts x ety c1 y len c2 ext_len z conts c3)
  have "c1 = reader\<lparr>cpos := cpos reader + 2\<rparr>" and "c2 = c1\<lparr>cpos := cpos c1 + 2\<rparr>"
    using 2 by (auto simp: cursor_simps)
  then have "remaining c2 < remaining reader"
    using 2(1) by (simp add: remaining_def)
  moreover have "remaining c3 \<le> remaining c2"
    using 2 cursor_read_props(4) [of ext_len c2] by (metis snd_conv)
  ultimately show ?case by simp
qed simp

declare parse_nts_loop.simps [simp del]

definition parse_nts_packet :: "aead \<Rightarrow> bytes \<Rightarrow> bytes \<Rightarrow> (nts_packet, io_error) result" where
  "parse_nts_packet A key buff =
     bind_r (parse_packet_header buff) (\<lambda>header.
       parse_nts_loop A key header ((new_cursor buff)\<lparr>cpos := HEADER_SIZE\<rparr>) [])"

text \<open>
  \<^verbatim>\<open>serialize_nts_packet\<close>; the random nonce of \<^verbatim>\<open>thread_rng().fill\<close> is an argument.
\<close>

definition serialize_nts_packet ::
  "aead \<Rightarrow> bytes \<Rightarrow> bytes \<Rightarrow> nts_packet \<Rightarrow> (bytes, 'e) result" where
  "serialize_nts_packet A key nonce packet =
     bind_r (serialize_extensions (auth_exts packet)) (\<lambda>aes.
     let buff = serialize_header (nts_header packet) @ aes in
     bind_r (serialize_extensions (auth_enc_exts packet)) (\<lambda>plaintext.
     let ciphertext = aead_seal A key nonce buff plaintext;
         authent_buffer = u16_to_be (of_nat NONCE_LEN) @ u16_to_be (of_nat (length ciphertext)) @
           nonce @ ciphertext @ replicate (pad4 (length ciphertext)) 0
     in bind_r (serialize_extensions [\<lparr>ext_type = NTSAuthenticator, contents = authent_buffer\<rparr>])
          (\<lambda>res. Ok (buff @ res))))"

section \<open>Round trips of types, first byte and header\<close>

definition canonical_type :: "ntp_extension_type \<Rightarrow> bool" where
  "canonical_type t \<longleftrightarrow> type_from_wire (wire_type t) = t"

lemma canonical_known [simp]:
  "canonical_type UniqueIdentifier" "canonical_type NTSCookie"
  "canonical_type NTSCookiePlaceholder" "canonical_type NTSAuthenticator"
  by (simp_all add: canonical_type_def type_from_wire_def ext_type_defs)

lemma wire_type_from_wire [simp]: "wire_type (type_from_wire w) = w"
  by (simp add: type_from_wire_def)

lemma canonical_type_from_wire [simp]: "canonical_type (type_from_wire w)"
  by (simp add: canonical_type_def)

lemma u8_less_8_cases:
  "(v :: u8) < 8 \<Longrightarrow> v = 0 \<or> v = 1 \<or> v = 2 \<or> v = 3 \<or> v = 4 \<or> v = 5 \<or> v = 6 \<or> v = 7"
proof -
  assume "v < 8"
  then have "unat v < 8" by (simp add: word_less_nat_alt)
  then have "unat v \<in> {0, 1, 2, 3, 4, 5, 6, 7}" by auto
  then have "(of_nat (unat v) :: u8) \<in> of_nat ` {0, 1, 2, 3, 4, 5, 6, 7}" by (rule imageI)
  then show ?thesis by simp
qed

lemma parse_create_first:
  assumes "v < 8"
  shows "parse_leap_indicator (create_first l v m) = l"
    and "parse_version (create_first l v m) = v"
    and "parse_mode (create_first l v m) = m"
  using u8_less_8_cases [OF assms]
  by (cases l; cases m; auto simp: create_first_def parse_leap_indicator_def parse_version_def
        parse_mode_def)+

lemma length_serialize_header [simp, byte_simps]: "length (serialize_header h) = 48"
  by (simp add: serialize_header_def)

lemma parse_packet_header_long:
  assumes "48 \<le> length p"
  shows "parse_packet_header p =
    Ok \<lparr>leap_indicator = parse_leap_indicator (hd p), version = parse_version (hd p),
        mode = parse_mode (hd p), stratum = p ! 1, poll = p ! 2, precision = p ! 3,
        root_delay = u32_from_be (take 4 (drop 4 p)),
        root_dispersion = u32_from_be (take 4 (drop 8 p)),
        reference_id = u32_from_be (take 4 (drop 12 p)),
        reference_timestamp = u64_from_be (take 8 (drop 16 p)),
        origin_timestamp = u64_from_be (take 8 (drop 24 p)),
        receive_timestamp = u64_from_be (take 8 (drop 32 p)),
        transmit_timestamp = u64_from_be (take 8 (drop 40 p))\<rparr>"
  using assms
  by (simp add: parse_packet_header_def reads_Ok rest_def remaining_def hd_drop_conv_nth
      del: One_nat_def)

lemma parse_serialize_header:
  assumes "version h < 8"
  shows "parse_packet_header (serialize_header h @ r) = Ok h"
  by (simp add: parse_packet_header_long serialize_header_def parse_create_first assms)

section \<open>Extension fields: framing and round trip\<close>

definition ext_bytes :: "ntp_extension \<Rightarrow> bytes" where
  "ext_bytes e = u16_to_be (wire_type (ext_type e)) @
     u16_to_be (of_nat (length (contents e) + 4)) @ contents e"

definition wf_ext :: "ntp_extension \<Rightarrow> bool" where
  "wf_ext e \<longleftrightarrow> canonical_type (ext_type e) \<and> length (contents e) mod 4 = 0 \<and>
     length (contents e) + 4 < 65536"

lemma length_ext_bytes [simp, byte_simps]: "length (ext_bytes e) = length (contents e) + 4"
  by (simp add: ext_bytes_def)

lemma ext_eta [simp]: "\<lparr>ext_type = ext_type e, contents = contents e\<rparr> = e"
  by (cases e) simp

lemma serialize_extensions_Ok:
  "\<forall>e\<in>set es. length (contents e) mod 4 = 0 \<Longrightarrow>
     serialize_extensions es = Ok (concat (map ext_bytes es))"
  by (induction es) (auto simp: ext_bytes_def)

lemma serialize_extensions_wf:
  "list_all wf_ext es \<Longrightarrow> serialize_extensions es = Ok (concat (map ext_bytes es))"
  by (rule serialize_extensions_Ok) (auto simp: wf_ext_def list_all_iff)

lemma panics_serialize_extensions:
  "panics (serialize_extensions es) \<longleftrightarrow> (\<exists>e\<in>set es. length (contents e) mod 4 \<noteq> 0)"
  by (induction es) (auto simp: result_simps)

lemma take_drop_ext:
  assumes "rest c = ext_bytes e @ r"
  shows "take 2 (rest c) = u16_to_be (wire_type (ext_type e))"
    and "take 2 (drop 2 (rest c)) = u16_to_be (of_nat (length (contents e) + 4))"
    and "drop 4 (rest c) = contents e @ r"
    and "4 + length (contents e) \<le> remaining c"
  using assms length_rest [of c] by (simp_all add: ext_bytes_def)

lemma parse_extensions_loop_ext:
  assumes r: "rest c = ext_bytes e @ r" and wf: "wf_ext e"
  shows "parse_extensions_loop c acc =
         parse_extensions_loop (c\<lparr>cpos := cpos c + length (ext_bytes e)\<rparr>) (acc @ [e])"
proof -
  note t = take_drop_ext [OF r]
  have l: "length (contents e) + 4 < 65536" "length (contents e) mod 4 = 0"
    using wf by (simp_all add: wf_ext_def)
  let ?c2 = "c\<lparr>cpos := cpos c + 4\<rparr>"
  have rd: "read_u16 c = Ok (wire_type (ext_type e), c\<lparr>cpos := cpos c + 2\<rparr>)"
    "read_u16 (c\<lparr>cpos := cpos c + 2\<rparr>) = Ok (of_nat (length (contents e) + 4), ?c2)"
    using t by (simp_all add: reads_Ok add.assoc)
  have cr: "cursor_read (length (contents e)) ?c2 =
      (contents e, c\<lparr>cpos := cpos c + length (ext_bytes e)\<rparr>)"
    using t by (simp add: cursor_read_full add_ac)
  have "(of_nat (length (contents e) + 4) :: u16) mod 4 = 0"
    "\<not> (of_nat (length (contents e) + 4) :: u16) < 4"
    using l by (simp_all add: u16_of_nat_mod_4 u16_of_nat_less_4 del: of_nat_add)
  moreover have "4 \<le> length (cbuf c) - cpos c"
    using t(4) by (simp add: remaining_def)
  moreover have "type_from_wire (wire_type (ext_type e)) = ext_type e"
    using wf by (simp add: wf_ext_def canonical_type_def)
  ultimately show ?thesis
    by (subst parse_extensions_loop.simps)
       (simp add: rd cr u16_of_nat_minus_4 [OF l(1)] del: of_nat_add)
qed

lemma parse_extensions_loop_done:
  "remaining c < 4 \<Longrightarrow> parse_extensions_loop c acc = Ok acc"
  by (subst parse_extensions_loop.simps) (simp add: remaining_def)

lemma parse_extensions_loop_concat:
  assumes "list_all wf_ext es" and "rest c = concat (map ext_bytes es) @ r" and "length r < 4"
  shows "parse_extensions_loop c acc = Ok (acc @ es)"
  using assms
proof (induction es arbitrary: c acc)
  case Nil
  then show ?case using length_rest [of c] by (simp add: parse_extensions_loop_done)
next
  case (Cons e es)
  let ?c = "c\<lparr>cpos := cpos c + length (ext_bytes e)\<rparr>"
  have "rest ?c = concat (map ext_bytes es) @ r"
    using Cons.prems(2) by (simp del: length_ext_bytes)
  then have "parse_extensions_loop ?c (acc @ [e]) = Ok ((acc @ [e]) @ es)"
    using Cons.prems by (intro Cons.IH) simp_all
  then show ?case
    using Cons.prems by (simp add: parse_extensions_loop_ext del: length_ext_bytes)
qed

lemma parse_extensions_concat:
  "list_all wf_ext es \<Longrightarrow> parse_extensions (concat (map ext_bytes es)) = Ok es"
  by (simp add: parse_extensions_def parse_extensions_loop_concat [where r = "[]"])

lemma parse_extensions_loop_OkE:
  assumes "parse_extensions_loop c acc = Ok es" and "4 \<le> length (cbuf c) - cpos c"
  obtains ety c1 l c2 conts c3 where "read_u16 c = Ok (ety, c1)" "read_u16 c1 = Ok (l, c2)"
    "cursor_read (unat (l - 4)) c2 = (conts, c3)" "l mod 4 = 0" "\<not> l < 4"
    "parse_extensions_loop c3 (acc @ [\<lparr>ext_type = type_from_wire ety, contents = conts\<rparr>]) = Ok es"
  using assms
  by (auto simp: parse_extensions_loop.simps [of c] result_simps split: if_splits prod.splits)

lemma parse_extensions_loop_wf:
  "parse_extensions_loop c acc = Ok es \<Longrightarrow> list_all wf_ext acc \<Longrightarrow> list_all wf_ext es"
proof (induction c acc arbitrary: es rule: parse_extensions_loop.induct)
  case (1 c acc)
  show ?case
  proof (cases "4 \<le> length (cbuf c) - cpos c")
    case False
    then show ?thesis using "1.prems" by (simp add: parse_extensions_loop.simps [of c])
  next
    case True
    obtain ety c1 l c2 conts c3 where rd: "read_u16 c = Ok (ety, c1)" "read_u16 c1 = Ok (l, c2)"
      and cr: "cursor_read (unat (l - 4)) c2 = (conts, c3)"
      and l: "l mod 4 = 0" "\<not> l < 4"
      and rec: "parse_extensions_loop c3 (acc @ [\<lparr>ext_type = type_from_wire ety, contents = conts\<rparr>]) = Ok es"
      by (rule parse_extensions_loop_OkE [OF "1.prems"(1) True])
    have "length conts = unat (l - 4)" using cursor_read_props(1) [of "unat (l - 4)" c2] cr by simp
    moreover have "unat (l - 4) = unat l - 4" using l(2) by (intro u16_minus_4) (simp add: word_less_nat_alt)
    moreover have "unat l mod 4 = 0" using l(1) by (simp add: word_unat_eq_iff unat_mod)
    moreover have "4 \<le> unat l" using l(2) by (simp add: word_less_nat_alt)
    ultimately have "wf_ext \<lparr>ext_type = type_from_wire ety, contents = conts\<rparr>"
      using unat_width(1) [of l] by (auto simp: wf_ext_def mod_eq_0_iff_dvd)
    then show ?thesis
      using "1.IH" [OF True rd(1) refl rd(2) refl _ _ cr [symmetric] refl rec] l "1.prems"(2) by simp
  qed
qed

lemma parse_extensions_wf: "parse_extensions b = Ok es \<Longrightarrow> list_all wf_ext es"
  unfolding parse_extensions_def by (erule parse_extensions_loop_wf) simp

lemma parse_extensions_loop_no_panic: "\<not> panics (parse_extensions_loop c acc)"
proof (induction c acc rule: parse_extensions_loop.induct)
  case (1 c acc)
  have "\<not> panics (read_u16 c)" for c by (simp add: read_u16_def read_exact_def)
  then show ?case
    using "1.IH" by (subst parse_extensions_loop.simps) (auto simp: result_simps split: prod.splits)
qed

lemma parse_extensions_loop_prefix: "parse_extensions_loop c acc = Ok es \<Longrightarrow> prefix acc es"
proof (induction c acc rule: parse_extensions_loop.induct)
  case (1 c acc)
  show ?case
  proof (cases "4 \<le> length (cbuf c) - cpos c")
    case False
    then show ?thesis using "1.prems" by (simp add: parse_extensions_loop.simps [of c])
  next
    case True
    obtain ety c1 l c2 conts c3 where rd: "read_u16 c = Ok (ety, c1)" "read_u16 c1 = Ok (l, c2)"
      and cr: "cursor_read (unat (l - 4)) c2 = (conts, c3)" and l: "l mod 4 = 0" "\<not> l < 4"
      and rec: "parse_extensions_loop c3 (acc @ [\<lparr>ext_type = type_from_wire ety, contents = conts\<rparr>]) = Ok es"
      by (rule parse_extensions_loop_OkE [OF "1.prems" True])
    show ?thesis
      using "1.IH" [OF True rd(1) refl rd(2) refl _ _ cr [symmetric] refl rec] l
      by (auto simp: prefix_def)
  qed
qed

lemma parse_extensions_loop_rest:
  "rest c = rest d \<Longrightarrow> parse_extensions_loop c acc = parse_extensions_loop d acc"
proof (induction c acc arbitrary: d rule: parse_extensions_loop.induct)
  case (1 c acc)
  have rem: "remaining c = remaining d"
    using "1.prems" length_rest [of c] length_rest [of d] by simp
  show ?case
  proof (cases "4 \<le> remaining c")
    case False
    then show ?thesis using rem by (simp add: parse_extensions_loop_done)
  next
    case True
    let ?c2 = "c\<lparr>cpos := cpos c + 4\<rparr>" and ?d2 = "d\<lparr>cpos := cpos d + 4\<rparr>"
    let ?t = "u16_from_be (take 2 (rest c))" and ?l = "u16_from_be (take 2 (drop 2 (rest c)))"
    have rdc: "read_u16 c = Ok (?t, c\<lparr>cpos := cpos c + 2\<rparr>)"
      "read_u16 (c\<lparr>cpos := cpos c + 2\<rparr>) = Ok (?l, ?c2)"
      using True by (simp_all add: reads_Ok add.assoc)
    have rdd: "read_u16 d = Ok (?t, d\<lparr>cpos := cpos d + 2\<rparr>)"
      "read_u16 (d\<lparr>cpos := cpos d + 2\<rparr>) = Ok (?l, ?d2)"
      using True rem "1.prems" by (simp_all add: reads_Ok add.assoc)
    have "rest ?c2 = rest ?d2" using "1.prems" by simp
    from cursor_read_rest [OF this, of "unat (?l - 4)"]
    obtain conts c3 d3 where cr: "cursor_read (unat (?l - 4)) ?c2 = (conts, c3)"
        "cursor_read (unat (?l - 4)) ?d2 = (conts, d3)" and r3: "rest c3 = rest d3"
      by (metis prod.collapse)
    have g: "4 \<le> length (cbuf c) - cpos c" "4 \<le> length (cbuf d) - cpos d"
      using True rem by (simp_all add: remaining_def)
    note IH = "1.IH" [OF g(1) rdc(1) refl rdc(2) refl _ _ cr(1) [symmetric] refl r3]
    show ?thesis
      using g IH by (simp add: parse_extensions_loop.simps [of c] parse_extensions_loop.simps [of d]
          rdc rdd cr)
  qed
qed

lemma parse_extensions_no_panic: "\<not> panics (parse_extensions b)"
  by (simp add: parse_extensions_def parse_extensions_loop_no_panic)

lemma parse_packet_header_no_panic: "\<not> panics (parse_packet_header b)"
  by (cases "length b < 48") (simp add: parse_packet_header_def, simp add: parse_packet_header_long)

lemma parse_packet_header_Ok_length: "parse_packet_header b = Ok h \<Longrightarrow> 48 \<le> length b"
  by (simp add: parse_packet_header_def split: if_splits)

lemma parse_ntp_packet_no_panic: "\<not> panics (parse_ntp_packet b)"
  using parse_packet_header_no_panic parse_extensions_no_panic
  by (auto simp: parse_ntp_packet_def result_simps slice_r_def dest: parse_packet_header_Ok_length)


end
