(* ===== verification/Protocol_Nts.thy ===== *)
theory Protocol_Nts
  imports Protocol
begin

text \<open>
  Properties of the NTS half of \<^verbatim>\<open>src/src/ntp/protocol.rs\<close>: the round trip of authenticated
  packets, what an accepted packet says about the bytes that were authenticated, when the
  parser panics, and how its view of a message relates to that of \<open>parse_ntp_packet\<close>.
\<close>

section \<open>The cursor loop over extensions and the authenticator\<close>

lemma oldpos_eq:
  assumes "p < 2 ^ 64" and "n < 2 ^ 63"
  shows "unat ((of_nat p :: u64) - 4 - of_nat n) =
    (if 4 + n \<le> p then p - 4 - n else 2 ^ 64 + p - 4 - n)"
proof -
  have "(of_nat p :: u64) - 4 - of_nat n = word_of_int (int p - 4 - int n)"
    by simp
  then have *: "unat ((of_nat p :: u64) - 4 - of_nat n) = nat ((int p - 4 - int n) mod 2 ^ 64)"
    by (simp only: unat_eq_nat_uint uint_word_of_int) simp
  show ?thesis
  proof (cases "4 + n \<le> p")
    case True
    then have "(int p - 4 - int n) mod 2 ^ 64 = int p - 4 - int n"
      using assms by (intro mod_pos_pos_trivial) auto
    with True * show ?thesis by auto
  next
    case False
    have "(int p - 4 - int n) mod 2 ^ 64 = (int p - 4 - int n + 2 ^ 64) mod 2 ^ 64"
      by (rule mod_add_self2 [symmetric])
    also have "\<dots> = int p - 4 - int n + 2 ^ 64"
      using False assms by (intro mod_pos_pos_trivial) auto
    finally show ?thesis using False * by auto
  qed
qed

lemma parse_nts_loop_ext:
  assumes r: "rest c = ext_bytes e @ r" and wf: "canonical_type (ext_type e)"
    and l: "length (contents e) + 4 < 65536" and na: "ext_type e \<noteq> NTSAuthenticator"
  shows "parse_nts_loop A key h c acc =
         parse_nts_loop A key h (c\<lparr>cpos := cpos c + length (ext_bytes e)\<rparr>) (acc @ [e])"
proof -
  note t = take_drop_ext [OF r]
  let ?c2 = "c\<lparr>cpos := cpos c + 4\<rparr>"
  have rd: "read_u16 c = Ok (wire_type (ext_type e), c\<lparr>cpos := cpos c + 2\<rparr>)"
    "read_u16 (c\<lparr>cpos := cpos c + 2\<rparr>) = Ok (of_nat (length (contents e) + 4), ?c2)"
    using t by (simp_all add: reads_Ok add.assoc)
  have cr: "cursor_read (length (contents e)) ?c2 =
      (contents e, c\<lparr>cpos := cpos c + length (ext_bytes e)\<rparr>)"
    using t by (simp add: cursor_read_full add_ac)
  have "4 \<le> length (cbuf c) - cpos c"
    using t(4) by (simp add: remaining_def)
  moreover have "type_from_wire (wire_type (ext_type e)) = ext_type e"
    using wf by (simp add: canonical_type_def)
  ultimately show ?thesis using na
    by (subst parse_nts_loop.simps)
       (simp add: rd cr u16_of_nat_minus_4 [OF l(1)] Let_def del: of_nat_add)
qed

lemma parse_nts_loop_auth:
  assumes r: "rest c = u16_to_be EXT_TYPE_NTS_AUTHENTICATOR @ u16_to_be l @ t"
  shows "parse_nts_loop A key h c acc =
    (let n = unat (l - 4); k = min n (length t);
         oldpos = unat ((of_nat (cpos c + 4 + k) :: u64) - 4 - of_nat n)
     in bind_r (slice_r (cbuf c) 0 oldpos) (\<lambda>ad.
        bind_r (parse_decrypt_auth_ext A key ad (take k t @ replicate (n - k) 0)) (\<lambda>pt.
        bind_r (parse_extensions pt) (\<lambda>enc.
        Ok \<lparr>nts_header = h, auth_exts = acc, auth_enc_exts = enc\<rparr>))))"
proof -
  have len: "remaining c = 4 + length t"
    using length_rest [of c] r by simp
  have tk: "take 2 (rest c) = u16_to_be EXT_TYPE_NTS_AUTHENTICATOR"
    "take 2 (drop 2 (rest c)) = u16_to_be l" "drop 4 (rest c) = t"
    using r by simp_all
  let ?c2 = "c\<lparr>cpos := cpos c + 4\<rparr>"
  have rd: "read_u16 c = Ok (EXT_TYPE_NTS_AUTHENTICATOR, c\<lparr>cpos := cpos c + 2\<rparr>)"
    "read_u16 (c\<lparr>cpos := cpos c + 2\<rparr>) = Ok (l, ?c2)"
    using tk len by (simp_all add: reads_Ok add.assoc)
  have "4 \<le> length (cbuf c) - cpos c"
    using len by (simp add: remaining_def)
  moreover have "type_from_wire EXT_TYPE_NTS_AUTHENTICATOR = NTSAuthenticator"
    by (simp add: type_from_wire_def ext_type_defs)
  ultimately show ?thesis
    by (subst parse_nts_loop.simps)
       (simp add: rd cursor_read_def tk len Let_def)
qed

lemma pad4_less: "pad4 n < 4"
  by (simp add: pad4_def)

lemma pad4_aligns: "(n + pad4 n) mod 4 = 0"
proof -
  have "n mod 4 < 4" by simp
  then consider "n mod 4 = 0" | "n mod 4 = 1" | "n mod 4 = 2" | "n mod 4 = 3" by linarith
  then show ?thesis
    by cases (simp_all add: pad4_def mod_add_left_eq [of n 4, symmetric] mod_Suc
        del: mod_add_left_eq)
qed

definition exts_size :: "ntp_extension list \<Rightarrow> nat" where
  "exts_size es = sum_list (map (\<lambda>e. length (contents e) + 4) es)"

lemma length_concat_ext_bytes [simp]: "length (concat (map ext_bytes es)) = exts_size es"
  by (induction es) (simp_all add: exts_size_def)

text \<open>The body of an authenticator: lengths, nonce, ciphertext, padding.\<close>

definition auth_body :: "bytes \<Rightarrow> bytes \<Rightarrow> bytes \<Rightarrow> bytes" where
  "auth_body nonce ct pad =
     u16_to_be (of_nat (length nonce)) @ u16_to_be (of_nat (length ct)) @ nonce @ ct @ pad"

lemma length_auth_body [simp]:
  "length (auth_body nonce ct pad) = 4 + length nonce + length ct + length pad"
  by (simp add: auth_body_def)

lemma parse_decrypt_auth_body:
  assumes n: "length nonce = 16" and c: "length ct < 65536" and p: "pad4 (length ct) \<le> length pad"
  shows "parse_decrypt_auth_ext A key ad (auth_body nonce ct pad) =
    (case aead_open A key nonce ad ct of
       None \<Rightarrow> Err (Io_Error InvalidInput ''authentication failed'') | Some res \<Rightarrow> Ok res)"
proof -
  let ?b = "auth_body nonce ct pad"
  have rd: "read_u16 (new_cursor ?b) = Ok (16, (new_cursor ?b)\<lparr>cpos := 2\<rparr>)"
    "read_u16 ((new_cursor ?b)\<lparr>cpos := 2\<rparr>) = Ok (of_nat (length ct), (new_cursor ?b)\<lparr>cpos := 4\<rparr>)"
    using n by (simp_all add: reads_Ok remaining_def rest_def auth_body_def)
  have "(slice_r ?b 4 20 :: (bytes, io_error) result) = Ok nonce"
    "(slice_r ?b 20 (20 + length ct) :: (bytes, io_error) result) = Ok ct"
    using n by (simp_all add: slice_r_def auth_body_def)
  moreover have "pad4 16 = 0" by (simp add: pad4_def)
  ultimately show ?thesis
    using n c p rd by (simp add: parse_decrypt_auth_ext_def Let_def unat_of_nat_u16)
qed

text \<open>An extension the framing can carry: a canonical type and a length that fits.\<close>

definition fits_ext :: "ntp_extension \<Rightarrow> bool" where
  "fits_ext e \<longleftrightarrow> canonical_type (ext_type e) \<and> length (contents e) + 4 < 65536"

lemma wf_ext_fits: "wf_ext e \<Longrightarrow> fits_ext e"
  by (simp add: wf_ext_def fits_ext_def)

lemma list_all_wf_fits: "list_all wf_ext es \<Longrightarrow> list_all fits_ext es"
  by (auto simp: list_all_iff wf_ext_fits)

lemma parse_packet_header_append:
  "48 \<le> length hb \<Longrightarrow> parse_packet_header (hb @ r) = parse_packet_header hb"
  by (auto simp: parse_packet_header_long hd_append nth_append)

lemma parse_nts_loop_exts:
  assumes "list_all fits_ext es" and "list_all (\<lambda>e. ext_type e \<noteq> NTSAuthenticator) es"
    and "rest c = concat (map ext_bytes es) @ r"
  shows "parse_nts_loop A key h c acc =
         parse_nts_loop A key h (c\<lparr>cpos := cpos c + exts_size es\<rparr>) (acc @ es)"
  using assms
proof (induction es arbitrary: c acc)
  case Nil
  then show ?case by (simp add: exts_size_def)
next
  case (Cons e es)
  let ?c = "c\<lparr>cpos := cpos c + length (ext_bytes e)\<rparr>"
  have r: "rest ?c = concat (map ext_bytes es) @ r"
    using Cons.prems(3) by (simp del: length_ext_bytes)
  have "parse_nts_loop A key h c acc = parse_nts_loop A key h ?c (acc @ [e])"
    using Cons.prems by (intro parse_nts_loop_ext [of c e "concat (map ext_bytes es) @ r"]) (auto simp: fits_ext_def)
  also have "\<dots> = parse_nts_loop A key h (?c\<lparr>cpos := cpos ?c + exts_size es\<rparr>) ((acc @ [e]) @ es)"
    using Cons.prems r by (intro Cons.IH) simp_all
  finally show ?case by (simp add: exts_size_def add.assoc)
qed

text \<open>An NTS message: header, extensions, and an authenticator whose header declares \<open>l\<close>.\<close>

definition nts_wire :: "bytes \<Rightarrow> ntp_extension list \<Rightarrow> u16 \<Rightarrow> bytes \<Rightarrow> bytes" where
  "nts_wire hb es l body =
     hb @ concat (map ext_bytes es) @
     u16_to_be EXT_TYPE_NTS_AUTHENTICATOR @ u16_to_be l @ body"

lemma slice_oldpos:
  assumes "p + 4 + k \<le> length w" and "length w < 2 ^ 63" and "n < 65536"
  shows "(slice_r w 0 (unat ((of_nat (p + 4 + k) :: u64) - 4 - of_nat n)) :: (bytes, 'e) result) =
    (if p + k < n then Panic ''range out of bounds of slice'' else Ok (take (p + k - n) w))"
proof -
  have "unat ((of_nat (p + 4 + k) :: u64) - 4 - of_nat n) =
      (if n \<le> p + k then p + k - n else 2 ^ 64 + (p + k) - n)"
    using assms oldpos_eq [of "p + 4 + k" n] by (auto simp del: of_nat_add)
  with assms show ?thesis by (auto simp: slice_r_def simp del: of_nat_add)
qed

lemma parse_nts_wire:
  assumes hb: "parse_packet_header hb = Ok h" "length hb = 48" and wf: "list_all fits_ext es"
    and na: "list_all (\<lambda>e. ext_type e \<noteq> NTSAuthenticator) es"
    and small: "length (nts_wire hb es l body) < 2 ^ 63"
  shows "parse_nts_packet A key (nts_wire hb es l body) =
    (let n = unat (l - 4); k = min n (length body); p = 48 + exts_size es in
     if p + k < n then Panic ''range out of bounds of slice''
     else bind_r (parse_decrypt_auth_ext A key (take (p + k - n) (nts_wire hb es l body))
                    (take k body @ replicate (n - k) 0)) (\<lambda>pt.
          bind_r (parse_extensions pt) (\<lambda>enc.
          Ok \<lparr>nts_header = h, auth_exts = es, auth_enc_exts = enc\<rparr>)))"
proof -
  let ?w = "nts_wire hb es l body" and ?c = "(new_cursor (nts_wire hb es l body))\<lparr>cpos := 48\<rparr>"
  let ?n = "unat (l - 4)" and ?p = "48 + exts_size es"
  let ?k = "min ?n (length body)" and ?c' = "?c\<lparr>cpos := cpos ?c + exts_size es\<rparr>"
  have hd: "parse_packet_header ?w = Ok h"
    using hb parse_packet_header_append [of hb] by (simp add: nts_wire_def)
  have "rest ?c = concat (map ext_bytes es) @
      u16_to_be EXT_TYPE_NTS_AUTHENTICATOR @ u16_to_be l @ body"
    using hb by (simp add: nts_wire_def rest_def)
  then have lp: "parse_nts_loop A key h ?c [] = parse_nts_loop A key h ?c' es"
    using parse_nts_loop_exts [OF wf na, of ?c _ A key h "[]"] by simp
  have r: "rest ?c' = u16_to_be EXT_TYPE_NTS_AUTHENTICATOR @ u16_to_be l @ body"
    using hb by (simp add: nts_wire_def rest_def)
  have len: "length ?w = ?p + 4 + length body"
    using hb by (simp add: nts_wire_def)
  have "parse_nts_packet A key ?w = parse_nts_loop A key h ?c' es"
    unfolding parse_nts_packet_def hd HEADER_SIZE_def bind_r.simps by (rule lp)
  also have "\<dots> = bind_r (slice_r ?w 0 (unat ((of_nat (?p + 4 + ?k) :: u64) - 4 - of_nat ?n))) (\<lambda>ad.
        bind_r (parse_decrypt_auth_ext A key ad (take ?k body @ replicate (?n - ?k) 0)) (\<lambda>pt.
        bind_r (parse_extensions pt) (\<lambda>enc.
        Ok \<lparr>nts_header = h, auth_exts = es, auth_enc_exts = enc\<rparr>)))"
    unfolding parse_nts_loop_auth [OF r] Let_def by simp
  also have "slice_r ?w 0 (unat ((of_nat (?p + 4 + ?k) :: u64) - 4 - of_nat ?n)) =
      (if ?p + ?k < ?n then Panic ''range out of bounds of slice'' else Ok (take (?p + ?k - ?n) ?w))"
    by (rule slice_oldpos) (use small len unat_width(1) [of "l - 4"] in auto)
  finally show ?thesis
    by (cases "?p + ?k < ?n") (simp_all only: Let_def if_True if_False bind_r.simps)
qed

definition plaintext_of :: "nts_packet \<Rightarrow> bytes" where
  "plaintext_of p = concat (map ext_bytes (auth_enc_exts p))"

definition ad_of :: "nts_packet \<Rightarrow> bytes" where
  "ad_of p = serialize_header (nts_header p) @ concat (map ext_bytes (auth_exts p))"

definition nts_wire_size :: "nts_packet \<Rightarrow> nat" where
  "nts_wire_size p =
     (let ct = exts_size (auth_enc_exts p) + 16
      in 48 + exts_size (auth_exts p) + 4 + (4 + 16 + ct + pad4 ct))"

definition wf_nts_packet :: "nts_packet \<Rightarrow> bool" where
  "wf_nts_packet p \<longleftrightarrow>
     version (nts_header p) < 8 \<and> list_all wf_ext (auth_exts p) \<and>
     list_all (\<lambda>e. ext_type e \<noteq> NTSAuthenticator) (auth_exts p) \<and>
     list_all wf_ext (auth_enc_exts p) \<and> nts_wire_size p < 65536"

lemma nts_eta [simp]:
  "\<lparr>nts_header = nts_header p, auth_exts = auth_exts p, auth_enc_exts = auth_enc_exts p\<rparr> = p"
  by (cases p) simp

lemma serialize_nts_packet_wire:
  assumes aligned: "\<forall>e\<in>set (auth_exts p) \<union> set (auth_enc_exts p). length (contents e) mod 4 = 0"
    and n: "length nonce = 16"
  shows "serialize_nts_packet A key nonce p =
    (let ct = aead_seal A key nonce (ad_of p) (plaintext_of p);
         body = auth_body nonce ct (replicate (pad4 (length ct)) 0)
     in Ok (nts_wire (serialize_header (nts_header p)) (auth_exts p)
              (of_nat (length body + 4)) body))"
proof -
  let ?ct = "aead_seal A key nonce (ad_of p) (plaintext_of p)"
  let ?body = "auth_body nonce ?ct (replicate (pad4 (length ?ct)) 0)"
  have s: "(serialize_extensions (auth_exts p) :: (bytes, 'b) result) = Ok (concat (map ext_bytes (auth_exts p)))"
    "(serialize_extensions (auth_enc_exts p) :: (bytes, 'b) result) = Ok (plaintext_of p)"
    using aligned by (auto simp: plaintext_of_def intro!: serialize_extensions_Ok)
  have b: "?body = u16_to_be (of_nat NONCE_LEN) @ u16_to_be (of_nat (length ?ct)) @ nonce @ ?ct @
      replicate (pad4 (length ?ct)) 0"
    using n by (simp add: auth_body_def NONCE_LEN_def)
  have "length ?body mod 4 = 0"
    using pad4_aligns [of "length ?ct"] n by (simp add: mod_add_left_eq [of 20, symmetric] add.assoc)
  then show ?thesis
    unfolding serialize_nts_packet_def s bind_r.simps Let_def ad_of_def [symmetric] b [symmetric]
    by (simp add: nts_wire_def ad_of_def del: of_nat_add)
qed

lemma parse_serialize_header': "version h < 8 \<Longrightarrow> parse_packet_header (serialize_header h) = Ok h"
  using parse_serialize_header [of h "[]"] by simp

text \<open>Opening a message with trailing truncation of \<open>d\<close> bytes.\<close>

lemma parse_nts_wire_auth_body:
  assumes hb: "parse_packet_header hb = Ok h" "length hb = 48" and wf: "list_all fits_ext es"
    and na: "list_all (\<lambda>e. ext_type e \<noteq> NTSAuthenticator) es"
    and body: "body = auth_body nonce ct pad" "length nonce = 16" "length ct < 65536"
      "pad4 (length ct) \<le> length pad"
    and small: "length body + d + 4 < 65536" "exts_size es < 2 ^ 62" and d: "d \<le> 48 + exts_size es"
  shows "parse_nts_packet A key (nts_wire hb es (of_nat (length body + d + 4)) body) =
    (case aead_open A key nonce (take (48 + exts_size es - d) (hb @ concat (map ext_bytes es))) ct of
       None \<Rightarrow> Err (Io_Error InvalidInput ''authentication failed'')
     | Some pt \<Rightarrow> bind_r (parse_extensions pt) (\<lambda>enc.
          Ok \<lparr>nts_header = h, auth_exts = es, auth_enc_exts = enc\<rparr>))"
proof -
  let ?l = "of_nat (length body + d + 4) :: u16" and ?w = "nts_wire hb es (of_nat (length body + d + 4)) body"
  have n: "unat (?l - 4) = length body + d"
    using small(1) by (rule u16_of_nat_minus_4)
  have k: "min (length body + d) (length body) = length body" by simp
  have pd: "take (length body) body @ replicate (length body + d - length body) 0 =
      auth_body nonce ct (pad @ replicate d 0)"
    using body(1) by (simp add: auth_body_def)
  have tk: "take (48 + exts_size es + length body - (length body + d)) ?w =
      take (48 + exts_size es - d) (hb @ concat (map ext_bytes es))"
    using hb(2) by (simp add: nts_wire_def)
  have lw: "length ?w < 2 ^ 63"
    using small hb(2) by (simp add: nts_wire_def)
  have op: "parse_decrypt_auth_ext A key ad (auth_body nonce ct (pad @ replicate d 0)) =
    (case aead_open A key nonce ad ct of
       None \<Rightarrow> Err (Io_Error InvalidInput ''authentication failed'') | Some res \<Rightarrow> Ok res)" for ad
    using body by (intro parse_decrypt_auth_body) auto
  have nlt: "\<not> 48 + exts_size es + length body < length body + d"
    using d by simp
  show ?thesis
    unfolding parse_nts_wire [OF hb wf na lw] Let_def n k pd tk op
    using nlt by (simp split: option.split)
qed

text \<open>It suffices that the AEAD opens what was sealed for this one packet.\<close>

lemma parse_sealed_nts:
  assumes A: "aead_open A key nonce (ad_of p) (aead_seal A key nonce (ad_of p) (plaintext_of p)) = Some (plaintext_of p)"
      "aead_expands A" and n: "length nonce = NONCE_LEN"
    and wf: "wf_nts_packet p"
  shows "\<exists>w. serialize_nts_packet A key nonce p = Ok w \<and> length w = nts_wire_size p \<and>
             parse_nts_packet A key w = Ok p"
proof -
  let ?ct = "aead_seal A key nonce (ad_of p) (plaintext_of p)"
  let ?body = "auth_body nonce ?ct (replicate (pad4 (length ?ct)) 0)"
  let ?w = "nts_wire (serialize_header (nts_header p)) (auth_exts p) (of_nat (length ?body + 4)) ?body"
  have n': "length nonce = 16" using n by (simp add: NONCE_LEN_def)
  have lct: "length ?ct = exts_size (auth_enc_exts p) + 16"
    using A(2) by (simp add: plaintext_of_def)
  have size: "nts_wire_size p = 52 + exts_size (auth_exts p) + length ?body"
    using n' lct by (simp add: nts_wire_size_def Let_def)
  have "serialize_nts_packet A key nonce p = Ok ?w"
    using wf n' by (subst serialize_nts_packet_wire) (auto simp: wf_nts_packet_def wf_ext_def list_all_iff Let_def)
  moreover have "length ?w = nts_wire_size p"
    by (simp add: size nts_wire_def)
  moreover have "parse_nts_packet A key ?w = Ok p"
  proof -
    have "parse_nts_packet A key (nts_wire (serialize_header (nts_header p)) (auth_exts p) (of_nat (length ?body + 0 + 4)) ?body) =
       (case aead_open A key nonce (take (48 + exts_size (auth_exts p) - 0) (serialize_header (nts_header p) @ concat (map ext_bytes (auth_exts p)))) ?ct of
       None \<Rightarrow> Err (Io_Error InvalidInput ''authentication failed'')
     | Some pt \<Rightarrow> bind_r (parse_extensions pt) (\<lambda>enc.
          Ok \<lparr>nts_header = nts_header p, auth_exts = auth_exts p, auth_enc_exts = enc\<rparr>))"
      using wf n' size lct
      by (intro parse_nts_wire_auth_body [where pad = "replicate (pad4 (length ?ct)) 0"])
         (simp_all add: wf_nts_packet_def parse_serialize_header' list_all_wf_fits)
    also have "\<dots> = Ok p"
      using A(1) wf
      by (simp add: ad_of_def plaintext_of_def parse_extensions_concat wf_nts_packet_def)
    finally show ?thesis by simp
  qed
  ultimately show ?thesis by blast
qed

lemma parse_serialize_nts:
  assumes "aead_correct A" and "aead_expands A" and "length nonce = NONCE_LEN" and "wf_nts_packet p"
  shows "\<exists>w. serialize_nts_packet A key nonce p = Ok w \<and> length w = nts_wire_size p \<and>
             parse_nts_packet A key w = Ok p"
  by (rule parse_sealed_nts [OF aead_correctD [OF assms(1)] assms(2-4)])

section \<open>Injection\<close>

definition inject_ext :: "nat \<Rightarrow> ntp_extension \<Rightarrow> bytes \<Rightarrow> bytes" where
  "inject_ext n e w =
     take n w @ ext_bytes e @ take 2 (drop n w) @
     u16_to_be (u16_from_be (take 2 (drop (n + 2) w)) + of_nat (length (ext_bytes e))) @
     drop (n + 4) w"

lemma exts_size_append [simp]: "exts_size (es @ fs) = exts_size es + exts_size fs"
  by (simp add: exts_size_def)

lemma exts_size_single [simp]: "exts_size [e] = length (contents e) + 4"
  by (simp add: exts_size_def)

lemma inject_nts_wire:
  assumes "length hb = 48"
  shows "inject_ext (48 + exts_size es) e (nts_wire hb es l body) =
         nts_wire hb (es @ [e]) (l + of_nat (length (ext_bytes e))) body"
  using assms by (simp add: inject_ext_def nts_wire_def del: length_ext_bytes)

lemma parse_nts_injection:
  assumes A: "aead_correct A" "aead_expands A" and n: "length nonce = NONCE_LEN"
    and wf: "wf_nts_packet p" and e: "wf_ext e" "ext_type e \<noteq> NTSAuthenticator"
    and size: "nts_wire_size p + length (ext_bytes e) < 65536"
    and w: "serialize_nts_packet A key nonce p = Ok w"
  shows "parse_nts_packet A key (inject_ext (48 + exts_size (auth_exts p)) e w) =
         Ok (p\<lparr>auth_exts := auth_exts p @ [e]\<rparr>)"
proof -
  let ?ct = "aead_seal A key nonce (ad_of p) (plaintext_of p)" and ?d = "length (ext_bytes e)"
  let ?body = "auth_body nonce ?ct (replicate (pad4 (length ?ct)) 0)" and ?hb = "serialize_header (nts_header p)"
  have n': "length nonce = 16" using n by (simp add: NONCE_LEN_def)
  have lct: "length ?ct = exts_size (auth_enc_exts p) + 16"
    using A(2) by (simp add: plaintext_of_def)
  have sz: "nts_wire_size p = 52 + exts_size (auth_exts p) + length ?body"
    using n' lct by (simp add: nts_wire_size_def Let_def)
  have "w = nts_wire ?hb (auth_exts p) (of_nat (length ?body + 4)) ?body"
    using w wf n' by (subst (asm) serialize_nts_packet_wire)
      (auto simp: wf_nts_packet_def wf_ext_def list_all_iff Let_def)
  moreover have "(of_nat (length ?body + 4) :: u16) + of_nat ?d = of_nat (length ?body + ?d + 4)"
    by simp
  ultimately have "inject_ext (48 + exts_size (auth_exts p)) e w =
      nts_wire ?hb (auth_exts p @ [e]) (of_nat (length ?body + ?d + 4)) ?body"
    by (simp only: inject_nts_wire length_serialize_header)
  moreover have "parse_nts_packet A key (nts_wire ?hb (auth_exts p @ [e]) (of_nat (length ?body + ?d + 4)) ?body) =
     (case aead_open A key nonce (take (48 + exts_size (auth_exts p @ [e]) - ?d)
         (?hb @ concat (map ext_bytes (auth_exts p @ [e])))) ?ct of
       None \<Rightarrow> Err (Io_Error InvalidInput ''authentication failed'')
     | Some pt \<Rightarrow> bind_r (parse_extensions pt) (\<lambda>enc.
          Ok \<lparr>nts_header = nts_header p, auth_exts = auth_exts p @ [e], auth_enc_exts = enc\<rparr>))"
    using wf e size n' sz lct
    by (intro parse_nts_wire_auth_body [where pad = "replicate (pad4 (length ?ct)) 0"])
       (simp_all add: wf_nts_packet_def parse_serialize_header' list_all_wf_fits wf_ext_fits)
  moreover have "take (48 + exts_size (auth_exts p @ [e]) - ?d)
         (?hb @ concat (map ext_bytes (auth_exts p @ [e]))) = ad_of p"
    by (simp add: ad_of_def)
  ultimately show ?thesis
    using A(1) wf by (cases p) (simp add: plaintext_of_def parse_extensions_concat wf_nts_packet_def)
qed

section \<open>Completely framed messages\<close>

function exts_complete :: "bytes \<Rightarrow> bool" where
  "exts_complete bs =
     (if length bs < 4 then True
      else let n = unat (u16_from_be (take 2 (drop 2 bs)))
           in if n < 4 \<or> length bs < n then False
              else if type_from_wire (u16_from_be (take 2 bs)) = NTSAuthenticator then True
              else exts_complete (drop n bs))"
  by pat_completeness auto
termination
  by (relation "measure length") auto

declare exts_complete.simps [simp del]

lemma u16_two_bytes:
  "4 \<le> length bs \<Longrightarrow> bs = u16_to_be (u16_from_be (take 2 bs)) @
     u16_to_be (u16_from_be (take 2 (drop 2 bs))) @ drop 4 bs"
proof -
  assume "4 \<le> length bs"
  then have "u16_to_be (u16_from_be (take 2 bs)) = take 2 bs"
    "u16_to_be (u16_from_be (take 2 (drop 2 bs))) = take 2 (drop 2 bs)"
    by (simp_all add: u16_to_from_be)
  moreover have "bs = take 2 bs @ take 2 (drop 2 bs) @ drop 2 (drop 2 bs)"
    by (metis append_take_drop_id)
  ultimately show ?thesis by simp
qed

lemma exts_complete_split:
  "exts_complete bs \<Longrightarrow>
   \<exists>es r. bs = concat (map ext_bytes es) @ r \<and> list_all fits_ext es \<and>
     list_all (\<lambda>e. ext_type e \<noteq> NTSAuthenticator) es \<and>
     (length r < 4 \<or>
      (\<exists>l body. r = u16_to_be EXT_TYPE_NTS_AUTHENTICATOR @ u16_to_be l @ body \<and>
                4 \<le> unat l \<and> unat l \<le> 4 + length body))"
proof (induction bs rule: exts_complete.induct)
  case (1 bs)
  let ?l = "u16_from_be (take 2 (drop 2 bs))" and ?t = "u16_from_be (take 2 bs)"
  let ?n = "unat ?l"
  consider (short) "length bs < 4" | (auth) "4 \<le> length bs" "type_from_wire ?t = NTSAuthenticator"
    | (ext) "4 \<le> length bs" "type_from_wire ?t \<noteq> NTSAuthenticator" by linarith
  then show ?case
  proof cases
    case short
    then show ?thesis by (intro exI [of _ "[]"] exI [of _ bs]) simp
  next
    case auth
    then have n: "4 \<le> ?n" "?n \<le> length bs"
      using "1.prems" by (auto simp: exts_complete.simps [of bs] Let_def split: if_splits)
    have "?t = EXT_TYPE_NTS_AUTHENTICATOR"
      using auth(2) wire_type_from_wire [of ?t] by simp
    then have "bs = u16_to_be EXT_TYPE_NTS_AUTHENTICATOR @ u16_to_be ?l @ drop 4 bs"
      using u16_two_bytes [OF auth(1)] by simp
    with n show ?thesis
      by (intro exI [of _ "[]"] exI [of _ bs]) (auto intro!: exI [of _ ?l] exI [of _ "drop 4 bs"])
  next
    case ext
    then have n: "4 \<le> ?n" "?n \<le> length bs" and c: "exts_complete (drop ?n bs)"
      using "1.prems" by (auto simp: exts_complete.simps [of bs] Let_def split: if_splits)
    obtain es r where es: "drop ?n bs = concat (map ext_bytes es) @ r" "list_all fits_ext es"
        "list_all (\<lambda>e. ext_type e \<noteq> NTSAuthenticator) es"
        "length r < 4 \<or> (\<exists>l body. r = u16_to_be EXT_TYPE_NTS_AUTHENTICATOR @ u16_to_be l @ body \<and>
                4 \<le> unat l \<and> unat l \<le> 4 + length body)"
      using "1.IH" [OF _ refl _ ext(2) c] ext(1) n by auto
    let ?e = "\<lparr>ext_type = type_from_wire ?t, contents = take (?n - 4) (drop 4 bs)\<rparr>"
    have "bs = u16_to_be ?t @ u16_to_be ?l @ take (?n - 4) (drop 4 bs) @ drop (?n - 4) (drop 4 bs)"
      using u16_two_bytes [OF ext(1)] by (simp only: append_take_drop_id)
    moreover have "drop (?n - 4) (drop 4 bs) = drop ?n bs" using n by simp
    moreover have "of_nat (length (contents ?e) + 4) = ?l" using n by (simp del: of_nat_add)
    ultimately have "bs = ext_bytes ?e @ drop ?n bs"
      by (simp add: ext_bytes_def del: of_nat_add)
    moreover have "fits_ext ?e"
      using n unat_width(1) [of ?l] by (simp add: fits_ext_def)
    ultimately show ?thesis
      using es ext(2) by (intro exI [of _ "?e # es"] exI [of _ r]) simp
  qed
qed

lemma parse_decrypt_no_panic: "\<not> panics (parse_decrypt_auth_ext A key ad body)"
  by (auto simp: parse_decrypt_auth_ext_def Let_def result_simps slice_r_def read_u16_def
      read_exact_def split: option.splits)

lemma parse_decrypt_Ok:
  "parse_decrypt_auth_ext A key ad body = Ok pt \<Longrightarrow> \<exists>nonce ct. aead_open A key nonce ad ct = Some pt"
  by (auto simp: parse_decrypt_auth_ext_def Let_def result_simps split: option.splits if_splits prod.splits)

lemma parse_nts_loop_short: "remaining c < 4 \<Longrightarrow>
  parse_nts_loop A key h c acc = Err (Io_Error InvalidInput ''never saw the authenticator'')"
  by (subst parse_nts_loop.simps) (simp add: remaining_def)

text \<open>A completely framed message parses as its authenticated prefix says.\<close>

lemma parse_nts_complete:
  assumes c: "exts_complete (drop 48 b)" and len: "48 \<le> length b" "length b < 2 ^ 63"
  obtains es where "list_all fits_ext es" "list_all (\<lambda>e. ext_type e \<noteq> NTSAuthenticator) es"
    "prefix (take 48 b @ concat (map ext_bytes es)) b"
    "parse_nts_packet A key b = Err (Io_Error InvalidInput ''never saw the authenticator'') \<or>
     (\<exists>h body. parse_packet_header b = Ok h \<and> parse_nts_packet A key b =
        bind_r (parse_decrypt_auth_ext A key (take 48 b @ concat (map ext_bytes es)) body) (\<lambda>pt.
        bind_r (parse_extensions pt) (\<lambda>enc.
        Ok \<lparr>nts_header = h, auth_exts = es, auth_enc_exts = enc\<rparr>)))"
proof -
  obtain es r where b: "drop 48 b = concat (map ext_bytes es) @ r" and es: "list_all fits_ext es"
      "list_all (\<lambda>e. ext_type e \<noteq> NTSAuthenticator) es"
    and r: "length r < 4 \<or> (\<exists>l body. r = u16_to_be EXT_TYPE_NTS_AUTHENTICATOR @ u16_to_be l @ body \<and>
                4 \<le> unat l \<and> unat l \<le> 4 + length body)"
    using exts_complete_split [OF c] by blast
  obtain h where h: "parse_packet_header b = Ok h"
    using len(1) parse_packet_header_long by blast
  let ?hb = "take 48 b" and ?c = "(new_cursor b)\<lparr>cpos := 48\<rparr>"
  have bb: "b = ?hb @ concat (map ext_bytes es) @ r"
    using append_take_drop_id [of 48 b] b by simp
  have hb: "parse_packet_header ?hb = Ok h" "length ?hb = 48"
    using h len(1) parse_packet_header_append [of ?hb "drop 48 b"] by simp_all
  have pre: "prefix (?hb @ concat (map ext_bytes es)) b"
    using bb by (metis append.assoc prefixI)
  from r show thesis
  proof
    assume short: "length r < 4"
    have rc: "rest ?c = concat (map ext_bytes es) @ r"
      using b by (simp add: rest_def)
    let ?c' = "?c\<lparr>cpos := cpos ?c + exts_size es\<rparr>"
    have "rest ?c' = r" unfolding rest_advance rc by simp
    then have "remaining ?c' < 4" using short length_rest [of ?c'] by simp
    then have "parse_nts_loop A key h ?c [] = Err (Io_Error InvalidInput ''never saw the authenticator'')"
      unfolding parse_nts_loop_exts [OF es rc] by (rule parse_nts_loop_short)
    then have "parse_nts_packet A key b = Err (Io_Error InvalidInput ''never saw the authenticator'')"
      by (simp add: parse_nts_packet_def h HEADER_SIZE_def)
    with es pre show thesis by (intro that) simp_all
  next
    assume "\<exists>l body. r = u16_to_be EXT_TYPE_NTS_AUTHENTICATOR @ u16_to_be l @ body \<and>
                4 \<le> unat l \<and> unat l \<le> 4 + length body"
    then obtain l body where lb: "r = u16_to_be EXT_TYPE_NTS_AUTHENTICATOR @ u16_to_be l @ body"
       "4 \<le> unat l" "unat l \<le> 4 + length body" by blast
    have w: "b = nts_wire ?hb es l body"
      using bb lb by (simp add: nts_wire_def)
    have n: "unat (l - 4) = unat l - 4"
      using lb(2) by (rule u16_minus_4)
    have k: "min (unat l - 4) (length body) = unat l - 4" using lb(3) by simp
    have small: "length (nts_wire ?hb es l body) < 2 ^ 63" using len(2) w by simp
    have tk: "take (48 + exts_size es) (nts_wire ?hb es l body) = ?hb @ concat (map ext_bytes es)"
      using hb(2) by (simp add: nts_wire_def)
    have "parse_nts_packet A key (nts_wire ?hb es l body) =
        bind_r (parse_decrypt_auth_ext A key (?hb @ concat (map ext_bytes es)) (take (unat l - 4) body)) (\<lambda>pt.
        bind_r (parse_extensions pt) (\<lambda>enc.
        Ok \<lparr>nts_header = h, auth_exts = es, auth_enc_exts = enc\<rparr>))"
      unfolding parse_nts_wire [OF hb es small] Let_def n k using tk by simp
    then show thesis using that [OF es pre] w h by metis
  qed
qed

theorem parse_nts_authenticated:
  assumes "parse_nts_packet A key b = Ok q" and "exts_complete (drop 48 b)" and "length b < 2 ^ 63"
  shows "\<exists>ad nonce ct pt.
    ad = take 48 b @ concat (map ext_bytes (auth_exts q)) \<and> prefix ad b \<and>
    parse_packet_header ad = Ok (nts_header q) \<and>
    aead_open A key nonce ad ct = Some pt \<and> parse_extensions pt = Ok (auth_enc_exts q)"
proof -
  have len: "48 \<le> length b"
    using assms(1) by (auto simp: parse_nts_packet_def result_simps dest: parse_packet_header_Ok_length)
  obtain es where pre: "prefix (take 48 b @ concat (map ext_bytes es)) b"
    and cases: "parse_nts_packet A key b = Err (Io_Error InvalidInput ''never saw the authenticator'') \<or>
     (\<exists>h body. parse_packet_header b = Ok h \<and> parse_nts_packet A key b =
        bind_r (parse_decrypt_auth_ext A key (take 48 b @ concat (map ext_bytes es)) body) (\<lambda>pt.
        bind_r (parse_extensions pt) (\<lambda>enc.
        Ok \<lparr>nts_header = h, auth_exts = es, auth_enc_exts = enc\<rparr>)))"
    by (rule parse_nts_complete [OF assms(2) len assms(3), of A key])
  from cases assms(1) obtain h body where h: "parse_packet_header b = Ok h"
    and p: "parse_nts_packet A key b =
        bind_r (parse_decrypt_auth_ext A key (take 48 b @ concat (map ext_bytes es)) body) (\<lambda>pt.
        bind_r (parse_extensions pt) (\<lambda>enc.
        Ok \<lparr>nts_header = h, auth_exts = es, auth_enc_exts = enc\<rparr>))"
    by auto
  from assms(1) obtain pt where d: "parse_decrypt_auth_ext A key (take 48 b @ concat (map ext_bytes es)) body = Ok pt"
    and e: "parse_extensions pt = Ok (auth_enc_exts q)" and q: "nts_header q = h" "auth_exts q = es"
    unfolding p by (auto simp: result_simps)
  obtain nonce ct where "aead_open A key nonce (take 48 b @ concat (map ext_bytes es)) ct = Some pt"
    using parse_decrypt_Ok [OF d] by blast
  moreover have "parse_packet_header (take 48 b @ concat (map ext_bytes es)) = Ok h"
    using h len parse_packet_header_append [of "take 48 b" "drop 48 b"]
      parse_packet_header_append [of "take 48 b" "concat (map ext_bytes es)"] by simp
  ultimately show ?thesis using e q pre by blast
qed

theorem parse_nts_no_panic:
  assumes "exts_complete (drop 48 b)" and "length b < 2 ^ 63"
  shows "\<not> panics (parse_nts_packet A key b)"
proof (cases "48 \<le> length b")
  case True
  obtain es where "parse_nts_packet A key b = Err (Io_Error InvalidInput ''never saw the authenticator'') \<or>
     (\<exists>h body. parse_packet_header b = Ok h \<and> parse_nts_packet A key b =
        bind_r (parse_decrypt_auth_ext A key (take 48 b @ concat (map ext_bytes es)) body) (\<lambda>pt.
        bind_r (parse_extensions pt) (\<lambda>enc.
        Ok \<lparr>nts_header = h, auth_exts = es, auth_enc_exts = enc\<rparr>)))"
    by (rule parse_nts_complete [OF assms(1) True assms(2), of A key])
  then show ?thesis
    using parse_decrypt_no_panic parse_extensions_no_panic by (auto simp: panics_bind_r)
next
  case False
  then show ?thesis by (simp add: parse_nts_packet_def parse_packet_header_def)
qed

text \<open>
  For any datagram, complete or not: the associated data is a prefix of it, and the extensions read
  so far stay the first ones.
\<close>

lemma parse_nts_loop_opened:
  "parse_nts_loop A key h c acc = Ok p \<Longrightarrow>
     nts_header p = h \<and> prefix acc (auth_exts p) \<and>
     (\<exists>k nonce ct pt. aead_open A key nonce (take k (cbuf c)) ct = Some pt)"
proof (induction A key h c acc rule: parse_nts_loop.induct)
  case (1 A key h c acc)
  have four: "4 \<le> length (cbuf c) - cpos c" using "1.prems" by (subst (asm) parse_nts_loop.simps) (auto split: if_splits)
  obtain ety c1 where r1: "read_u16 c = Ok (ety, c1)"
    using "1.prems" four by (subst (asm) parse_nts_loop.simps) (auto simp: result_simps)
  obtain len c2 where r2: "read_u16 c1 = Ok (len, c2)"
    using "1.prems" four r1 by (subst (asm) parse_nts_loop.simps) (auto simp: result_simps)
  have buf: "cbuf c1 = cbuf c" "cbuf c2 = cbuf c" using r1 r2 by (auto simp: cursor_simps)
  let ?n = "unat (len - 4)"
  obtain conts c3 where r3: "cursor_read ?n c2 = (conts, c3)" by fastforce
  have buf3: "cbuf c3 = cbuf c" using r3 buf by (auto simp: cursor_read_def Let_def)
  show ?case
  proof (cases "type_from_wire ety = NTSAuthenticator")
    case True
    then show ?thesis
      using "1.prems" four r1 r2 r3 buf3 by (subst (asm) parse_nts_loop.simps)
        (auto simp: result_simps slice_r_def Let_def dest!: parse_decrypt_Ok split: if_splits)
  next
    case False
    let ?acc = "acc @ [\<lparr>ext_type = type_from_wire ety, contents = conts\<rparr>]"
    have "parse_nts_loop A key h c3 ?acc = Ok p"
      using "1.prems" four r1 r2 r3 False by (subst (asm) parse_nts_loop.simps) simp
    from "1.IH" [OF four r1 refl r2 refl refl False r3 [symmetric] refl this]
    show ?thesis using buf3 by (auto simp: prefix_def)
  qed
qed

text \<open>
  A datagram whose associated data is that of a packet has this packet's header, and its
  extensions come first.
\<close>

lemma parse_nts_loop_prefix:
  assumes "parse_nts_packet A key (ad_of q @ r) = Ok p" and "wf_nts_packet q"
  shows "nts_header p = nts_header q \<and> prefix (auth_exts q) (auth_exts p)"
proof -
  let ?b = "ad_of q @ r" and ?h = "nts_header q"
  let ?c = "(new_cursor ?b)\<lparr>cpos := 48\<rparr>"
  have wf: "version ?h < 8" "list_all fits_ext (auth_exts q)" "list_all (\<lambda>e. ext_type e \<noteq> NTSAuthenticator) (auth_exts q)"
    using assms(2) by (simp_all add: wf_nts_packet_def list_all_wf_fits)
  have h: "parse_packet_header ?b = Ok ?h"
    using wf(1) by (simp add: ad_of_def parse_serialize_header)
  have "rest ?c = concat (map ext_bytes (auth_exts q)) @ r" by (simp add: ad_of_def rest_def)
  note l = parse_nts_loop_exts [OF wf(2,3) this, of A key ?h "[]"]
  have "parse_nts_loop A key ?h ?c [] = Ok p"
    using assms(1) by (simp add: parse_nts_packet_def h HEADER_SIZE_def)
  then have "parse_nts_loop A key ?h (?c\<lparr>cpos := cpos ?c + exts_size (auth_exts q)\<rparr>) (auth_exts q) = Ok p"
    using l by simp
  from parse_nts_loop_opened [OF this] show ?thesis by simp
qed

text \<open>
  When the AEAD opens only what was sealed for packets of a given set, an accepted datagram carries the
  header and, first, the extensions of one of them, also when its own extension fields are not complete.
\<close>

lemma parse_nts_from_sealed:
  assumes parse: "parse_nts_packet A key b = Ok p"
    and sealed: "\<And>nonce ad ct pt. aead_open A key nonce ad ct = Some pt \<Longrightarrow> \<exists>q\<in>packets. wf_nts_packet q \<and> ad = ad_of q"
  obtains q where "q \<in> packets" and "nts_header p = nts_header q" and "prefix (auth_exts q) (auth_exts p)"
proof -
  obtain h where "parse_nts_loop A key h ((new_cursor b)\<lparr>cpos := HEADER_SIZE\<rparr>) [] = Ok p"
    using parse by (auto simp: parse_nts_packet_def result_simps)
  from parse_nts_loop_opened [OF this] obtain k nonce ct pt where "aead_open A key nonce (take k b) ct = Some pt"
    by (auto simp: new_cursor_def)
  then obtain q where q: "q \<in> packets" "wf_nts_packet q" "take k b = ad_of q" using sealed by blast
  then have "b = ad_of q @ drop k b" by (metis append_take_drop_id)
  with parse have "parse_nts_packet A key (ad_of q @ drop k b) = Ok p" by simp
  from parse_nts_loop_prefix [OF this q(2)] q(1) that show thesis by blast
qed

lemma parse_nts_loop_agrees:
  assumes "parse_extensions_loop c acc = Ok es" and "parse_nts_loop A key h c acc = Ok q"
    and "list_all (\<lambda>e. ext_type e \<noteq> NTSAuthenticator) acc"
  shows "auth_exts q = takeWhile (\<lambda>e. ext_type e \<noteq> NTSAuthenticator) es \<and> nts_header q = h"
  using assms
proof (induction c acc rule: parse_extensions_loop.induct)
  case (1 c acc)
  show ?case
  proof (cases "4 \<le> length (cbuf c) - cpos c")
    case False
    then show ?thesis using "1.prems" by (simp add: parse_nts_loop.simps [of _ _ _ c])
  next
    case True
    obtain ety c1 l c2 conts c3 where rd: "read_u16 c = Ok (ety, c1)" "read_u16 c1 = Ok (l, c2)"
      and cr: "cursor_read (unat (l - 4)) c2 = (conts, c3)"
      and l: "l mod 4 = 0" "\<not> l < 4"
      and rec: "parse_extensions_loop c3 (acc @ [\<lparr>ext_type = type_from_wire ety, contents = conts\<rparr>]) = Ok es"
      by (rule parse_extensions_loop_OkE [OF "1.prems"(1) True])
    let ?e = "\<lparr>ext_type = type_from_wire ety, contents = conts\<rparr>"
    show ?thesis
    proof (cases "type_from_wire ety = NTSAuthenticator")
      case auth: True
      have "auth_exts q = acc" "nts_header q = h"
        using "1.prems"(2) True rd cr auth
        by (auto simp: parse_nts_loop.simps [of _ _ _ c] Let_def result_simps)
      moreover have "prefix (acc @ [?e]) es"
        using parse_extensions_loop_prefix [OF rec] .
      ultimately show ?thesis
        using "1.prems"(3) auth by (auto simp: prefix_def list_all_iff takeWhile_append)
    next
      case na: False
      have "parse_nts_loop A key h c3 (acc @ [?e]) = Ok q"
        using "1.prems"(2) True rd cr na
        by (auto simp: parse_nts_loop.simps [of _ _ _ c] Let_def)
      then show ?thesis
        using "1.IH" [OF True rd(1) refl rd(2) refl _ _ cr [symmetric] refl rec] l na "1.prems"(3) by simp
    qed
  qed
qed

theorem parse_nts_agrees_ntp:
  assumes "parse_ntp_packet b = Ok p" and "parse_nts_packet A key b = Ok q"
  shows "nts_header q = ntp_header p \<and>
         auth_exts q = takeWhile (\<lambda>e. ext_type e \<noteq> NTSAuthenticator) (exts p)"
proof -
  let ?c = "(new_cursor b)\<lparr>cpos := 48\<rparr>"
  obtain h where h: "parse_packet_header b = Ok h" and p: "ntp_header p = h"
      "parse_extensions (drop 48 b) = Ok (exts p)"
    using assms(1) by (auto simp: parse_ntp_packet_def result_simps)
  have "parse_extensions_loop ?c [] = Ok (exts p)"
    using p(2) parse_extensions_loop_rest [of ?c "new_cursor (drop 48 b)" "[]"]
    by (simp add: parse_extensions_def rest_def)
  moreover have "parse_nts_loop A key h ?c [] = Ok q"
    using assms(2) h by (simp add: parse_nts_packet_def HEADER_SIZE_def)
  ultimately show ?thesis
    using parse_nts_loop_agrees [of ?c "[]" "exts p" A key h q] p(1) by simp
qed

theorem parse_nts_truncated_panics:
  assumes "parse_packet_header hb = Ok h" "length hb = 48" "list_all fits_ext es"
    "list_all (\<lambda>e. ext_type e \<noteq> NTSAuthenticator) es"
    and "length (nts_wire hb es l body) < 2 ^ 63"
    and "4 \<le> unat l" "length (nts_wire hb es l body) < unat l"
  shows "panics (parse_nts_packet A key (nts_wire hb es l body))"
proof -
  have n: "unat (l - 4) = unat l - 4"
    using assms(6) by (rule u16_minus_4)
  have "length (nts_wire hb es l body) = 52 + exts_size es + length body"
    using assms(2) by (simp add: nts_wire_def)
  then have "48 + exts_size es + min (unat (l - 4)) (length body) < unat (l - 4)"
    using assms(6,7) n by auto
  then show ?thesis
    unfolding parse_nts_wire [OF assms(1-5)] Let_def by (simp only: if_True panics.simps)
qed

section \<open>A serialised NTS packet, seen by the plain parser\<close>

definition auth_ext :: "bytes \<Rightarrow> ntp_extension" where
  "auth_ext body = \<lparr>ext_type = NTSAuthenticator, contents = body\<rparr>"

lemma nts_wire_ext:
  "nts_wire hb es (of_nat (length body + 4)) body = hb @ concat (map ext_bytes (es @ [auth_ext body]))"
  by (simp add: nts_wire_def ext_bytes_def auth_ext_def del: of_nat_add)

lemma parse_ntp_wire:
  assumes "version h < 8" and "list_all wf_ext es" and "length body mod 4 = 0" "length body + 4 < 65536"
  shows "parse_ntp_packet (nts_wire (serialize_header h) es (of_nat (length body + 4)) body) =
    Ok \<lparr>ntp_header = h, exts = es @ [auth_ext body]\<rparr>"
proof -
  have "list_all wf_ext (es @ [auth_ext body])"
    using assms by (simp add: wf_ext_def auth_ext_def)
  from parse_extensions_concat [OF this] assms(1) show ?thesis
    unfolding nts_wire_ext
    by (simp add: parse_ntp_packet_def parse_serialize_header slice_r_def result_simps)
qed

lemma nts_serialisedE:
  assumes "aead_expands A" and "length nonce = NONCE_LEN" and "wf_nts_packet p"
    and "serialize_nts_packet A key nonce p = Ok w"
  obtains body where "w = nts_wire (serialize_header (nts_header p)) (auth_exts p) (of_nat (length body + 4)) body"
    and "length body mod 4 = 0" and "length body + 4 < 65536"
    and "nts_wire_size p = 52 + exts_size (auth_exts p) + length body"
proof -
  let ?ct = "aead_seal A key nonce (ad_of p) (plaintext_of p)"
  let ?body = "auth_body nonce ?ct (replicate (pad4 (length ?ct)) 0)"
  have n: "length nonce = 16" using assms(2) by (simp add: NONCE_LEN_def)
  have lct: "length ?ct = exts_size (auth_enc_exts p) + 16"
    using assms(1) by (simp add: plaintext_of_def)
  have size: "nts_wire_size p = 52 + exts_size (auth_exts p) + length ?body"
    using n lct by (simp add: nts_wire_size_def Let_def)
  have al: "\<forall>e\<in>set (auth_exts p) \<union> set (auth_enc_exts p). length (contents e) mod 4 = 0"
    using assms(3) by (auto simp: wf_nts_packet_def list_all_iff wf_ext_def)
  have m: "length ?body mod 4 = 0"
    using pad4_aligns [of "length ?ct"] n by (simp add: mod_add_left_eq [of 20, symmetric] add.assoc)
  have w: "w = nts_wire (serialize_header (nts_header p)) (auth_exts p) (of_nat (length ?body + 4)) ?body"
    using assms(4) unfolding serialize_nts_packet_wire [OF al n] Let_def by (simp only: result.inject)
  have lt: "c + 4 < 65536" if "nts_wire_size p = 52 + b + c" for b c :: nat
    using that assms(3) by (simp add: wf_nts_packet_def)
  show thesis by (rule that [OF w m lt [OF size] size])
qed

lemma parse_ntp_of_serialised:
  assumes "aead_expands A" and "length nonce = NONCE_LEN" and "wf_nts_packet p"
    and "serialize_nts_packet A key nonce p = Ok w"
  shows "\<exists>body. parse_ntp_packet w = Ok \<lparr>ntp_header = nts_header p, exts = auth_exts p @ [auth_ext body]\<rparr>"
proof -
  obtain body where w: "w = nts_wire (serialize_header (nts_header p)) (auth_exts p) (of_nat (length body + 4)) body"
    and b: "length body mod 4 = 0" "length body + 4 < 65536"
    by (rule nts_serialisedE [OF assms])
  have "version (nts_header p) < 8" "list_all wf_ext (auth_exts p)"
    using assms(3) by (simp_all add: wf_nts_packet_def)
  from parse_ntp_wire [OF this b] show ?thesis unfolding w by blast
qed

lemma exts_complete_concat:
  "list_all fits_ext es \<Longrightarrow> length body + 4 < 65536 \<Longrightarrow>
   exts_complete (concat (map ext_bytes (es @ [auth_ext body])))"
proof (induction es)
  case Nil
  then show ?case
    by (subst exts_complete.simps)
      (simp add: exts_complete.simps [of "[]"] ext_bytes_def auth_ext_def unat_of_nat_u16 Let_def del: of_nat_add)
next
  case (Cons e es)
  then show ?case
    by (subst exts_complete.simps)
      (simp add: fits_ext_def ext_bytes_def [of e] unat_of_nat_u16 Let_def del: of_nat_add)
qed

lemma exts_complete_serialised:
  assumes "aead_expands A" and "length nonce = NONCE_LEN" and "wf_nts_packet p"
    and "serialize_nts_packet A key nonce p = Ok w"
  shows "exts_complete (drop 48 w)"
proof -
  obtain body where w: "w = nts_wire (serialize_header (nts_header p)) (auth_exts p) (of_nat (length body + 4)) body"
    and b: "length body + 4 < 65536"
    by (rule nts_serialisedE [OF assms])
  have "list_all fits_ext (auth_exts p)" using assms(3) by (simp add: wf_nts_packet_def list_all_wf_fits)
  from exts_complete_concat [OF this b] show ?thesis unfolding w nts_wire_ext by simp
qed
end
