(* ===== verification/F64.thy ===== *)
theory F64
  imports Prelude Complex_Main "HOL-Library.Log_Nat"
begin

text \<open>
  The \<^verbatim>\<open>f64\<close> arithmetic of the program. A finite number is the rational it denotes; every
  operation rounds its exact result to the nearest number with a 53 bit significand, ties to even
  (\<open>fl\<close>). All values the program computes lie between \<open>2^-17\<close> and \<open>2^97\<close> in magnitude or are
  zero, far inside the range of normal numbers, so overflow, underflow and NaN do not occur and
  are not represented. Casts to \<^verbatim>\<open>u32\<close> saturate.
\<close>

section \<open>Rounding\<close>

type_synonym f64 = rat

text \<open>The exponent of a positive rational: the floor of its binary logarithm.\<close>

definition flog2 :: "rat \<Rightarrow> int" where
  "flog2 q =
     (let (n, d) = quotient_of q; e = int (floorlog 2 (nat n)) - int (floorlog 2 (nat d))
      in if 2 powi e \<le> q then e else e - 1)"

definition round_half_even :: "rat \<Rightarrow> int" where
  "round_half_even q =
     (let f = \<lfloor>q\<rfloor>; r = q - of_int f
      in if r < 1 / 2 then f else if 1 / 2 < r then f + 1 else if even f then f else f + 1)"

definition fl_pos :: "rat \<Rightarrow> f64" where
  "fl_pos q = (let e = flog2 q - 52 in of_int (round_half_even (q / 2 powi e)) * 2 powi e)"

definition fl :: "rat \<Rightarrow> f64" where
  "fl q = (if q = 0 then 0 else if q < 0 then - fl_pos (- q) else fl_pos q)"

definition fadd :: "f64 \<Rightarrow> f64 \<Rightarrow> f64" where "fadd a b = fl (a + b)"

definition fsub :: "f64 \<Rightarrow> f64 \<Rightarrow> f64" where "fsub a b = fl (a - b)"

definition fmul :: "f64 \<Rightarrow> f64 \<Rightarrow> f64" where "fmul a b = fl (a * b)"

definition fdiv :: "f64 \<Rightarrow> f64 \<Rightarrow> f64" where "fdiv a b = fl (a / b)"

text \<open>\<^verbatim>\<open>n as f64\<close> for an unsigned integer.\<close>

definition f64_of_nat :: "nat \<Rightarrow> f64" where "f64_of_nat n = fl (of_nat n)"

text \<open>\<^verbatim>\<open>f64::floor\<close>, \<^verbatim>\<open>f64::round\<close> (halves away from zero) and the saturating cast to \<^verbatim>\<open>u32\<close>.\<close>

definition f64_floor :: "f64 \<Rightarrow> f64" where "f64_floor q = of_int \<lfloor>q\<rfloor>"

definition f64_round :: "f64 \<Rightarrow> f64" where
  "f64_round q = (if q < 0 then - of_int \<lfloor>- q + 1 / 2\<rfloor> else of_int \<lfloor>q + 1 / 2\<rfloor>)"

definition f64_to_u32 :: "f64 \<Rightarrow> u32" where
  "f64_to_u32 q = (if q < 0 then 0 else if 2 ^ 32 \<le> q then - 1 else of_int \<lfloor>q\<rfloor>)"

section \<open>Lemmas\<close>

lemma floorlog_int_bounds:
  assumes "0 < k"
  defines "c \<equiv> floorlog 2 (nat k)"
  shows "(2 :: rat) powi (int c - 1) \<le> of_int k" and "of_int k < (2 :: rat) powi int c"
proof -
  have b: "2 ^ (c - 1) \<le> nat k \<and> nat k < 2 ^ c"
    unfolding c_def by (rule floorlog_bounds) (use assms in auto)
  have c: "0 < c" using assms by (simp add: c_def floorlog_def)
  have k: "(of_int k :: rat) = of_nat (nat k)" using assms(1) by simp
  have "(2 :: rat) powi (int c - 1) = of_nat (2 ^ (c - 1))"
    using c by (simp add: power_int_def nat_diff_distrib)
  with b show "(2 :: rat) powi (int c - 1) \<le> of_int k" unfolding k by (simp only: of_nat_le_iff)
  have "(2 :: rat) powi int c = of_nat (2 ^ c)" by simp
  with b show "of_int k < (2 :: rat) powi int c" unfolding k by (simp only: of_nat_less_iff)
qed

lemma powi_two_split:
  "(2 :: rat) powi (a - b - 1) = 2 powi (a - 1) / 2 powi b"
  "(2 :: rat) powi (a - b + 1) = 2 powi a / 2 powi (b - 1)"
  by (simp_all add: power_int_diff power_int_add)

lemma flog2_bounds:
  assumes "0 < q"
  shows "2 powi flog2 q \<le> q \<and> q < 2 powi (flog2 q + 1)"
proof -
  obtain n d where nd: "quotient_of q = (n, d)" by fastforce
  have d: "0 < d" and q: "q = of_int n / of_int d"
    using quotient_of_denom_pos [OF nd] quotient_of_div [OF nd] by simp_all
  with assms have n: "0 < n" by (simp add: zero_less_divide_iff)
  define e where "e = int (floorlog 2 (nat n)) - int (floorlog 2 (nat d))"
  note N = floorlog_int_bounds [OF n] and D = floorlog_int_bounds [OF d]
  have "2 powi (e - 1) = (2 :: rat) powi (int (floorlog 2 (nat n)) - 1) / 2 powi int (floorlog 2 (nat d))"
    unfolding e_def by (rule powi_two_split)
  also have "\<dots> \<le> q"
    unfolding q by (rule frac_le) (use N D n d in auto)
  finally have lo: "2 powi (e - 1) \<le> q" .
  have "q < (2 :: rat) powi int (floorlog 2 (nat n)) / 2 powi (int (floorlog 2 (nat d)) - 1)"
    unfolding q by (rule frac_less) (use N D n d in auto)
  also have "\<dots> = 2 powi (e + 1)"
    unfolding e_def by (rule powi_two_split [symmetric])
  finally have hi: "q < 2 powi (e + 1)" .
  have f: "flog2 q = (if 2 powi e \<le> q then e else e - 1)"
    by (simp add: flog2_def nd e_def Let_def)
  show ?thesis using lo hi by (auto simp: f)
qed

lemma round_half_even_near: "\<bar>of_int (round_half_even q) - q\<bar> \<le> 1 / 2"
proof -
  define f where "f = (of_int \<lfloor>q\<rfloor> :: rat)"
  have "f \<le> q" "q < f + 1" unfolding f_def by linarith+
  then show ?thesis
    by (auto simp: round_half_even_def Let_def abs_if f_def [symmetric])
qed

lemma round_half_even_of_int [simp]: "round_half_even (of_int k) = k"
  by (simp add: round_half_even_def)

lemma round_half_even_mono: "p \<le> q \<Longrightarrow> round_half_even p \<le> round_half_even q"
proof -
  assume pq: "p \<le> q"
  show ?thesis
  proof (cases "\<lfloor>p\<rfloor> = \<lfloor>q\<rfloor>")
    case True
    with pq show ?thesis by (auto simp: round_half_even_def Let_def)
  next
    case False
    with pq have "\<lfloor>p\<rfloor> + 1 \<le> \<lfloor>q\<rfloor>" using floor_mono [OF pq] by linarith
    moreover have "round_half_even p \<le> \<lfloor>p\<rfloor> + 1" "\<lfloor>q\<rfloor> \<le> round_half_even q"
      by (auto simp: round_half_even_def Let_def)
    ultimately show ?thesis by linarith
  qed
qed

lemma fl_zero [simp]: "fl 0 = 0" by (simp add: fl_def)

lemma fl_pos_bounds:
  assumes "0 < q"
  shows "2 powi flog2 q \<le> fl_pos q" and "fl_pos q \<le> 2 powi (flog2 q + 1)"
    and "\<bar>fl_pos q - q\<bar> \<le> 2 powi (flog2 q - 53)"
proof -
  define e where "e = flog2 q - 52"
  have e: "(0 :: rat) < 2 powi e" by simp
  have fl: "fl_pos q = of_int (round_half_even (q / 2 powi e)) * 2 powi e"
    by (simp add: fl_pos_def e_def Let_def)
  have p52: "(2 :: rat) powi flog2 q = of_int (2 ^ 52) * 2 powi e"
    and p53: "(2 :: rat) powi (flog2 q + 1) = of_int (2 ^ 53) * 2 powi e"
    by (simp_all add: e_def power_int_diff power_int_add)
  have lo: "of_int (2 ^ 52) \<le> q / 2 powi e" and hi: "q / 2 powi e \<le> of_int (2 ^ 53)"
    using flog2_bounds [OF assms] e unfolding p52 p53 by (simp_all add: field_simps)
  have "2 ^ 52 \<le> round_half_even (q / 2 powi e)" "round_half_even (q / 2 powi e) \<le> 2 ^ 53"
    using round_half_even_mono [OF lo] round_half_even_mono [OF hi] by (simp_all only: round_half_even_of_int)
  then have "(of_int (2 ^ 52) :: rat) \<le> of_int (round_half_even (q / 2 powi e))"
    "(of_int (round_half_even (q / 2 powi e)) :: rat) \<le> of_int (2 ^ 53)"
    by (simp_all only: of_int_le_iff)
  then show "2 powi flog2 q \<le> fl_pos q" "fl_pos q \<le> 2 powi (flog2 q + 1)"
    unfolding fl p52 p53 using e by (simp_all only: mult_le_cancel_right_pos)
  have "fl_pos q - q = (of_int (round_half_even (q / 2 powi e)) - q / 2 powi e) * 2 powi e"
    unfolding fl using e by (simp add: field_simps)
  then have "\<bar>fl_pos q - q\<bar> = \<bar>of_int (round_half_even (q / 2 powi e)) - q / 2 powi e\<bar> * 2 powi e"
    by (simp only: abs_mult) simp
  also have "\<dots> \<le> 1 / 2 * 2 powi e"
    using round_half_even_near by (rule mult_right_mono) simp
  also have "\<dots> = 2 powi (flog2 q - 53)" by (simp add: e_def power_int_diff)
  finally show "\<bar>fl_pos q - q\<bar> \<le> 2 powi (flog2 q - 53)" .
qed

lemma fl_pos_eq: "0 < q \<Longrightarrow> fl q = fl_pos q" by (simp add: fl_def)

lemma fl_error:
  assumes "0 \<le> q"
  shows "\<bar>fl q - q\<bar> \<le> q / 2 ^ 53"
proof (cases "q = 0")
  case False
  with assms have q: "0 < q" by simp
  have "\<bar>fl q - q\<bar> \<le> 2 powi (flog2 q - 53)" using fl_pos_bounds(3) [OF q] fl_pos_eq [OF q] by simp
  also have "\<dots> = 2 powi flog2 q / 2 ^ 53" by (simp add: power_int_diff)
  also have "\<dots> \<le> q / 2 ^ 53" using flog2_bounds [OF q] by (intro divide_right_mono) auto
  finally show ?thesis .
qed simp

lemma fl_mono:
  assumes "0 \<le> p" and "p \<le> q"
  shows "fl p \<le> fl q"
proof (cases "p = 0")
  case True
  have "0 \<le> fl q"
  proof (cases "q = 0")
    case False
    with assms have "0 < q" by simp
    then have "2 powi flog2 q \<le> fl q" using fl_pos_bounds(1) fl_pos_eq by simp
    moreover have "(0 :: rat) < 2 powi flog2 q" by simp
    ultimately show ?thesis by linarith
  qed simp
  with True show ?thesis by simp
next
  case False
  with assms have p: "0 < p" and q: "0 < q" by auto
  have "flog2 p \<le> flog2 q"
  proof (rule ccontr)
    assume "\<not> ?thesis"
    then have "flog2 q + 1 \<le> flog2 p" by simp
    then have "(2 :: rat) powi (flog2 q + 1) \<le> 2 powi flog2 p" by (intro power_int_increasing) auto
    with flog2_bounds [OF p] flog2_bounds [OF q] assms(2) show False by linarith
  qed
  then consider "flog2 p = flog2 q" | "flog2 p + 1 \<le> flog2 q" by linarith
  then show ?thesis
  proof cases
    case 1
    define e where "e = flog2 q - 52"
    have "p / 2 powi e \<le> q / 2 powi e" using assms(2) by (intro divide_right_mono) auto
    from round_half_even_mono [OF this]
    have "(of_int (round_half_even (p / 2 powi e)) :: rat) \<le> of_int (round_half_even (q / 2 powi e))"
      by (simp only: of_int_le_iff)
    then have "fl_pos p \<le> fl_pos q"
      unfolding fl_pos_def Let_def 1 e_def [symmetric] by (rule mult_right_mono) simp
    then show ?thesis by (simp add: fl_pos_eq p q)
  next
    case 2
    have "fl p \<le> 2 powi (flog2 p + 1)" using fl_pos_bounds(2) [OF p] fl_pos_eq [OF p] by simp
    also have "\<dots> \<le> 2 powi flog2 q" using 2 by (intro power_int_increasing) auto
    also have "\<dots> \<le> fl q" using fl_pos_bounds(1) [OF q] fl_pos_eq [OF q] by simp
    finally show ?thesis .
  qed
qed

lemma fl_exact_powi:
  assumes "m < 2 ^ 53"
  shows "fl (of_nat m * 2 powi k) = of_nat m * 2 powi k"
proof (cases "m = 0")
  case False
  define q :: rat where "q = of_nat m * 2 powi k"
  have q: "0 < q" using False by (simp add: q_def)
  define e where "e = flog2 q - 52"
  have "e \<le> k"
  proof (rule ccontr)
    assume "\<not> ?thesis"
    then have "(2 :: rat) powi (k + 1) \<le> 2 powi e" by (intro power_int_increasing) auto
    then have "(2 :: rat) ^ 52 * 2 powi (k + 1) \<le> 2 ^ 52 * 2 powi e" by simp
    also have "\<dots> = 2 powi flog2 q" by (simp add: e_def power_int_diff)
    also have "\<dots> \<le> q" using flog2_bounds [OF q] by simp
    finally have "(2 :: rat) ^ 53 * 2 powi k \<le> of_nat m * 2 powi k"
      by (simp add: q_def power_int_add)
    then have "(2 :: rat) ^ 53 \<le> of_nat m" by (simp only: mult_le_cancel_right_pos zero_less_power_int zero_less_numeral)
    then have "of_nat (2 ^ 53) \<le> (of_nat m :: rat)" by simp
    then show False using assms by (simp only: of_nat_le_iff)
  qed
  then obtain j where j: "k = e + int j" by (metis zle_iff_zadd)
  have x: "q / 2 powi e = of_int (int m * 2 ^ j)"
    by (simp add: q_def j power_int_add)
  have "fl_pos q = of_int (int m * 2 ^ j) * 2 powi e"
    by (simp only: fl_pos_def e_def [symmetric] Let_def x round_half_even_of_int)
  also have "\<dots> = q" by (simp only: x [symmetric]) simp
  finally have "fl_pos q = q" .
  with q show ?thesis by (simp add: fl_pos_eq q_def)
qed simp

lemma f64_of_nat_exact [simp]: "m < 2 ^ 53 \<Longrightarrow> f64_of_nat m = of_nat m"
  using fl_exact_powi [of m 0] by (simp add: f64_of_nat_def)

lemma fmul_two_power: "m < 2 ^ 53 \<Longrightarrow> fmul (of_nat m) (2 ^ k) = of_nat m * 2 ^ k"
  using fl_exact_powi [of m "int k"] by (simp add: fmul_def)

lemma fdiv_two_power: "m < 2 ^ 53 \<Longrightarrow> fdiv (of_nat m) (2 ^ k) = of_nat m / 2 ^ k"
  using fl_exact_powi [of m "- int k"] by (simp add: fdiv_def power_int_minus_divide)

lemma fl_exact_div: "m < 2 ^ 53 \<Longrightarrow> fl (of_nat m / 2 ^ k) = of_nat m / 2 ^ k"
  using fl_exact_powi [of m "- int k"] by (simp add: power_int_minus_divide)

end
