(* ===== verification/Ntp_Server.thy ===== *)
theory Ntp_Server
  imports Protocol_Nts Key_Rotator F64 Measure
begin

text \<open>
  \<^verbatim>\<open>src/src/ntp/server/server.rs\<close>: the NTP server. The process-wide Prometheus counters, the
  static \<^verbatim>\<open>CLIENT_ADDR\<close> and the measurement channels form the state \<open>ntp_world\<close>; the clock, the
  random nonces, the received datagrams and the experiment file are arguments. The key rotator
  and the server state sit behind their locks.
\<close>

section \<open>State\<close>

definition BUF_SIZE :: nat where "BUF_SIZE = 1280"

definition PHI :: f64 where "PHI = fl (15 / 1000000)"

definition TWO_POW_32 :: f64 where "TWO_POW_32 = 4294967296"

definition TWO_POW_16 :: f64 where "TWO_POW_16 = 65536"

record server_state =
  ss_leap :: leap_state
  ss_stratum :: u8
  ss_version :: u8
  ss_poll :: i8
  ss_precision :: i8
  ss_root_delay :: u32
  ss_root_dispersion :: u32
  ss_refid :: u32
  ss_refstamp :: u64
  ss_taken :: systime

record ntp_world =
  query_counter :: nat
  nts_counter :: nat
  kod_counter :: nat
  malformed_cookie_counter :: nat
  mangled_packet_counter :: nat
  missing_key_counter :: nat
  undecryptable_cookie_counter :: nat
  upstream_query_counter :: nat
  upstream_failure_counter :: nat
  client_addr :: string
  server_ntp_s :: channel
  server_nts_s :: channel

text \<open>What one request meets besides the shared state.\<close>

record ntp_env =
  experiment_cfg :: experiment_config
  ntp_elapsed :: nat
  nts_elapsed :: nat
  cookie_nonce :: "nat \<Rightarrow> bytes"
  packet_nonce :: bytes
  late_now :: systime

section \<open>Time\<close>

definition fix_dispersion :: "u32 \<Rightarrow> systime \<Rightarrow> systime \<Rightarrow> u32" where
  "fix_dispersion disp now taken =
     (let disp_frac = f64_of_nat (unat (disp AND 0x0000ffff));
          disp_secs = f64_of_nat (unat (drop_bit 16 (disp AND 0xffff0000)));
          dispf = fadd disp_secs (fdiv disp_frac TWO_POW_16)
      in case duration_since now taken of
           Some secs \<Rightarrow>
             let curdispf = fadd dispf (fmul (f64_of_nat (unat (as_secs secs))) PHI);
                 curdisp_secs = f64_to_u32 (f64_floor curdispf);
                 curdisp_frac = f64_to_u32 (f64_floor (fmul curdispf 65336))
             in push_bit 16 curdisp_secs + curdisp_frac
         | None \<Rightarrow> disp)"

definition ntp_timestamp :: "systime \<Rightarrow> (u64, 'e) result" where
  "ntp_timestamp time =
     bind_r (case duration_since time UNIX_EPOCH of
               Some d \<Rightarrow> Ok d | None \<Rightarrow> Panic ''called `Result::unwrap()` on an `Err` value'') (\<lambda>unix_time.
     let unix_offset = duration_new UNIX_OFFSET 0 in
     bind_r (duration_add unix_offset unix_time) (\<lambda>epoch_time.
     let ts_secs = as_secs epoch_time;
         ts_nanos = f64_of_nat (unat (subsec_nanos epoch_time));
         ts_frac = f64_to_u32 (f64_round (fdiv (fmul ts_nanos TWO_POW_32) 1000000000))
     in Ok (push_bit 32 ts_secs + ucast ts_frac)))"

section \<open>Answering a request\<close>

definition create_header ::
  "ntp_packet \<Rightarrow> systime \<Rightarrow> systime \<Rightarrow> server_state rwlock \<Rightarrow> (ntp_packet_header, 'e) result" where
  "create_header query_packet received transmit servstate =
     bind_r (rw_read servstate) (\<lambda>st.
     bind_r (ntp_timestamp received) (\<lambda>receive_ts.
     bind_r (ntp_timestamp transmit) (\<lambda>transmit_ts.
     Ok \<lparr>leap_indicator = ss_leap st, version = ss_version st, mode = Server,
         stratum = ss_stratum st, poll = ss_poll st, precision = ss_precision st,
         root_delay = ss_root_delay st,
         root_dispersion = fix_dispersion (ss_root_dispersion st) transmit (ss_taken st),
         reference_id = ss_refid st, reference_timestamp = ss_refstamp st,
         origin_timestamp = transmit_timestamp (ntp_header query_packet),
         receive_timestamp = receive_ts, transmit_timestamp = transmit_ts\<rparr>)))"

text \<open>
  \<^verbatim>\<open>kiss_of_death\<close>: the counter and the packet. The extension is unwrapped only after
  \<^verbatim>\<open>has_extension\<close> has found it, so the empty case cannot arise.
\<close>

definition kod_packet :: "ntp_packet \<Rightarrow> ntp_packet" where
  "kod_packet query_packet =
     \<lparr>ntp_header =
        \<lparr>leap_indicator = LeapUnknown, version = 4, mode = Server, stratum = 0, poll = 0,
         precision = 0, root_delay = 0, root_dispersion = 0, reference_id = 0x4e54534e,
         reference_timestamp = 0,
         origin_timestamp = transmit_timestamp (ntp_header query_packet),
         receive_timestamp = 0, transmit_timestamp = 0\<rparr>,
      exts = (if has_extension query_packet UniqueIdentifier
              then (case extract_extension query_packet UniqueIdentifier of
                      Some ext \<Rightarrow> [ext] | None \<Rightarrow> [])
              else [])\<rparr>"

definition kiss_of_death :: "ntp_packet \<Rightarrow> ntp_world \<Rightarrow> ntp_world \<times> ntp_packet" where
  "kiss_of_death query_packet w = (w\<lparr>kod_counter := kod_counter w + 1\<rparr>, kod_packet query_packet)"

definition send_kiss_of_death :: "ntp_packet \<Rightarrow> ntp_world \<Rightarrow> ntp_world \<times> (bytes, io_error) result" where
  "send_kiss_of_death query_packet w =
     (case kiss_of_death query_packet w of (w', resp) \<Rightarrow> (w', serialize_ntp_packet resp))"

text \<open>
  A fresh cookie under the latest key; \<open>i\<close> counts the cookies made for this request, to pick
  the nonce.
\<close>

definition fresh_cookie ::
  "aead \<Rightarrow> ntp_env \<Rightarrow> nts_keys \<Rightarrow> key_rotator rwlock \<Rightarrow> nat \<Rightarrow> (ntp_extension, 'e) result" where
  "fresh_cookie A env keys cookie_keys i =
     bind_r (rw_read cookie_keys) (\<lambda>keymaker.
     bind_r (latest_key_value keymaker) (\<lambda>(kid, curr_key).
     Ok \<lparr>ext_type = NTSCookie, contents = make_cookie A (cookie_nonce env i) keys curr_key kid\<rparr>))"

fun nts_response_loop ::
  "aead \<Rightarrow> ntp_env \<Rightarrow> nts_keys \<Rightarrow> key_rotator rwlock \<Rightarrow> ntp_extension list \<Rightarrow>
     ntp_extension list \<Rightarrow> ntp_extension list \<Rightarrow>
     (ntp_extension list \<times> ntp_extension list, 'e) result" where
  "nts_response_loop A env keys cookie_keys [] auth enc = Ok (auth, enc)"
| "nts_response_loop A env keys cookie_keys (ext # es) auth enc =
     (case ext_type ext of
        UniqueIdentifier \<Rightarrow> nts_response_loop A env keys cookie_keys es (auth @ [ext]) enc
      | NTSCookiePlaceholder \<Rightarrow>
          if COOKIE_SIZE \<le> length (contents ext)
          then bind_r (fresh_cookie A env keys cookie_keys (length enc)) (\<lambda>c.
               nts_response_loop A env keys cookie_keys es auth (enc @ [c]))
          else nts_response_loop A env keys cookie_keys es auth enc
      | _ \<Rightarrow> nts_response_loop A env keys cookie_keys es auth enc)"

definition nts_response ::
  "aead \<Rightarrow> ntp_env \<Rightarrow> nts_packet \<Rightarrow> ntp_packet_header \<Rightarrow> nts_keys \<Rightarrow> key_rotator rwlock \<Rightarrow>
     (nts_packet, 'e) result" where
  "nts_response A env query header keys cookie_keys =
     bind_r (nts_response_loop A env keys cookie_keys (auth_exts query) [] []) (\<lambda>(auth, enc).
     bind_r (fresh_cookie A env keys cookie_keys (length enc)) (\<lambda>c.
     bind_r (ntp_timestamp (late_now env)) (\<lambda>ts.
     Ok \<lparr>nts_header = header\<lparr>transmit_timestamp := ts\<rparr>, auth_exts = auth, auth_enc_exts = enc @ [c]\<rparr>)))"

definition process_nts ::
  "aead \<Rightarrow> ntp_env \<Rightarrow> ntp_packet_header \<Rightarrow> nts_keys \<Rightarrow> key_rotator rwlock \<Rightarrow> bytes \<Rightarrow>
     ntp_world \<Rightarrow> ntp_world \<times> (bytes, io_error) result" where
  "process_nts A env resp_header keys cookie_keys query_raw w =
     (case parse_nts_packet A (c2s keys) query_raw of
        Ok packet \<Rightarrow>
          (w, bind_r (nts_response A env packet resp_header keys cookie_keys) (\<lambda>resp.
              serialize_nts_packet A (s2c keys) (packet_nonce env) resp))
      | Err _ \<Rightarrow>
          (case parse_ntp_packet query_raw of
             Ok packet \<Rightarrow> (case kiss_of_death packet w of (w', resp) \<Rightarrow> (w', serialize_ntp_packet resp))
           | Err _ \<Rightarrow> (w, Panic ''called `Result::unwrap()` on an `Err` value'')
           | Panic p \<Rightarrow> (w, Panic p))
      | Panic p \<Rightarrow> (w, Panic p))"

text \<open>
  The NTS part of \<^verbatim>\<open>response\<close>. The read guard on the rotator is held while \<^verbatim>\<open>process_nts\<close> takes
  further read guards.
\<close>

definition respond_nts ::
  "aead \<Rightarrow> ntp_env \<Rightarrow> ntp_packet \<Rightarrow> bytes \<Rightarrow> ntp_packet_header \<Rightarrow> string \<Rightarrow> key_rotator rwlock \<Rightarrow>
     ntp_world \<Rightarrow> ntp_world \<times> (bytes, io_error) result" where
  "respond_nts A env query_packet query resp_header ip cookie_keys w0 =
     (let w = w0\<lparr>nts_counter := nts_counter w0 + 1\<rparr> in
      case extract_extension query_packet NTSCookie of
        None \<Rightarrow> (w, Panic ''called `Option::unwrap()` on a `None` value'')
      | Some cookie \<Rightarrow>
          (case get_keyid (contents cookie) of
             None \<Rightarrow>
               send_kiss_of_death query_packet (w\<lparr>malformed_cookie_counter := malformed_cookie_counter w + 1\<rparr>)
           | Some keyid \<Rightarrow>
               (case rw_read cookie_keys of
                  Err e \<Rightarrow> (w, Err e)
                | Panic p \<Rightarrow> (w, Panic p)
                | Ok point \<Rightarrow>
                    (case kr_get point keyid of
                       None \<Rightarrow>
                         send_kiss_of_death query_packet (w\<lparr>missing_key_counter := missing_key_counter w + 1\<rparr>)
                     | Some key \<Rightarrow>
                         (case eat_cookie A (contents cookie) key of
                            None \<Rightarrow>
                              send_kiss_of_death query_packet
                                (w\<lparr>undecryptable_cookie_counter := undecryptable_cookie_counter w + 1\<rparr>)
                          | Some nts_dir_keys \<Rightarrow>
                              (case process_nts A env resp_header nts_dir_keys cookie_keys query w of
                                 (w', Ok res) \<Rightarrow>
                                   (case write_measurement (client_addr w') ip (nts_elapsed env) (server_nts_s w') of
                                      Ok ch \<Rightarrow> (w'\<lparr>server_nts_s := ch\<rparr>, Ok res)
                                    | Err e \<Rightarrow> (w', Err e)
                                    | Panic p \<Rightarrow> (w', Panic p))
                               | (w', Err e) \<Rightarrow> (w', Err e)
                               | (w', Panic p) \<Rightarrow> (w', Panic p)))))))"

definition response ::
  "aead \<Rightarrow> ntp_env \<Rightarrow> bytes \<Rightarrow> systime \<Rightarrow> systime \<Rightarrow> key_rotator rwlock \<Rightarrow> server_state rwlock \<Rightarrow>
     ntp_world \<Rightarrow> ntp_world \<times> (bytes, io_error) result" where
  "response A env query r_time t_time cookie_keys servstate w0 =
     (case parse_ntp_packet query of
        Err e \<Rightarrow> (w0, Err e)
      | Panic p \<Rightarrow> (w0, Panic p)
      | Ok query_packet \<Rightarrow>
          (case create_header query_packet r_time t_time servstate of
             Err e \<Rightarrow> (w0, Err e)
           | Panic p \<Rightarrow> (w0, Panic p)
           | Ok resp_header \<Rightarrow>
               let w = w0\<lparr>query_counter := query_counter w0 + 1\<rparr> in
               if mode (ntp_header query_packet) \<noteq> Client
               then (w, Err (Io_Error InvalidData ''not client mode''))
               else
                 (case bind_r (meas_client_ip ''Unable to build ntp server config.'' (experiment_cfg env)) (\<lambda>ip.
                       bind_r (write_measurement (client_addr w) ip (ntp_elapsed env) (server_ntp_s w)) (\<lambda>ch.
                       Ok (ip, ch))) of
                    Err e \<Rightarrow> (w, Err e)
                  | Panic p \<Rightarrow> (w, Panic p)
                  | Ok (ip, ch) \<Rightarrow>
                      let w = w\<lparr>server_ntp_s := ch\<rparr> in
                      if is_nts_packet query_packet
                      then respond_nts A env query_packet query resp_header ip cookie_keys w
                      else (w, Ok (serialize_header resp_header)))))"

section \<open>The server loop\<close>

datatype control_message =
    ScmTimestamp int int
  | Ipv4PacketInfo bytes
  | Ipv6PacketInfo bytes
  | OtherControl

record received =
  recv_address :: "string option"
  recv_bytes :: bytes
  recv_cmsgs :: "control_message list"

text \<open>The receive time of the kernel (seconds, microseconds) and the messages to send back.\<close>

fun scan_cmsgs ::
  "bool \<Rightarrow> control_message list \<Rightarrow> int \<times> int \<Rightarrow> control_message list \<Rightarrow>
     (int \<times> int) \<times> control_message list" where
  "scan_cmsgs ipv4 [] r_time msgs = (r_time, msgs)"
| "scan_cmsgs ipv4 (msg # cs) r_time msgs =
     (case msg of
        ScmTimestamp s us \<Rightarrow> scan_cmsgs ipv4 cs (s, us) msgs
      | Ipv4PacketInfo _ \<Rightarrow> scan_cmsgs ipv4 cs r_time (if ipv4 then msgs @ [msg] else msgs)
      | Ipv6PacketInfo _ \<Rightarrow> scan_cmsgs ipv4 cs r_time (if \<not> ipv4 then msgs @ [msg] else msgs)
      | OtherControl \<Rightarrow> scan_cmsgs ipv4 cs r_time msgs)"

text \<open>\<^verbatim>\<open>UNIX_EPOCH + Duration::new(sec as u64, usec as u32 * 1000)\<close>.\<close>

definition receive_time :: "int \<times> int \<Rightarrow> (systime, 'e) result" where
  "receive_time r_time =
     (let secs = (word_of_int (fst r_time) :: u64); nanos = (word_of_int (snd r_time) :: u32) * 1000;
          d = duration_new (unat secs) (unat nanos)
      in if 2 ^ 64 \<le> d div NANOS_PER_SEC then Panic ''overflow in Duration::new''
         else case checked_add_time UNIX_EPOCH d of
                Some t \<Rightarrow> Ok t
              | None \<Rightarrow> Panic ''overflow when adding duration to instant'')"

datatype server_action = Ignored | Reply bytes "control_message list" string

text \<open>One round of the loop of \<^verbatim>\<open>run_server\<close>; \<open>t_system\<close> is the clock after the receive.\<close>

definition run_server_round ::
  "aead \<Rightarrow> bool \<Rightarrow> key_rotator rwlock \<Rightarrow> server_state rwlock \<Rightarrow>
     (received, io_error) result \<Rightarrow> systime \<Rightarrow> ntp_env \<Rightarrow> ntp_world \<Rightarrow>
     ntp_world \<times> (server_action, io_error) result" where
  "run_server_round A ipv4 keys servstate r t_system env w =
     (case r of
        Err _ \<Rightarrow> (w, Ok Ignored)
      | Panic p \<Rightarrow> (w, Panic p)
      | Ok msg \<Rightarrow>
          (case recv_address msg of
             None \<Rightarrow> (w, Ok Ignored)
           | Some src \<Rightarrow>
               let w = w\<lparr>client_addr := src\<rparr>;
                   (r_time, msgs) = scan_cmsgs ipv4 (recv_cmsgs msg) (0, 0) [] in
               (case receive_time r_time of
                  Err e \<Rightarrow> (w, Err e)
                | Panic p \<Rightarrow> (w, Panic p)
                | Ok r_system \<Rightarrow>
                    (case response A env (take BUF_SIZE (recv_bytes msg)) r_system t_system keys servstate w of
                       (w', Ok data) \<Rightarrow> (w', Ok (Reply data msgs src))
                     | (w', Err _) \<Rightarrow> (w'\<lparr>mangled_packet_counter := mangled_packet_counter w' + 1\<rparr>, Ok Ignored)
                     | (w', Panic p) \<Rightarrow> (w', Panic p)))))"

text \<open>
  \<^verbatim>\<open>run_server\<close> over the rounds it gets to see: the socket options first (each fails with a
  panic), then one action per round. A panic ends the thread.
\<close>

type_synonym server_round =
  "key_rotator rwlock \<times> server_state rwlock \<times> (received, io_error) result \<times> systime \<times> ntp_env"

fun run_server_loop ::
  "aead \<Rightarrow> bool \<Rightarrow> server_round list \<Rightarrow> ntp_world \<Rightarrow>
     ntp_world \<times> (server_action list, io_error) result" where
  "run_server_loop A ipv4 [] w = (w, Ok [])"
| "run_server_loop A ipv4 ((keys, servstate, r, t, env) # rounds) w =
     (case run_server_round A ipv4 keys servstate r t env w of
        (w', Ok a) \<Rightarrow> (case run_server_loop A ipv4 rounds w' of
                        (w'', rs) \<Rightarrow> (w'', bind_r rs (\<lambda>as. Ok (a # as))))
      | (w', Err e) \<Rightarrow> (w', Err e)
      | (w', Panic p) \<Rightarrow> (w', Panic p))"

definition run_server ::
  "aead \<Rightarrow> bool \<Rightarrow> bool \<Rightarrow> bool \<Rightarrow> server_round list \<Rightarrow> ntp_world \<Rightarrow>
     ntp_world \<times> (server_action list, io_error) result" where
  "run_server A timestamp_opt info_opt ipv4 rounds w =
     (if \<not> timestamp_opt \<or> \<not> info_opt then (w, Panic ''setsockopt failed; can't run ntp server'')
      else run_server_loop A ipv4 rounds w)"

section \<open>The upstream server\<close>

definition upstream_query :: ntp_packet where
  "upstream_query =
     \<lparr>ntp_header =
        \<lparr>leap_indicator = LeapUnknown, version = 4, mode = Client, stratum = 0, poll = 0,
         precision = 0, root_delay = 0, root_dispersion = 0, reference_id = 0,
         reference_timestamp = 0, origin_timestamp = 0, receive_timestamp = 0,
         transmit_timestamp = 0\<rparr>,
      exts = []\<rparr>"

text \<open>
  One round of \<^verbatim>\<open>refresh_servstate\<close>: \<open>connect_ok\<close> and \<open>send_ok\<close> are the outcomes of the socket
  calls, \<open>recv\<close> is what \<^verbatim>\<open>recv_from\<close> returns and \<open>now\<close> the clock when the state is stored.
\<close>

definition refresh_servstate_round ::
  "bool \<Rightarrow> bool \<Rightarrow> (bytes, io_error) result \<Rightarrow> systime \<Rightarrow> server_state rwlock \<Rightarrow> ntp_world \<Rightarrow>
     server_state rwlock \<times> ntp_world \<times> (unit, 'e) result" where
  "refresh_servstate_round connect_ok send_ok recv now servstate w =
     (if \<not> connect_ok
      then (servstate, w, Panic ''socket connection to server failed, failed to refresh server state'')
      else if \<not> send_ok
      then (servstate, w, Panic ''sending ntp packet to server failed, failed to refresh server state'')
      else
        let w = w\<lparr>upstream_query_counter := upstream_query_counter w + 1\<rparr> in
        case recv of
          Panic p \<Rightarrow> (servstate, w, Panic p)
        | Err _ \<Rightarrow> (servstate, w\<lparr>upstream_failure_counter := upstream_failure_counter w + 1\<rparr>, Ok ())
        | Ok buff \<Rightarrow>
            (case parse_ntp_packet buff of
               Panic p \<Rightarrow> (servstate, w, Panic p)
             | Err _ \<Rightarrow> (servstate, w\<lparr>upstream_failure_counter := upstream_failure_counter w + 1\<rparr>, Ok ())
             | Ok packet \<Rightarrow>
                 (case rw_read servstate of
                    Err e \<Rightarrow> (servstate, w, Err e)
                  | Panic p \<Rightarrow> (servstate, w, Panic p)
                  | Ok st \<Rightarrow>
                      let h = ntp_header packet in
                      (servstate\<lparr>lock_val := st\<lparr>ss_leap := leap_indicator h, ss_version := 4,
                         ss_poll := poll h, ss_precision := precision h, ss_stratum := stratum h,
                         ss_root_delay := root_delay h, ss_root_dispersion := root_dispersion h,
                         ss_refid := reference_id h, ss_refstamp := reference_timestamp h,
                         ss_taken := now\<rparr>\<rparr>, w, Ok ()))))"

text \<open>The loop over the rounds it gets to see; it ends only with a panic.\<close>

fun refresh_servstate ::
  "(bool \<times> bool \<times> (bytes, io_error) result \<times> systime) list \<Rightarrow> server_state rwlock \<Rightarrow> ntp_world \<Rightarrow>
     server_state rwlock \<times> ntp_world \<times> (unit, 'e) result" where
  "refresh_servstate [] servstate w = (servstate, w, Ok ())"
| "refresh_servstate ((connect_ok, send_ok, recv, now) # rounds) servstate w =
     (case refresh_servstate_round connect_ok send_ok recv now servstate w of
        (servstate, w, Ok _) \<Rightarrow> refresh_servstate rounds servstate w
      | (servstate, w, Err e) \<Rightarrow> (servstate, w, Err e)
      | (servstate, w, Panic p) \<Rightarrow> (servstate, w, Panic p))"

definition initial_servstate :: "systime \<Rightarrow> server_state" where
  "initial_servstate now =
     \<lparr>ss_leap = LeapUnknown, ss_stratum = 16, ss_version = VERSION, ss_poll = 7,
      ss_precision = - 18, ss_root_delay = 10, ss_root_dispersion = 10, ss_refid = 0,
      ss_refstamp = 0, ss_taken = now\<rparr>"

text \<open>Without an upstream server the state is that of a stratum 1 server.\<close>

definition start_servstate :: "bool \<Rightarrow> systime \<Rightarrow> server_state rwlock" where
  "start_servstate upstream now =
     new_lock (if upstream then initial_servstate now
               else (initial_servstate now)\<lparr>ss_leap := NoLeap, ss_stratum := 1\<rparr>)"

section \<open>Timestamps\<close>

text \<open>The 32 bit fraction of a number of nanoseconds.\<close>

definition ts_fraction :: "nat \<Rightarrow> nat" where
  "ts_fraction n = nat \<lfloor>fl (of_nat n * 2 ^ 32 / 10 ^ 9) + 1 / 2\<rfloor>"

lemma exact_fraction_less: "n < 10 ^ 9 \<Longrightarrow> (of_nat n :: rat) * 2 ^ 32 / 10 ^ 9 \<le> 4294967291.8"
proof -
  assume "n < 10 ^ 9"
  then have "n \<le> 999999999" by simp
  then have "(of_nat n :: rat) \<le> of_nat 999999999" by (simp only: of_nat_le_iff)
  then show ?thesis by simp
qed

lemma fl_fraction:
  assumes "n < 10 ^ 9"
  shows "\<bar>fl (of_nat n * 2 ^ 32 / 10 ^ 9) - of_nat n * 2 ^ 32 / 10 ^ 9\<bar> \<le> 1 / 2 ^ 21"
    and "0 \<le> fl (of_nat n * 2 ^ 32 / 10 ^ 9)" and "fl (of_nat n * 2 ^ 32 / 10 ^ 9) < 4294967292"
proof -
  let ?y = "of_nat n * 2 ^ 32 / 10 ^ 9 :: rat"
  have y: "0 \<le> ?y" "?y \<le> 4294967291.8" using exact_fraction_less [OF assms] by simp_all
  have "\<bar>fl ?y - ?y\<bar> \<le> ?y / 2 ^ 53" by (rule fl_error [OF y(1)])
  also have "\<dots> \<le> 1 / 2 ^ 21" using y(2) by (simp add: field_simps)
  finally show e: "\<bar>fl ?y - ?y\<bar> \<le> 1 / 2 ^ 21" .
  show "0 \<le> fl ?y" using fl_mono [of 0 ?y] y(1) by simp
  have "\<bar>f - z\<bar> \<le> 1 / 2 ^ 21 \<Longrightarrow> z \<le> 4294967291.8 \<Longrightarrow> f < 4294967292" for f z :: rat
    using abs_ge_self [of "f - z"] by simp
  from this [OF e y(2)] show "fl ?y < 4294967292" .
qed

lemma ts_fraction_less: "n < 10 ^ 9 \<Longrightarrow> ts_fraction n < 2 ^ 32"
proof -
  assume n: "n < 10 ^ 9"
  have "nat \<lfloor>f + 1 / 2\<rfloor> < 2 ^ 32" if "0 \<le> f" "f < 4294967292" for f :: rat
  proof -
    have "\<lfloor>f + 1 / 2\<rfloor> < 4294967293" using that(2) by (simp add: floor_less_iff)
    moreover have "nat x < 2 ^ 32" if "x < 4294967293" for x :: int using that by auto
    ultimately show ?thesis by blast
  qed
  from this [OF fl_fraction(2,3) [OF n]] show ?thesis unfolding ts_fraction_def .
qed

lemma ts_fraction_error:
  assumes "n < 10 ^ 9"
  shows "\<bar>of_nat (ts_fraction n) - of_nat n * 2 ^ 32 / 10 ^ 9\<bar> \<le> (1 / 2 + 1 / 2 ^ 21 :: rat)"
proof -
  let ?f = "fl (of_nat n * 2 ^ 32 / 10 ^ 9)"
  have "0 \<le> ?f" by (rule fl_fraction(2) [OF assms])
  then have "(of_nat (ts_fraction n) :: rat) = of_int \<lfloor>?f + 1 / 2\<rfloor>"
    by (simp add: ts_fraction_def)
  moreover have "of_int \<lfloor>?f + 1 / 2\<rfloor> \<le> ?f + 1 / 2" "?f + 1 / 2 < of_int \<lfloor>?f + 1 / 2\<rfloor> + 1"
    by linarith+
  ultimately have "\<bar>of_nat (ts_fraction n) - ?f\<bar> \<le> 1 / 2" by linarith
  then show ?thesis using fl_fraction(1) [OF assms] by linarith
qed

lemma ts_fraction_mono: "m \<le> n \<Longrightarrow> ts_fraction m \<le> ts_fraction n"
proof -
  assume "m \<le> n"
  then have "(of_nat m :: rat) * 2 ^ 32 / 10 ^ 9 \<le> of_nat n * 2 ^ 32 / 10 ^ 9"
    by (simp add: divide_right_mono)
  from fl_mono [OF _ this] show ?thesis
    unfolding ts_fraction_def by (intro nat_mono floor_mono) simp
qed

lemma f64_fraction:
  assumes "n < 10 ^ 9"
  shows "f64_to_u32 (f64_round (fdiv (fmul (f64_of_nat n) TWO_POW_32) 1000000000)) = of_nat (ts_fraction n)"
proof -
  let ?f = "fl (of_nat n * 2 ^ 32 / 10 ^ 9)"
  have n: "n < 2 ^ 53" using assms by simp
  have "fmul (f64_of_nat n) TWO_POW_32 = of_nat n * 2 ^ 32"
    using fmul_two_power [OF n, of 32] n by (simp add: TWO_POW_32_def)
  then have f: "fdiv (fmul (f64_of_nat n) TWO_POW_32) 1000000000 = ?f"
    by (simp add: fdiv_def)
  have p: "0 \<le> ?f" by (rule fl_fraction(2) [OF assms])
  have lt: "int (ts_fraction n) < 2 ^ 32" using ts_fraction_less [OF assms] by simp
  have r: "f64_round ?f = of_int (int (ts_fraction n))"
    using p by (simp add: f64_round_def ts_fraction_def)
  show ?thesis
    unfolding f r using lt by (simp add: f64_to_u32_def flip: of_int_less_iff)
qed

lemma u64_shift_add:
  assumes "f < 2 ^ 32"
  shows "push_bit 32 (of_nat k :: u64) + ucast (of_nat f :: u32) = of_nat ((k mod 2 ^ 32) * 2 ^ 32 + f)"
proof -
  have "(ucast (of_nat f :: u32) :: u64) = of_nat f"
    using assms by (simp add: word_unat_eq_iff unsigned_ucast_eq take_bit_eq_mod unat_of_nat)
  moreover have "push_bit 32 (of_nat k :: u64) = of_nat ((k mod 2 ^ 32) * 2 ^ 32)"
  proof -
    have "(k mod 2 ^ 32) * 2 ^ 32 mod 2 ^ 64 = k * 2 ^ 32 mod (2 ^ 64 :: nat)"
      using mult_mod_left [of k "2 ^ 32" "2 ^ 32"] by simp
    then show ?thesis
      by (simp add: word_unat_eq_iff push_bit_eq_mult unat_word_ariths unat_of_nat del: of_nat_mult)
        (simp add: mod_mult_left_eq)
  qed
  ultimately show ?thesis by simp
qed

text \<open>Seconds and nanoseconds of an instant.\<close>

definition secs_of :: "systime \<Rightarrow> nat" where "secs_of t = nat t div 10 ^ 9"
definition nanos_of :: "systime \<Rightarrow> nat" where "nanos_of t = nat t mod 10 ^ 9"

lemma nanos_of_less: "nanos_of t < 10 ^ 9" by (simp add: nanos_of_def)

lemma ntp_timestamp_eq:
  assumes "0 \<le> t" and "UNIX_OFFSET + secs_of t < 2 ^ 64"
  shows "ntp_timestamp t =
    Ok (of_nat (((UNIX_OFFSET + secs_of t) mod 2 ^ 32) * 2 ^ 32 + ts_fraction (nanos_of t)))"
proof -
  let ?d = "UNIX_OFFSET * 10 ^ 9 + nat t"
  have div: "?d div 10 ^ 9 = UNIX_OFFSET + secs_of t" and mod: "?d mod 10 ^ 9 = nanos_of t"
    by (simp_all add: secs_of_def nanos_of_def)
  have n: "unat (of_nat (nanos_of t) :: u32) = nanos_of t"
    using nanos_of_less [of t] by (simp add: unat_of_nat)
  show ?thesis
    using assms div mod
    unfolding ntp_timestamp_def duration_since_def UNIX_EPOCH_def duration_new_def duration_add_def
      as_secs_def subsec_nanos_def NANOS_PER_SEC_def Let_def
    by (simp add: n f64_fraction [OF nanos_of_less] u64_shift_add [OF ts_fraction_less [OF nanos_of_less]]
        del: of_nat_add of_nat_mult f64_of_nat_exact)
qed

lemma ntp_timestamp_mono:
  assumes "0 \<le> a" and "a \<le> b" and "UNIX_OFFSET + secs_of b < 2 ^ 32"
  obtains ta tb where "ntp_timestamp a = Ok ta" and "ntp_timestamp b = Ok tb" and "ta \<le> tb"
proof -
  have le: "nat a \<le> nat b" using assms by simp
  then have s: "secs_of a \<le> secs_of b" by (simp add: secs_of_def div_le_mono)
  let ?x = "\<lambda>t. (UNIX_OFFSET + secs_of t) * 2 ^ 32 + ts_fraction (nanos_of t)"
  have fb: "ts_fraction (nanos_of a) < 2 ^ 32" "ts_fraction (nanos_of b) < 2 ^ 32"
    by (rule ts_fraction_less [OF nanos_of_less])+
  have "?x a \<le> ?x b"
  proof (cases "secs_of a = secs_of b")
    case True
    then have "nanos_of a \<le> nanos_of b"
      using le by (metis add_le_cancel_left div_mult_mod_eq nanos_of_def secs_of_def)
    with True ts_fraction_mono show ?thesis by simp
  next
    case False
    with s have "UNIX_OFFSET + secs_of a + 1 \<le> UNIX_OFFSET + secs_of b" by simp
    then have "(UNIX_OFFSET + secs_of a + 1) * 2 ^ 32 \<le> (UNIX_OFFSET + secs_of b) * 2 ^ 32"
      by (rule mult_le_mono1)
    then show ?thesis using fb(1) by (simp add: algebra_simps)
  qed
  moreover have "?x b < 2 ^ 64"
  proof -
    have "(UNIX_OFFSET + secs_of b + 1) * 2 ^ 32 \<le> 2 ^ 32 * 2 ^ 32"
      using assms(3) by (intro mult_le_mono1) simp
    then show ?thesis using fb(2) by (simp add: algebra_simps)
  qed
  ultimately have "(of_nat (?x a) :: u64) \<le> of_nat (?x b)"
    by (simp add: word_le_nat_alt unat_of_nat del: of_nat_add of_nat_mult)
  moreover have "ntp_timestamp a = Ok (of_nat (?x a))" "ntp_timestamp b = Ok (of_nat (?x b))"
    using ntp_timestamp_eq [of a] ntp_timestamp_eq [of b] assms s by (simp_all del: of_nat_add of_nat_mult)
  ultimately show thesis by (rule that [rotated 2])
qed

section \<open>Dispersion\<close>

lemma unat_low_half: "unat (d AND 0x0000ffff :: u32) = unat d mod 65536"
proof -
  have "d AND 0xffff = take_bit 16 d" by (simp add: take_bit_eq_mask mask_numeral)
  then show ?thesis by (simp add: unat_mod take_bit_eq_mod)
qed

lemma unat_high_half: "unat (drop_bit 16 (d AND 0xffff0000) :: u32) = unat d div 65536"
proof -
  have m: "(0xffff0000 :: u32) = push_bit 16 (mask 16)" by (simp add: mask_numeral)
  have "drop_bit 16 (d AND 0xffff0000) = drop_bit 16 d"
  proof (rule bit_word_eqI)
    fix n
    have "bit d (16 + n) \<Longrightarrow> n < 16" using bit_imp_le_length [of d "16 + n"] by simp
    then show "bit (drop_bit 16 (d AND 0xffff0000)) n = bit (drop_bit 16 d) n"
      unfolding m by (auto simp: bit_drop_bit_eq bit_and_iff bit_push_bit_iff bit_mask_iff)
  qed
  then show ?thesis by (simp add: unat_div drop_bit_eq_div)
qed

lemma dispf_exact:
  "fadd (f64_of_nat (unat d div 65536)) (fdiv (f64_of_nat (unat d mod 65536)) TWO_POW_16) =
     of_nat (unat (d :: u32)) / 2 ^ 16"
proof -
  let ?n = "unat d"
  have n: "?n < 2 ^ 32" using unsigned_less [of d] by simp
  have a: "fdiv (f64_of_nat (?n mod 65536)) TWO_POW_16 = of_nat (?n mod 65536) / 2 ^ 16"
    using fdiv_two_power [of "?n mod 65536" 16] by (simp add: TWO_POW_16_def)
  have b: "f64_of_nat (?n div 65536) = of_nat (?n div 65536)" using n by simp
  have c: "(of_nat (?n div 65536) :: rat) + of_nat (?n mod 65536) / 2 ^ 16 = of_nat ?n / 2 ^ 16"
  proof -
    have "(of_nat ?n :: rat) = of_nat (?n div 65536 * 65536 + ?n mod 65536)" by simp
    also have "\<dots> = of_nat (?n div 65536) * 65536 + of_nat (?n mod 65536)" by (simp only: of_nat_add of_nat_mult of_nat_numeral)
    finally show ?thesis by (simp add: field_simps)
  qed
  have "?n < 2 ^ 53" using n by simp
  then show ?thesis unfolding a b fadd_def c by (rule fl_exact_div)
qed

text \<open>Within the second in which the state was taken, the new dispersion in closed form.\<close>

lemma floor_of_nat_div: "\<lfloor>(of_nat a :: rat) / of_nat b\<rfloor> = int (a div b)"
  by (simp add: floor_divide_of_nat_eq)

lemma f64_to_u32_nat: "k < 2 ^ 32 \<Longrightarrow> f64_to_u32 (of_int (int k)) = of_nat k"
proof -
  assume "k < 2 ^ 32"
  then have "(of_nat k :: rat) < of_nat (2 ^ 32)" by (simp only: of_nat_less_iff)
  then show ?thesis by (simp add: f64_to_u32_def)
qed

lemma fix_dispersion_fresh:
  assumes "taken \<le> now" and "now - taken < 10 ^ 9"
  shows "fix_dispersion d now taken =
    of_nat ((unat d div 65536) * 65536 + unat d * 65336 div 65536)"
proof -
  let ?n = "unat d"
  have n: "?n < 2 ^ 32" using unsigned_less [of d] by simp
  have secs: "as_secs (nat (now - taken)) = 0"
    using assms by (simp add: as_secs_def NANOS_PER_SEC_def nat_less_iff)
  have cur: "fadd (of_nat ?n / 2 ^ 16) (fmul (f64_of_nat 0) PHI) = of_nat ?n / 2 ^ 16"
    using fl_exact_div [of ?n 16] n by (simp add: fadd_def fmul_def f64_of_nat_def)
  have c1: "f64_to_u32 (f64_floor (of_nat ?n / 2 ^ 16)) = of_nat (?n div 65536)"
    using n floor_of_nat_div [of ?n 65536] f64_to_u32_nat [of "?n div 65536"] by (simp add: f64_floor_def)
  have "?n * 65336 < 2 ^ 53" using n by simp
  then have m: "fmul (of_nat ?n / 2 ^ 16) 65336 = of_nat (?n * 65336) / 2 ^ 16"
    using fl_exact_div [of "?n * 65336" 16] by (simp add: fmul_def)
  have c2: "f64_to_u32 (f64_floor (fmul (of_nat ?n / 2 ^ 16) 65336)) = of_nat (?n * 65336 div 65536)"
    unfolding m using n floor_of_nat_div [of "?n * 65336" 65536] f64_to_u32_nat [of "?n * 65336 div 65536"]
    by (simp add: f64_floor_def)
  have "fix_dispersion d now taken = push_bit 16 (of_nat (?n div 65536)) + of_nat (?n * 65336 div 65536)"
    unfolding fix_dispersion_def Let_def unat_low_half unat_high_half dispf_exact
    using assms(1) by (simp only: duration_since_def if_True option.case secs unsigned_0 cur c1 c2)
  then show ?thesis by (simp add: push_bit_eq_mult)
qed

end
