(* ===== verification/Protocol_Props.thy ===== *)
theory Protocol_Props
  imports Protocol_Nts
begin

text \<open>
  The properties of the packet formats of \<^verbatim>\<open>src/src/ntp/protocol.rs\<close>: round trips of plain and
  authenticated packets, robustness of the parsers against arbitrary datagrams, what a successful
  parse authenticates, and the two ways a truncated authenticator defeats \<^verbatim>\<open>parse_nts_packet\<close>.
\<close>

section \<open>Concrete packets\<close>

definition sample_header :: ntp_packet_header where
  "sample_header =
     \<lparr>leap_indicator = NoLeap, version = VERSION, mode = Client, stratum = 0, poll = 0, precision = 0,
      root_delay = 0, root_dispersion = 0, reference_id = 0, reference_timestamp = 0,
      origin_timestamp = 0, receive_timestamp = 0, transmit_timestamp = 42\<rparr>"

definition sample_ext :: "ntp_extension_type \<Rightarrow> ntp_extension" where
  "sample_ext t = \<lparr>ext_type = t, contents = [1, 2, 3, 4]\<rparr>"

definition sample_packet :: nts_packet where
  "sample_packet =
     \<lparr>nts_header = sample_header, auth_exts = [sample_ext UniqueIdentifier],
      auth_enc_exts = [sample_ext NTSCookie]\<rparr>"

lemma parse_version_less: "parse_version b < 8"
proof -
  have "unat (b AND 56) \<le> 56" using word_and_le1 [of b 56] by (simp add: word_le_nat_alt)
  then have "unat (b AND 56) div 8 < 8" by simp
  then show ?thesis
    by (simp add: parse_version_def word_less_nat_alt drop_bit_eq_div unat_div)
qed

lemma parse_packet_header_version: "parse_packet_header b = Ok h \<Longrightarrow> version h < 8"
  using parse_packet_header_Ok_length [of b h] by (auto simp: parse_packet_header_long parse_version_less)

lemma sample_packet_wf: "wf_nts_packet sample_packet"
  by (simp add: wf_nts_packet_def sample_packet_def sample_header_def sample_ext_def VERSION_def
      wf_ext_def nts_wire_size_def exts_size_def pad4_def)

lemma sample_wire:
  "\<exists>w. serialize_nts_packet checksum_aead [1] (replicate 16 0) sample_packet = Ok w \<and>
     length w = nts_wire_size sample_packet \<and>
     parse_nts_packet checksum_aead [1] w = Ok sample_packet"
  by (rule parse_serialize_nts) (simp_all add: sample_packet_wf NONCE_LEN_def)

section \<open>Plain NTP packets\<close>

text \<open>
  C33: Serialising a plain packet whose version fits its three bits and whose extensions are
  well formed (a canonical type, a length that is a multiple of four and fits its field)
  succeeds, and parsing the bytes gives the packet back.
\<close>

theorem ntp_packet_roundtrip:
  assumes "version (ntp_header p) < 8" and "list_all wf_ext (exts p)"
  shows "\<exists>w. serialize_ntp_packet p = Ok w \<and> parse_ntp_packet w = Ok p"
  using assms
  by (cases p) (simp add: serialize_ntp_packet_def serialize_extensions_wf result_simps parse_ntp_packet_def
      parse_serialize_header slice_r_def length_serialize_header parse_extensions_concat)

theorem ntp_packet_roundtrip_witness:
  "\<exists>w. serialize_ntp_packet \<lparr>ntp_header = sample_header, exts = [sample_ext NTSCookie]\<rparr> = Ok w \<and>
       parse_ntp_packet w = Ok \<lparr>ntp_header = sample_header, exts = [sample_ext NTSCookie]\<rparr>"
  by (rule ntp_packet_roundtrip)
    (simp_all add: sample_header_def sample_ext_def VERSION_def wf_ext_def)

text \<open>
  Parsing an arbitrary datagram as a plain NTP packet never panics.
\<close>

lemma parse_ntp_packet_total: "\<not> panics (parse_ntp_packet b)"
  by (rule parse_ntp_packet_no_panic)

text \<open>
  Whatever \<^verbatim>\<open>parse_ntp_packet\<close> accepts is a packet that can be serialised without a panic
  and parsed back to the same packet: its extensions are well formed and its version is three
  bits wide.
\<close>

lemma parse_ntp_packet_reserialises:
  assumes "parse_ntp_packet b = Ok p"
  shows "\<exists>w. serialize_ntp_packet p = Ok w \<and> parse_ntp_packet w = Ok p"
proof -
  have "list_all wf_ext (exts p)" and v: "parse_packet_header b = Ok (ntp_header p)"
    using assms by (auto simp: parse_ntp_packet_def result_simps intro: parse_extensions_wf)
  moreover have "version (ntp_header p) < 8"
    by (rule parse_packet_header_version [OF v])
  ultimately show ?thesis
    by (cases p) (simp add: serialize_ntp_packet_def serialize_extensions_wf result_simps parse_ntp_packet_def
      parse_serialize_header slice_r_def length_serialize_header parse_extensions_concat)
qed

lemma parse_ntp_packet_reserialises_witness:
  "\<exists>b p w. parse_ntp_packet b = Ok p \<and> length b = 56 \<and> serialize_ntp_packet p = Ok w \<and>
     parse_ntp_packet w = Ok p"
proof -
  let ?p = "\<lparr>ntp_header = sample_header, exts = [sample_ext NTSCookie]\<rparr>"
  let ?b = "serialize_header sample_header @ ext_bytes (sample_ext NTSCookie)"
  have "parse_ntp_packet ?b = Ok ?p"
    using parse_extensions_concat [of "[sample_ext NTSCookie]"]
      parse_serialize_header [of sample_header "ext_bytes (sample_ext NTSCookie)"]
    by (simp add: parse_ntp_packet_def result_simps slice_r_def sample_header_def VERSION_def
        wf_ext_def sample_ext_def)
  moreover have "length ?b = 56" by (simp add: sample_ext_def)
  ultimately show ?thesis using parse_ntp_packet_reserialises [of ?b ?p] by blast
qed

section \<open>Authenticated packets\<close>

text \<open>
  C2: For any AEAD that decrypts what it encrypts and expands by its 16 byte tag, serialising a
  well formed NTS packet succeeds, yields as many bytes as the layout prescribes, and parsing
  them under the same key gives the packet back.
\<close>

theorem nts_packet_roundtrip:
  assumes "aead_correct A" and "aead_expands A" and "length nonce = NONCE_LEN" and "wf_nts_packet p"
  shows "\<exists>w. serialize_nts_packet A key nonce p = Ok w \<and> length w = nts_wire_size p \<and>
             parse_nts_packet A key w = Ok p"
  by (rule parse_serialize_nts [OF assms])

theorem nts_packet_roundtrip_witness:
  "\<exists>w. serialize_nts_packet checksum_aead [1] (replicate 16 0) sample_packet = Ok w \<and>
     length w = nts_wire_size sample_packet \<and>
     parse_nts_packet checksum_aead [1] w = Ok sample_packet"
  by (rule nts_packet_roundtrip) (simp_all add: sample_packet_wf NONCE_LEN_def)


text \<open>
  C3: Whatever key and AEAD are used, when \<^verbatim>\<open>parse_nts_packet\<close> accepts a datagram whose
  extension fields are complete (each declared length at least four and inside the datagram, up
  to the authenticator), the AEAD has opened a ciphertext with the associated data being exactly
  the header and all extensions reported as authenticated, and the encrypted extensions are the
  parse of the opened plaintext.
\<close>

theorem parse_nts_accepts_only_authenticated:
  assumes "parse_nts_packet A key b = Ok q" and "exts_complete (drop 48 b)" and "length b < 2 ^ 63"
  shows "\<exists>ad nonce ct pt.
    ad = take 48 b @ concat (map ext_bytes (auth_exts q)) \<and> prefix ad b \<and>
    parse_packet_header ad = Ok (nts_header q) \<and>
    aead_open A key nonce ad ct = Some pt \<and> parse_extensions pt = Ok (auth_enc_exts q)"
  by (rule parse_nts_authenticated [OF assms])

theorem parse_nts_accepts_only_authenticated_witness:
  "\<exists>w ad nonce ct pt. parse_nts_packet checksum_aead [1] w = Ok sample_packet \<and>
     ad = take 48 w @ ext_bytes (sample_ext UniqueIdentifier) \<and>
     aead_open checksum_aead [1] nonce ad ct = Some pt \<and>
     parse_extensions pt = Ok [sample_ext NTSCookie]"
proof -
  obtain w where w: "serialize_nts_packet checksum_aead [1] (replicate 16 0) sample_packet = Ok w"
    "length w = nts_wire_size sample_packet" "parse_nts_packet checksum_aead [1] w = Ok sample_packet"
    using sample_wire by blast
  have "exts_complete (drop 48 w)"
    by (rule exts_complete_serialised [OF checksum_aead_expands _ _ w(1)]) (simp_all add: sample_packet_wf NONCE_LEN_def)
  moreover have "length w < 2 ^ 63" using sample_packet_wf w(2) by (simp add: wf_nts_packet_def)
  ultimately show ?thesis
    using parse_nts_accepts_only_authenticated [OF w(3)] w(3) by (simp add: sample_packet_def) blast
qed

text \<open>
  C32: On a datagram whose extension fields are complete, \<^verbatim>\<open>parse_nts_packet\<close> returns a packet
  or an error, it never panics.
\<close>

theorem parse_nts_complete_no_panic:
  assumes "exts_complete (drop 48 b)" and "length b < 2 ^ 63"
  shows "\<not> panics (parse_nts_packet A key b)"
  by (rule parse_nts_no_panic [OF assms])

text \<open>A datagram with two complete extensions and a complete authenticator that no key sealed.\<close>

definition forged_datagram :: bytes where
  "forged_datagram = serialize_header sample_header @
     concat (map ext_bytes ([sample_ext UniqueIdentifier, sample_ext NTSCookie] @ [auth_ext (auth_body (replicate 16 0) (replicate 16 9) [])]))"

lemma forged_complete: "exts_complete (drop 48 forged_datagram)"
proof -
  have "list_all fits_ext [sample_ext UniqueIdentifier, sample_ext NTSCookie]"
    by (simp add: fits_ext_def sample_ext_def)
  from exts_complete_concat [OF this, of "auth_body (replicate 16 0) (replicate 16 9) []"] show ?thesis
    by (simp add: forged_datagram_def)
qed

theorem parse_nts_complete_no_panic_witness:
  "length forged_datagram = 104 \<and> exts_complete (drop 48 forged_datagram) \<and>
   \<not> panics (parse_nts_packet checksum_aead [1] forged_datagram)"
proof -
  have l: "length forged_datagram = 104"
    by (simp add: forged_datagram_def sample_ext_def auth_ext_def)
  have "\<not> panics (parse_nts_packet checksum_aead [1] forged_datagram)"
    by (rule parse_nts_complete_no_panic [OF forged_complete]) (simp add: l)
  with l forged_complete show ?thesis by blast
qed

text \<open>
  C38: An attacker without the key can add an extension to an authenticated packet. Inserted
  before the authenticator, with the authenticator's declared length raised by its size, the
  extension is reported as authenticated: the declared length exceeds what is left of the
  datagram, the \<^verbatim>\<open>read\<close> comes back short, and the associated data is cut
  \<^verbatim>\<open>declared length\<close> bytes before the end of what was read, which leaves the inserted bytes
  out of it.
\<close>

theorem nts_extension_injection:
  assumes "aead_correct A" and "aead_expands A" and "length nonce = NONCE_LEN"
    and "wf_nts_packet p" and "wf_ext e" and "ext_type e \<noteq> NTSAuthenticator"
    and "nts_wire_size p + length (ext_bytes e) < 65536"
    and "serialize_nts_packet A key nonce p = Ok w"
  shows "parse_nts_packet A key (inject_ext (48 + exts_size (auth_exts p)) e w) =
         Ok (p\<lparr>auth_exts := auth_exts p @ [e]\<rparr>)"
  by (rule parse_nts_injection [OF assms])

theorem nts_extension_injection_witness:
  "\<exists>w. (serialize_nts_packet checksum_aead [1] (replicate 16 0) sample_packet :: (bytes, io_error) result) = Ok w \<and>
     parse_nts_packet checksum_aead [1] (inject_ext 56 (sample_ext NTSCookiePlaceholder) w) =
       Ok (sample_packet\<lparr>auth_exts := [sample_ext UniqueIdentifier, sample_ext NTSCookiePlaceholder]\<rparr>)"
proof -
  obtain w where w: "(serialize_nts_packet checksum_aead [1] (replicate 16 0) sample_packet :: (bytes, io_error) result) = Ok w"
    using sample_wire by blast
  have x: "exts_size (auth_exts sample_packet) = 8" "auth_exts sample_packet = [sample_ext UniqueIdentifier]"
    by (simp_all add: sample_packet_def sample_ext_def exts_size_def)
  have "parse_nts_packet checksum_aead [1] (inject_ext (48 + exts_size (auth_exts sample_packet))
      (sample_ext NTSCookiePlaceholder) w) =
      Ok (sample_packet\<lparr>auth_exts := auth_exts sample_packet @ [sample_ext NTSCookiePlaceholder]\<rparr>)"
    by (rule nts_extension_injection [OF _ _ _ sample_packet_wf _ _ _ w])
      (simp_all add: NONCE_LEN_def wf_ext_def sample_ext_def sample_packet_def nts_wire_size_def
        exts_size_def pad4_def)
  then show ?thesis using w unfolding x(1) by (auto simp: x(2))
qed

text \<open>
  A datagram whose authenticator declares more bytes than the whole datagram has makes
  \<^verbatim>\<open>parse_nts_packet\<close> panic, whatever the key: the position before the authenticator is
  computed with a subtraction that wraps around.
\<close>

lemma nts_truncated_authenticator_panics:
  assumes "parse_packet_header hb = Ok h" and "length hb = 48" and "list_all fits_ext es"
    and "list_all (\<lambda>e. ext_type e \<noteq> NTSAuthenticator) es"
    and "length (nts_wire hb es l body) < 2 ^ 63"
    and "4 \<le> unat l" and "length (nts_wire hb es l body) < unat l"
  shows "panics (parse_nts_packet A key (nts_wire hb es l body))"
  by (rule parse_nts_truncated_panics [OF assms])

lemma nts_truncated_authenticator_panics_witness:
  "panics (parse_nts_packet checksum_aead [1]
     (nts_wire (serialize_header sample_header) [sample_ext NTSCookie] 100 []))"
  by (rule nts_truncated_authenticator_panics
        [OF parse_serialize_header [of sample_header "[]", unfolded append_Nil2]])
    (simp_all add: sample_header_def VERSION_def fits_ext_def sample_ext_def nts_wire_def)

text \<open>
  C34: When both parsers accept a datagram they agree: the header is the same and the extensions
  \<^verbatim>\<open>parse_nts_packet\<close> reports as authenticated are those \<^verbatim>\<open>parse_ntp_packet\<close> lists before
  the first authenticator.
\<close>

theorem nts_parser_agrees_with_ntp_parser:
  assumes "parse_ntp_packet b = Ok p" and "parse_nts_packet A key b = Ok q"
  shows "nts_header q = ntp_header p \<and>
         auth_exts q = takeWhile (\<lambda>e. ext_type e \<noteq> NTSAuthenticator) (exts p)"
  by (rule parse_nts_agrees_ntp [OF assms])


theorem nts_parser_agrees_with_ntp_parser_witness:
  "\<exists>w p. parse_ntp_packet w = Ok p \<and> parse_nts_packet checksum_aead [1] w = Ok sample_packet \<and>
     takeWhile (\<lambda>e. ext_type e \<noteq> NTSAuthenticator) (exts p) = [sample_ext UniqueIdentifier]"
proof -
  obtain w where w: "serialize_nts_packet checksum_aead [1] (replicate 16 0) sample_packet = Ok w"
    "parse_nts_packet checksum_aead [1] w = Ok sample_packet"
    using sample_wire by blast
  obtain p where p: "parse_ntp_packet w = Ok p"
    using parse_ntp_of_serialised [OF checksum_aead_expands _ _ w(1)] by (auto simp: sample_packet_wf NONCE_LEN_def)
  from nts_parser_agrees_with_ntp_parser [OF this w(2)] p w(2) show ?thesis
    by (auto simp: sample_packet_def)
qed

end
