(* ===== verification/Ntp_Answer.thy ===== *)
theory Ntp_Answer
  imports Ntp_Server Protocol_Props
begin

text \<open>
  What \<^verbatim>\<open>response\<close> of \<^verbatim>\<open>src/src/ntp/server/server.rs\<close> computes on each kind of request, in closed
  form: the header of an answer, the kiss of death on the wire, the answer to an authenticated
  request, its size, and the run of the handler on a request a client with a cookie makes.
\<close>

section \<open>Building blocks\<close>

lemma has_extension_iff: "has_extension_in es k \<longleftrightarrow> extract_extension_in es k \<noteq> None"
  by (induction es) auto

lemma extract_extension_append:
  "extract_extension_in (es @ fs) k =
     (case extract_extension_in es k of Some e \<Rightarrow> Some e | None \<Rightarrow> extract_extension_in fs k)"
  by (induction es) auto

lemma extract_extension_set: "extract_extension_in es k = Some e \<Longrightarrow> e \<in> set es \<and> ext_type e = k"
  by (induction es) (auto split: if_splits)

text \<open>The clock readings that give a timestamp, and the timestamp they give.\<close>

definition clock_ok :: "systime \<Rightarrow> bool" where
  "clock_ok t \<longleftrightarrow> 0 \<le> t \<and> UNIX_OFFSET + secs_of t < 2 ^ 64"

definition timestamp_of :: "systime \<Rightarrow> u64" where
  "timestamp_of t = of_nat (((UNIX_OFFSET + secs_of t) mod 2 ^ 32) * 2 ^ 32 + ts_fraction (nanos_of t))"

lemma ntp_timestamp_clock: "clock_ok t \<Longrightarrow> ntp_timestamp t = Ok (timestamp_of t)"
  by (simp add: clock_ok_def timestamp_of_def ntp_timestamp_eq del: of_nat_add of_nat_mult)

text \<open>The header of the answer.\<close>

definition answer_header :: "ntp_packet_header \<Rightarrow> systime \<Rightarrow> systime \<Rightarrow> server_state \<Rightarrow> ntp_packet_header" where
  "answer_header q r t st =
     \<lparr>leap_indicator = ss_leap st, version = ss_version st, mode = Server, stratum = ss_stratum st,
      poll = ss_poll st, precision = ss_precision st, root_delay = ss_root_delay st,
      root_dispersion = fix_dispersion (ss_root_dispersion st) t (ss_taken st),
      reference_id = ss_refid st, reference_timestamp = ss_refstamp st,
      origin_timestamp = transmit_timestamp q,
      receive_timestamp = timestamp_of r, transmit_timestamp = timestamp_of t\<rparr>"

lemma create_header_Ok:
  assumes "clock_ok r" and "clock_ok t" and "\<not> lock_poisoned servstate"
  shows "create_header p r t servstate = Ok (answer_header (ntp_header p) r t (lock_val servstate))"
  using assms by (simp add: create_header_def rw_read_def ntp_timestamp_clock answer_header_def)

text \<open>A working measurement set-up.\<close>

definition measuring :: "ntp_env \<Rightarrow> ntp_world \<Rightarrow> string \<Rightarrow> bool" where
  "measuring env w ip \<longleftrightarrow>
     (\<exists>get. experiment_cfg env = Some get \<and> get ''meas_client_ip'' = Some ip) \<and>
     chan_set (server_ntp_s w) \<and> chan_open (server_ntp_s w) \<and>
     chan_set (server_nts_s w) \<and> chan_open (server_nts_s w)"

lemma measuring_ip: "measuring env w ip \<Longrightarrow> meas_client_ip msg (experiment_cfg env) = Ok ip"
  by (auto simp: measuring_def meas_client_ip_def)

text \<open>The part of \<^verbatim>\<open>response\<close> that plain and NTS requests share.\<close>

lemma response_common:
  assumes "parse_ntp_packet query = Ok p" and "mode (ntp_header p) = Client"
    and "clock_ok r" and "clock_ok t" and "\<not> lock_poisoned servstate" and "measuring env w ip"
  obtains ch where "chan_set ch" and "chan_open ch"
    and "\<And>A keys. response A env query r t keys servstate w =
      (let w' = w\<lparr>query_counter := query_counter w + 1, server_ntp_s := ch\<rparr>;
           h = answer_header (ntp_header p) r t (lock_val servstate)
       in if is_nts_packet p then respond_nts A env p query h ip keys w' else (w', Ok (serialize_header h)))"
proof -
  obtain ch where ch: "write_measurement (client_addr w) ip (ntp_elapsed env) (server_ntp_s w) =
      (Ok ch :: (channel, io_error) result)" "chan_set ch" "chan_open ch"
    using write_measurement_no_panic [of "server_ntp_s w"] assms(6) unfolding measuring_def by metis
  show thesis
    by (rule that [OF ch(2,3)])
      (use assms ch(1) in \<open>simp add: response_def create_header_Ok measuring_ip Let_def\<close>)
qed

lemma parse_header_only:
  "version h < 8 \<Longrightarrow> parse_ntp_packet (serialize_header h) = Ok \<lparr>ntp_header = h, exts = []\<rparr>"
  using parse_serialize_header' [of h] parse_extensions_concat [of "[]"]
  by (simp add: parse_ntp_packet_def slice_r_def)

text \<open>The kiss of death survives the wire.\<close>

lemma exts_kod_packet:
  "exts (kod_packet p) = (case extract_extension_in (exts p) UniqueIdentifier of Some e \<Rightarrow> [e] | None \<Rightarrow> [])"
  unfolding kod_packet_def ntp_packet.simps has_extension_def extract_extension_def has_extension_iff
  by (cases "extract_extension_in (exts p) UniqueIdentifier") simp_all

lemma kod_packet_wf:
  assumes "parse_ntp_packet query = Ok p"
  shows "list_all wf_ext (exts (kod_packet p))"
proof -
  obtain tl where "parse_extensions tl = Ok (exts p)"
    using assms by (auto simp: parse_ntp_packet_def result_simps)
  then have "list_all wf_ext (exts p)" by (rule parse_extensions_wf)
  then show ?thesis
    using extract_extension_set [of "exts p" UniqueIdentifier]
    by (auto simp: exts_kod_packet list_all_iff split: option.splits)
qed

lemma kod_packet_version: "version (ntp_header (kod_packet p)) < 8"
  by (simp add: kod_packet_def)

lemma kod_packet_wire:
  assumes "parse_ntp_packet query = Ok p"
  defines "data \<equiv> serialize_header (ntp_header (kod_packet p)) @ concat (map ext_bytes (exts (kod_packet p)))"
  shows "serialize_ntp_packet (kod_packet p) = Ok data" and "parse_ntp_packet data = Ok (kod_packet p)"
    and "length data = 48 + exts_size (exts (kod_packet p))"
  using kod_packet_wf [OF assms(1)]
  by (simp_all add: data_def serialize_ntp_packet_def serialize_extensions_wf parse_ntp_packet_def
      parse_serialize_header slice_r_def parse_extensions_concat kod_packet_version)

text \<open>The answer to an authenticated request.\<close>

definition cookie_ext :: "aead \<Rightarrow> ntp_env \<Rightarrow> nts_keys \<Rightarrow> key_rotator \<Rightarrow> nat \<Rightarrow> ntp_extension" where
  "cookie_ext A env keys rot i =
     \<lparr>ext_type = NTSCookie,
      contents = make_cookie A (cookie_nonce env i) keys (the (kr_get rot (latest_key_id rot))) (latest_key_id rot)\<rparr>"

definition big_placeholder :: "ntp_extension \<Rightarrow> bool" where
  "big_placeholder e \<longleftrightarrow> ext_type e = NTSCookiePlaceholder \<and> COOKIE_SIZE \<le> length (contents e)"

definition is_uid :: "ntp_extension \<Rightarrow> bool" where
  "is_uid e \<longleftrightarrow> ext_type e = UniqueIdentifier"

lemma fresh_cookie_Ok:
  assumes "\<not> lock_poisoned keys_lock" and "latest_key_id (lock_val keys_lock) \<in> dom (cache (lock_val keys_lock))"
  shows "fresh_cookie A env keys keys_lock i = Ok (cookie_ext A env keys (lock_val keys_lock) i)"
  using assms by (simp add: fresh_cookie_def rw_read_def latest_key_value_Ok cookie_ext_def)

lemma nts_response_loop_Ok:
  assumes "\<not> lock_poisoned keys_lock" and "latest_key_id (lock_val keys_lock) \<in> dom (cache (lock_val keys_lock))"
  shows "nts_response_loop A env keys keys_lock es auth enc =
    Ok (auth @ filter is_uid es,
        enc @ map (\<lambda>i. cookie_ext A env keys (lock_val keys_lock) (length enc + i))
                [0..<length (filter big_placeholder es)])"
proof (induction es arbitrary: auth enc)
  case (Cons e es)
  have upt: "map f [0..<Suc n] = f 0 # map (\<lambda>i. f (Suc i)) [0..<n]" for f :: "nat \<Rightarrow> ntp_extension" and n
    by (simp add: upt_conv_Cons map_Suc_upt [symmetric] o_def del: upt_Suc)
  show ?case
    by (cases "ext_type e")
      (auto simp: Cons.IH fresh_cookie_Ok [OF assms] is_uid_def big_placeholder_def upt simp del: upt_Suc)
qed simp


definition nts_answer ::
  "aead \<Rightarrow> ntp_env \<Rightarrow> nts_packet \<Rightarrow> ntp_packet_header \<Rightarrow> nts_keys \<Rightarrow> key_rotator \<Rightarrow> nts_packet" where
  "nts_answer A env p h keys rot =
     \<lparr>nts_header = h\<lparr>transmit_timestamp := timestamp_of (late_now env)\<rparr>,
      auth_exts = filter is_uid (auth_exts p),
      auth_enc_exts = map (cookie_ext A env keys rot) [0..<length (filter big_placeholder (auth_exts p)) + 1]\<rparr>"

lemma nts_response_Ok:
  assumes "\<not> lock_poisoned keys_lock" and "latest_key_id (lock_val keys_lock) \<in> dom (cache (lock_val keys_lock))"
    and "clock_ok (late_now env)"
  shows "nts_response A env p h keys keys_lock = Ok (nts_answer A env p h keys (lock_val keys_lock))"
  using assms
  by (simp add: nts_response_def nts_response_loop_Ok fresh_cookie_Ok ntp_timestamp_clock nts_answer_def)

lemma exts_size_Cons [simp]: "exts_size (e # es) = length (contents e) + 4 + exts_size es"
  by (simp add: exts_size_def)

lemma exts_size_kinds:
  "exts_size (filter is_uid es) + 104 * length (filter big_placeholder es) +
     exts_size (filter (\<lambda>e. ext_type e = NTSCookie) es) \<le> exts_size es"
  by (induction es) (auto simp: is_uid_def big_placeholder_def COOKIE_SIZE_def exts_size_def)

lemma exts_size_member: "e \<in> set es \<Longrightarrow> length (contents e) + 4 \<le> exts_size es"
  by (induction es) auto

lemma exts_size_cookies:
  assumes "\<And>i. length (contents (f i)) = 100"
  shows "exts_size (map f xs) = 104 * length xs"
  using assms by (induction xs) (auto simp: exts_size_def)

text \<open>The nonces drawn for the answer are 16 bytes long.\<close>

definition nonces_ok :: "ntp_env \<Rightarrow> bool" where
  "nonces_ok env \<longleftrightarrow> (\<forall>i. length (cookie_nonce env i) = 16) \<and> length (packet_nonce env) = NONCE_LEN"

lemma length_cookie_ext:
  assumes "aead_expands A" and "wf_keys keys" and "nonces_ok env"
  shows "length (contents (cookie_ext A env keys rot i)) = 100"
  using assms length_make_cookie [of A keys "cookie_nonce env i"]
  by (simp add: cookie_ext_def nonces_ok_def COOKIE_SIZE_def)

text \<open>The answer is never longer than the request: placeholders pay for the extra cookies.\<close>

lemma nts_answer_size:
  assumes "aead_expands A" and "wf_keys keys" and "nonces_ok env"
    and "extract_extension_in (auth_exts p) NTSCookie = Some c" and "length (contents c) = 100"
  shows "nts_wire_size (nts_answer A env p h keys rot) \<le> nts_wire_size p"
proof -
  let ?n = "length (filter big_placeholder (auth_exts p))"
  have enc: "exts_size (auth_enc_exts (nts_answer A env p h keys rot)) = 104 * (?n + 1)"
    using exts_size_cookies [of "cookie_ext A env keys rot" "[0..<?n + 1]"] length_cookie_ext [OF assms(1-3)]
    by (simp add: nts_answer_def)
  have "c \<in> set (filter (\<lambda>e. ext_type e = NTSCookie) (auth_exts p))"
    using extract_extension_set [OF assms(4)] by simp
  from exts_size_member [OF this] assms(5)
  have "104 \<le> exts_size (filter (\<lambda>e. ext_type e = NTSCookie) (auth_exts p))" by simp
  with exts_size_kinds [of "auth_exts p"]
  have auth: "exts_size (filter is_uid (auth_exts p)) + 104 * (?n + 1) \<le> exts_size (auth_exts p)" by simp
  have pad: "pad4 (104 * (?n + 1) + 16) = 0" by (simp add: pad4_def mod_simps)
  have auth': "auth_exts (nts_answer A env p h keys rot) = filter is_uid (auth_exts p)"
    by (simp add: nts_answer_def)
  show ?thesis
    unfolding nts_wire_size_def Let_def enc auth' pad using auth by simp
qed

lemma nts_answer_wf:
  assumes "aead_expands A" and "wf_keys keys" and "nonces_ok env"
    and "extract_extension_in (auth_exts p) NTSCookie = Some c" and "length (contents c) = 100"
    and "wf_nts_packet p" and "version h < 8"
  shows "wf_nts_packet (nts_answer A env p h keys rot)"
proof -
  have "wf_ext (cookie_ext A env keys rot i)" for i
    using length_cookie_ext [OF assms(1-3), of rot i] by (simp add: wf_ext_def cookie_ext_def)
  then show ?thesis
    using assms(6,7) nts_answer_size [OF assms(1-5), of h rot]
    by (auto simp: wf_nts_packet_def list_all_iff nts_answer_def is_uid_def)
qed


section \<open>Requests and answers\<close>

text \<open>
  A request a client in possession of a cookie for \<open>keys\<close> makes: its first cookie was made by
  the server under a key the rotator still has.
\<close>

definition request_for :: "aead \<Rightarrow> key_rotator \<Rightarrow> nts_keys \<Rightarrow> nts_packet \<Rightarrow> bool" where
  "request_for A rot keys p \<longleftrightarrow>
     wf_nts_packet p \<and> mode (nts_header p) = Client \<and>
     extract_extension_in (auth_exts p) UniqueIdentifier \<noteq> None \<and>
     (\<exists>n kid k. length n = 16 \<and> kr_get rot kid = Some k \<and>
        extract_extension_in (auth_exts p) NTSCookie =
          Some \<lparr>ext_type = NTSCookie, contents = make_cookie A n keys k kid\<rparr>)"

text \<open>A server that is up: clocks, locks, measurement set-up and latest key are in order.\<close>

definition serving ::
  "ntp_env \<Rightarrow> ntp_world \<Rightarrow> systime \<Rightarrow> systime \<Rightarrow> key_rotator rwlock \<Rightarrow> server_state rwlock \<Rightarrow> bool" where
  "serving env w r t keys_lock servstate \<longleftrightarrow>
     clock_ok r \<and> clock_ok t \<and> clock_ok (late_now env) \<and> nonces_ok env \<and> (\<exists>ip. measuring env w ip) \<and>
     \<not> lock_poisoned keys_lock \<and> \<not> lock_poisoned servstate \<and> ss_version (lock_val servstate) < 8 \<and>
     latest_key_id (lock_val keys_lock) \<in> dom (cache (lock_val keys_lock))"

lemma version_answer_header [simp]: "version (answer_header p r t st) = ss_version st"
  by (simp add: answer_header_def)

lemma process_nts_Ok:
  assumes A: "aead_correct A" "aead_expands A" and "wf_keys keys" and "nonces_ok env"
    and q: "parse_nts_packet A (c2s keys) query = Ok p"
    and lock: "\<not> lock_poisoned keys_lock" "latest_key_id (lock_val keys_lock) \<in> dom (cache (lock_val keys_lock))"
    and "clock_ok (late_now env)" and wf: "wf_nts_packet (nts_answer A env p h keys (lock_val keys_lock))"
  obtains data where "\<And>w. process_nts A env h keys keys_lock query w = (w, Ok data)"
    and "parse_nts_packet A (s2c keys) data = Ok (nts_answer A env p h keys (lock_val keys_lock))"
    and "length data = nts_wire_size (nts_answer A env p h keys (lock_val keys_lock))"
proof -
  have "length (packet_nonce env) = NONCE_LEN" using assms(4) by (simp add: nonces_ok_def)
  from parse_serialize_nts [OF A this wf, of "s2c keys"]
  obtain data where d: "serialize_nts_packet A (s2c keys) (packet_nonce env)
        (nts_answer A env p h keys (lock_val keys_lock)) = (Ok data :: (bytes, io_error) result)"
    "length data = nts_wire_size (nts_answer A env p h keys (lock_val keys_lock))"
    "parse_nts_packet A (s2c keys) data = Ok (nts_answer A env p h keys (lock_val keys_lock))"
    by blast
  show thesis
    by (rule that [OF _ d(3,2)]) (simp add: process_nts_def q nts_response_Ok lock assms(8) d(1))
qed

lemma respond_nts_process:
  assumes c: "extract_extension q NTSCookie = Some c" and k: "get_keyid (contents c) = Some kid"
    and "\<not> lock_poisoned keys_lock" and "kr_get (lock_val keys_lock) kid = Some key"
    and "eat_cookie A (contents c) key = Some keys"
    and p: "\<And>w. process_nts A env h keys keys_lock query w = (w, Ok data)"
    and ch: "chan_set (server_nts_s w)" "chan_open (server_nts_s w)"
  obtains ch where "respond_nts A env q query h ip keys_lock w =
    (w\<lparr>nts_counter := nts_counter w + 1, server_nts_s := ch\<rparr>, Ok data)"
proof -
  obtain ch where "write_measurement (client_addr w) ip (nts_elapsed env) (server_nts_s w) =
      (Ok ch :: (channel, io_error) result)"
    using write_measurement_no_panic [of "server_nts_s w"] ch by metis
  then show thesis
    using assms(1-6) by (intro that [of ch]) (simp add: respond_nts_def rw_read_def Let_def)
qed

lemma servingD:
  assumes "serving env w r t keys_lock servstate"
  shows "clock_ok r" "clock_ok t" "clock_ok (late_now env)" "nonces_ok env"
    "\<not> lock_poisoned keys_lock" "\<not> lock_poisoned servstate" "ss_version (lock_val servstate) < 8"
    "latest_key_id (lock_val keys_lock) \<in> dom (cache (lock_val keys_lock))"
    "\<exists>ip. measuring env w ip"
  using assms by (auto simp: serving_def)

text \<open>What the server sees of a request on the wire.\<close>

lemma request_on_wire:
  assumes A: "aead_correct A" "aead_expands A" and keys: "wf_keys keys"
    and req: "request_for A rot keys p" and nonce: "length nonce = NONCE_LEN"
    and query: "(serialize_nts_packet A (c2s keys) nonce p :: (bytes, io_error) result) = Ok query"
  obtains q c kid k where "parse_ntp_packet query = Ok q" and "ntp_header q = nts_header p"
    and "mode (ntp_header q) = Client" and "is_nts_packet q"
    and "parse_nts_packet A (c2s keys) query = Ok p" and "length query = nts_wire_size p"
    and "extract_extension q NTSCookie = Some c" and "extract_extension_in (auth_exts p) NTSCookie = Some c"
    and "get_keyid (contents c) = Some kid" and "kr_get rot kid = Some k"
    and "eat_cookie A (contents c) k = Some keys" and "length (contents c) = 100"
proof -
  have wf: "wf_nts_packet p" and client: "mode (nts_header p) = Client"
    and uid: "extract_extension_in (auth_exts p) UniqueIdentifier \<noteq> None"
    using req by (auto simp: request_for_def)
  obtain n kid k where n: "length n = 16" and k: "kr_get rot kid = Some k"
    and c: "extract_extension_in (auth_exts p) NTSCookie =
          Some \<lparr>ext_type = NTSCookie, contents = make_cookie A n keys k kid\<rparr>" (is "_ = Some ?c")
    using req by (auto simp: request_for_def)
  obtain body where q: "parse_ntp_packet query = Ok \<lparr>ntp_header = nts_header p, exts = auth_exts p @ [auth_ext body]\<rparr>"
    (is "_ = Ok ?q") using parse_ntp_of_serialised [OF A(2) nonce wf query] by blast
  have pq: "parse_nts_packet A (c2s keys) query = Ok p" "length query = nts_wire_size p"
    using parse_serialize_nts [OF A nonce wf, of "c2s keys", where 'a = io_error] query by auto
  have nts: "is_nts_packet ?q"
    using uid c by (auto simp: is_nts_packet_def has_extension_def has_extension_iff
        extract_extension_append auth_ext_def split: option.split)
  have cq: "extract_extension ?q NTSCookie = Some ?c"
    by (simp add: extract_extension_def extract_extension_append c)
  have "eat_cookie A (contents ?c) k = Some keys" "length (contents ?c) = 100"
    using eat_make_cookie [OF A keys n] length_make_cookie [OF A(2) keys n]
    by (simp_all add: COOKIE_SIZE_def)
  from that [OF q _ _ nts pq cq c _ k this] client show thesis by simp
qed

lemma request_answered:
  assumes A: "aead_correct A" "aead_expands A" and keys: "wf_keys keys"
    and req: "request_for A (lock_val keys_lock) keys p" and nonce: "length nonce = NONCE_LEN"
    and query: "(serialize_nts_packet A (c2s keys) nonce p :: (bytes, io_error) result) = Ok query"
    and serving: "serving env w r t keys_lock servstate"
  defines "ans \<equiv> nts_answer A env p
      (answer_header (nts_header p) r t (lock_val servstate)) keys (lock_val keys_lock)"
  obtains w' data where "response A env query r t keys_lock servstate w = (w', Ok data)"
    and "parse_nts_packet A (s2c keys) data = Ok ans"
    and "length data \<le> length query" and "nts_counter w' = nts_counter w + 1"
    and "query_counter w' = query_counter w + 1" and "kod_counter w' = kod_counter w"
proof -
  note up = servingD [OF serving]
  obtain q c kid k where q: "parse_ntp_packet query = Ok q" "ntp_header q = nts_header p"
      "mode (ntp_header q) = Client" "is_nts_packet q"
    and pq: "parse_nts_packet A (c2s keys) query = Ok p" "length query = nts_wire_size p"
    and cq: "extract_extension q NTSCookie = Some c" and c: "extract_extension_in (auth_exts p) NTSCookie = Some c"
    and ki: "get_keyid (contents c) = Some kid" and k: "kr_get (lock_val keys_lock) kid = Some k"
    and ec: "eat_cookie A (contents c) k = Some keys" and lc: "length (contents c) = 100"
    by (rule request_on_wire [OF A keys req nonce query])
  let ?h = "answer_header (ntp_header q) r t (lock_val servstate)"
  have ans: "ans = nts_answer A env p ?h keys (lock_val keys_lock)"
    by (simp add: ans_def q(2))
  have "wf_nts_packet p" using req by (simp add: request_for_def)
  then have wfa: "wf_nts_packet (nts_answer A env p ?h keys (lock_val keys_lock))"
    using up by (intro nts_answer_wf [OF A(2) keys _ c lc]) simp_all
  obtain data where d: "\<And>w. process_nts A env ?h keys keys_lock query w = (w, Ok data)"
    "parse_nts_packet A (s2c keys) data = Ok ans" "length data = nts_wire_size ans"
    unfolding ans using process_nts_Ok [OF A keys up(4) pq(1) up(5,8,3) wfa] by blast
  obtain ip where m: "measuring env w ip" using up(9) by blast
  obtain ch where ch: "response A env query r t keys_lock servstate w =
      (let w' = w\<lparr>query_counter := query_counter w + 1, server_ntp_s := ch\<rparr>
       in if is_nts_packet q then respond_nts A env q query ?h ip keys_lock w'
          else (w', Ok (serialize_header ?h)))"
    by (rule response_common [OF q(1,3) up(1,2,6) m]) (simp_all add: Let_def)
  let ?w = "w\<lparr>query_counter := query_counter w + 1, server_ntp_s := ch\<rparr>"
  have chan: "chan_set (server_nts_s ?w)" "chan_open (server_nts_s ?w)"
    using m by (auto simp: measuring_def)
  obtain ch' where "respond_nts A env q query ?h ip keys_lock ?w =
    (?w\<lparr>nts_counter := nts_counter ?w + 1, server_nts_s := ch'\<rparr>, Ok data)"
    by (rule respond_nts_process [OF cq ki up(5) k ec d(1) chan])
  with ch q(4) have r: "response A env query r t keys_lock servstate w =
    (?w\<lparr>nts_counter := nts_counter ?w + 1, server_nts_s := ch'\<rparr>, Ok data)" by (simp add: Let_def)
  have "length data \<le> length query"
    unfolding d(3) pq(2) ans by (rule nts_answer_size [OF A(2) keys up(4) c lc])
  from that [OF r d(2) this] show thesis by simp
qed

end
