(* ===== verification/Ntp_Server_Props.thy ===== *)
theory Ntp_Server_Props
  imports Ntp_Answer
begin

text \<open>
  The properties of the NTP server (\<^verbatim>\<open>src/src/ntp/server/server.rs\<close>): accuracy of its timestamps,
  its answers to plain and to authenticated requests, its refusals and their size, what keeps its
  threads alive and what ends them, and the refresh of its state from the upstream server. The
  witnesses run on the server \<open>up_world\<close>, \<open>up_keys\<close>, \<open>up_state\<close> defined first.
\<close>

section \<open>A running server\<close>

definition up_rotator :: key_rotator where
  "up_rotator = sample_rotator\<lparr>cache := [KeyId 7 \<mapsto> [5]], latest_key_id := KeyId 7\<rparr>"

definition up_env :: ntp_env where
  "up_env = \<lparr>experiment_cfg = Some (\<lambda>k. Some ''192.0.2.1''), ntp_elapsed = 10, nts_elapsed = 20,
     cookie_nonce = (\<lambda>i. replicate 16 3), packet_nonce = replicate 16 4, late_now = sample_now\<rparr>"

definition up_channel :: channel where
  "up_channel = \<lparr>chan_set = True, chan_open = True, chan_sent = []\<rparr>"

definition up_world :: ntp_world where
  "up_world = \<lparr>query_counter = 0, nts_counter = 0, kod_counter = 0, malformed_cookie_counter = 0,
     mangled_packet_counter = 0, missing_key_counter = 0, undecryptable_cookie_counter = 0,
     upstream_query_counter = 0, upstream_failure_counter = 0, client_addr = ''192.0.2.1:123'',
     server_ntp_s = up_channel, server_nts_s = up_channel\<rparr>"

abbreviation up_keys :: "key_rotator rwlock" where
  "up_keys \<equiv> new_lock up_rotator"

abbreviation up_state :: "server_state rwlock" where
  "up_state \<equiv> start_servstate False sample_now"

lemma up_serving: "serving up_env up_world sample_now sample_now up_keys up_state"
  by (simp add: serving_def clock_ok_def secs_of_def sample_now_def UNIX_OFFSET_def nonces_ok_def up_env_def
      NONCE_LEN_def measuring_def up_world_def up_channel_def new_lock_def start_servstate_def
      initial_servstate_def VERSION_def up_rotator_def)

definition up_cookie :: bytes where
  "up_cookie = make_cookie checksum_aead (replicate 16 9) sample_keys [5] (KeyId 7)"

definition up_request :: nts_packet where
  "up_request = \<lparr>nts_header = sample_header,
     auth_exts = [sample_ext UniqueIdentifier, \<lparr>ext_type = NTSCookie, contents = up_cookie\<rparr>],
     auth_enc_exts = []\<rparr>"

lemma length_up_cookie: "length up_cookie = 100"
  unfolding up_cookie_def
  by (subst length_make_cookie) (simp_all add: sample_keys_wf COOKIE_SIZE_def)

lemma up_request_wf: "wf_nts_packet up_request"
  by (simp add: wf_nts_packet_def up_request_def sample_header_def sample_ext_def VERSION_def
      wf_ext_def nts_wire_size_def exts_size_def pad4_def length_up_cookie)

lemma up_request_for: "request_for checksum_aead up_rotator sample_keys up_request"
  unfolding request_for_def
proof (intro conjI exI)
  show "extract_extension_in (auth_exts up_request) NTSCookie =
    Some \<lparr>ext_type = NTSCookie, contents = make_cookie checksum_aead (replicate 16 9) sample_keys [5] (KeyId 7)\<rparr>"
    by (simp add: up_request_def sample_ext_def up_cookie_def)
qed (simp_all add: up_request_wf up_rotator_def kr_get_def,
  simp_all add: up_request_def sample_ext_def sample_header_def)

lemma up_request_wire:
  "\<exists>query. (serialize_nts_packet checksum_aead (c2s sample_keys) (replicate 16 8) up_request
      :: (bytes, io_error) result) = Ok query"
  using parse_serialize_nts [of checksum_aead "replicate 16 8" up_request "c2s sample_keys"]
  by (auto simp: up_request_wf NONCE_LEN_def)

section \<open>Timestamps and dispersion\<close>

lemma seconds_accurate:
  assumes "u + s < (2 ^ 32 :: nat)" and "f < 2 ^ 32"
    and e: "\<bar>of_nat f - of_nat n * 2 ^ 32 / 10 ^ 9\<bar> \<le> (1 / 2 + 1 / 2 ^ 21 :: rat)"
  shows "\<bar>of_nat (unat (of_nat ((u + s) * 2 ^ 32 + f) :: u64)) / 2 ^ 32 -
     (of_nat u + (of_nat s * 10 ^ 9 + of_nat n) / 10 ^ 9)\<bar> < (6 / 10 / 2 ^ 32 :: rat)"
proof -
  have "(u + s + 1) * 2 ^ 32 \<le> 2 ^ 32 * 2 ^ 32" using assms(1) by (intro mult_le_mono1) simp
  then have "(u + s) * 2 ^ 32 + f < 2 ^ 64" using assms(2) by (simp add: algebra_simps)
  then have u: "unat (of_nat ((u + s) * 2 ^ 32 + f) :: u64) = (u + s) * 2 ^ 32 + f"
    by (simp add: unat_of_nat del: of_nat_add of_nat_mult)
  have d: "(of_nat ((u + s) * 2 ^ 32 + f)) / 2 ^ 32 - (of_nat u + (of_nat s * 10 ^ 9 + of_nat n) / 10 ^ 9) =
      (of_nat f - of_nat n * 2 ^ 32 / 10 ^ 9) / (2 ^ 32 :: rat)"
    by (simp add: field_simps)
  have "\<bar>of_nat f - of_nat n * 2 ^ 32 / 10 ^ 9\<bar> < (6 / 10 :: rat)"
    by (rule le_less_trans [OF e]) simp
  then show ?thesis unfolding u d abs_divide by (simp add: divide_strict_right_mono)
qed

lemma instant_split: "0 \<le> t \<Longrightarrow> (of_int t :: rat) = of_nat (secs_of t) * 10 ^ 9 + of_nat (nanos_of t)"
proof -
  assume "0 \<le> t"
  then have "t = int (secs_of t * 10 ^ 9 + nanos_of t)" by (simp add: secs_of_def nanos_of_def)
  from arg_cong [OF this, of of_int] have "(of_int t :: rat) = of_int (int (secs_of t * 10 ^ 9 + nanos_of t))" .
  also have "\<dots> = of_nat (secs_of t * 10 ^ 9 + nanos_of t)" by (rule of_int_of_nat_eq)
  finally show ?thesis by simp
qed

lemma era_clock_ok: "0 \<le> t \<Longrightarrow> UNIX_OFFSET + secs_of t < 2 ^ 32 \<Longrightarrow> clock_ok t"
  by (simp add: clock_ok_def)

lemma timestamp_of_error:
  assumes "0 \<le> t" and "UNIX_OFFSET + secs_of t < 2 ^ 32"
  shows "\<bar>of_nat (unat (timestamp_of t)) / 2 ^ 32 - (of_nat UNIX_OFFSET + of_int t / 10 ^ 9)\<bar> < (6 / 10 / 2 ^ 32 :: rat)"
proof -
  have "timestamp_of t = of_nat ((UNIX_OFFSET + secs_of t) * 2 ^ 32 + ts_fraction (nanos_of t))"
    unfolding timestamp_of_def mod_less [OF assms(2)] ..
  with seconds_accurate [OF assms(2) ts_fraction_less [OF nanos_of_less] ts_fraction_error [OF nanos_of_less], of t]
  show ?thesis unfolding instant_split [OF assms(1)] by (simp only:)
qed

text \<open>
  C22: \<^verbatim>\<open>ntp_timestamp\<close> is accurate: until the end of the first NTP era the timestamp of an instant
  of the system clock, read as seconds since 1900, differs from the instant by less than
  0.6 units of its last place, although the fraction is computed in floating point.
\<close>

theorem ntp_timestamp_accurate:
  assumes "0 \<le> t" and "UNIX_OFFSET + secs_of t < 2 ^ 32"
  shows "\<exists>ts. ntp_timestamp t = (Ok ts :: (u64, io_error) result) \<and>
    \<bar>of_nat (unat ts) / 2 ^ 32 - (of_nat UNIX_OFFSET + of_int t / 10 ^ 9)\<bar> < (6 / 10 / 2 ^ 32 :: rat)"
  using ntp_timestamp_clock [OF era_clock_ok [OF assms]] timestamp_of_error [OF assms] by blast

theorem ntp_timestamp_accurate_witness:
  "\<exists>ts. ntp_timestamp sample_now = (Ok ts :: (u64, io_error) result) \<and>
    \<bar>of_nat (unat ts) / 2 ^ 32 - (of_nat UNIX_OFFSET + of_int sample_now / 10 ^ 9)\<bar> < (6 / 10 / 2 ^ 32 :: rat)"
  by (rule ntp_timestamp_accurate) (simp_all add: sample_now_def secs_of_def UNIX_OFFSET_def)

text \<open>
  Timestamps follow the clock: within the first NTP era a later instant never gets a smaller
  timestamp.
\<close>

lemma ntp_timestamp_monotone:
  assumes "0 \<le> a" and "a \<le> b" and "UNIX_OFFSET + secs_of b < 2 ^ 32"
  shows "\<exists>ta tb. ntp_timestamp a = (Ok ta :: (u64, io_error) result) \<and>
           ntp_timestamp b = (Ok tb :: (u64, io_error) result) \<and> ta \<le> tb"
  using ntp_timestamp_mono [OF assms, where 'a = io_error] by metis

lemma ntp_timestamp_monotone_witness:
  "\<exists>ta tb. ntp_timestamp sample_now = (Ok ta :: (u64, io_error) result) \<and>
     ntp_timestamp (sample_now + 1) = (Ok tb :: (u64, io_error) result) \<and> ta \<le> tb"
  by (rule ntp_timestamp_monotone) (simp_all add: sample_now_def secs_of_def UNIX_OFFSET_def)

text \<open>
  C40: \<^verbatim>\<open>fix_dispersion\<close> misses its contract (the current dispersion to within one unit in the last
  place): a dispersion of \<open>k\<close> whole seconds, taken less than a second ago, comes out nearly
  doubled, because the fraction part is computed from the whole value and scaled by 65336.
\<close>

theorem fix_dispersion_doubles_seconds:
  assumes "taken \<le> now" and "now - taken < 10 ^ 9" and "0 < k" and "k < 2 ^ 15"
  shows "unat (fix_dispersion (of_nat (k * 65536)) now taken) = k * 65536 + k * 65336 \<and>
         unat (of_nat (k * 65536) :: u32) = k * 65536"
proof -
  have k: "unat (of_nat (k * 65536) :: u32) = k * 65536"
    using assms(4) by (simp add: unat_of_nat del: of_nat_mult)
  have "fix_dispersion (of_nat (k * 65536)) now taken = of_nat (k * 65536 + k * 65336)"
    unfolding fix_dispersion_fresh [OF assms(1,2)] k by (simp add: mult.assoc div_mult_self1_is_m del: of_nat_add of_nat_mult)
  moreover have "unat (of_nat (k * 65536 + k * 65336) :: u32) = k * 65536 + k * 65336"
    using assms(4) by (simp only: unat_of_nat) simp
  ultimately show ?thesis using k by (simp only:)
qed

theorem fix_dispersion_doubles_seconds_witness:
  "unat (fix_dispersion 0x10000 sample_now sample_now) = 0x1ff38"
  using fix_dispersion_doubles_seconds [of sample_now sample_now 1] by simp


section \<open>Answers\<close>

text \<open>
  C7: A client that holds a cookie gets the service it asks for: when a request made by
  \<^verbatim>\<open>serialize_nts_packet\<close> carries a cookie sealed under a key the rotator still has, the server
  answers with a packet that authenticates under the server-to-client key, whose header answers
  the request, that echoes the unique identifiers, and whose encrypted part holds one fresh cookie
  plus one for every large enough placeholder. The answer is never longer than the request.
\<close>

theorem nts_request_answered:
  assumes "aead_correct A" and "aead_expands A" and "wf_keys keys"
    and "request_for A (lock_val keys_lock) keys p" and "length nonce = NONCE_LEN"
    and "(serialize_nts_packet A (c2s keys) nonce p :: (bytes, io_error) result) = Ok query"
    and "serving env w r t keys_lock servstate"
  shows "\<exists>w' data.
    response A env query r t keys_lock servstate w = (w', Ok data) \<and>
    parse_nts_packet A (s2c keys) data =
      Ok (nts_answer A env p (answer_header (nts_header p) r t (lock_val servstate)) keys (lock_val keys_lock)) \<and>
    length data \<le> length query \<and> nts_counter w' = nts_counter w + 1 \<and> kod_counter w' = kod_counter w"
  using request_answered [OF assms] by metis

theorem nts_request_answered_witness:
  "\<exists>query w' data. response checksum_aead up_env query sample_now sample_now up_keys up_state up_world =
     (w', Ok data) \<and> length data \<le> length query"
proof -
  obtain query where "(serialize_nts_packet checksum_aead (c2s sample_keys) (replicate 16 8) up_request
      :: (bytes, io_error) result) = Ok query" using up_request_wire by blast
  from nts_request_answered [OF checksum_aead_correct checksum_aead_expands sample_keys_wf _ _ this up_serving]
  show ?thesis using up_request_for by (auto simp: NONCE_LEN_def new_lock_def)
qed

lemma nts_answer_cookies:
  "auth_enc_exts (nts_answer A env p h keys rot) \<noteq> [] \<and>
   list_all (\<lambda>e. ext_type e = NTSCookie) (auth_enc_exts (nts_answer A env p h keys rot))"
  by (simp add: nts_answer_def cookie_ext_def list_all_iff)

lemma cookie_of_answer:
  assumes "serving env w r t keys_lock servstate"
    and "nts_response A env p h keys keys_lock = (Ok ans :: (nts_packet, io_error) result)"
    and "c \<in> set (auth_enc_exts ans)"
  obtains i k where "kr_get (lock_val keys_lock) (latest_key_id (lock_val keys_lock)) = Some k"
    and "c = \<lparr>ext_type = NTSCookie,
              contents = make_cookie A (cookie_nonce env i) keys k (latest_key_id (lock_val keys_lock))\<rparr>"
proof -
  note up = servingD [OF assms(1)]
  have "ans = nts_answer A env p h keys (lock_val keys_lock)"
    using nts_response_Ok [OF up(5,8,3), of A p h keys, where 'a = io_error] assms(2) by simp
  then obtain i where "c = cookie_ext A env keys (lock_val keys_lock) i"
    using assms(3) by (auto simp: nts_answer_def)
  moreover obtain k where "kr_get (lock_val keys_lock) (latest_key_id (lock_val keys_lock)) = Some k"
    using up(8) by (auto simp: kr_get_def)
  ultimately show thesis using that [of k i] by (simp add: cookie_ext_def)
qed

text \<open>
  C8: An answer renews the client's credit: every cookie the server puts into an answer is good for a next
  request with the same session keys. A request that carries it is answered, again with at
  least one cookie, by every server that is up and has the key that was the latest one when the cookie was made.
\<close>

theorem nts_answer_renews:
  assumes A: "aead_correct A" "aead_expands A" and keys: "wf_keys keys"
    and first: "serving env w r t keys_lock servstate"
      "nts_response A env p h keys keys_lock = (Ok ans :: (nts_packet, io_error) result)" "c \<in> set (auth_enc_exts ans)"
    and request: "wf_nts_packet p'" "mode (nts_header p') = Client"
      "extract_extension_in (auth_exts p') UniqueIdentifier \<noteq> None"
      "extract_extension_in (auth_exts p') NTSCookie = Some c"
      "length nonce = NONCE_LEN" "serialize_nts_packet A (c2s keys) nonce p' = (Ok query :: (bytes, io_error) result)"
    and second: "serving env' w' r' t' keys_lock' servstate'"
      "kr_get (lock_val keys_lock') (latest_key_id (lock_val keys_lock)) =
       kr_get (lock_val keys_lock) (latest_key_id (lock_val keys_lock))"
  shows "\<exists>w'' data ans'. response A env' query r' t' keys_lock' servstate' w' = (w'', Ok data) \<and>
     parse_nts_packet A (s2c keys) data = Ok ans' \<and> auth_enc_exts ans' \<noteq> [] \<and>
     list_all (\<lambda>e. ext_type e = NTSCookie) (auth_enc_exts ans')"
proof -
  obtain i k where k: "kr_get (lock_val keys_lock) (latest_key_id (lock_val keys_lock)) = Some k"
    and c: "c = \<lparr>ext_type = NTSCookie,
              contents = make_cookie A (cookie_nonce env i) keys k (latest_key_id (lock_val keys_lock))\<rparr>"
    by (rule cookie_of_answer [OF first])
  have "length (cookie_nonce env i) = 16" using servingD(4) [OF first(1)] by (simp add: nonces_ok_def)
  then have req: "request_for A (lock_val keys_lock') keys p'"
    using request(1-4) second(2) k c by (auto simp: request_for_def)
  show ?thesis
    using request_answered [OF A keys req request(5,6) second(1)] by (metis nts_answer_cookies)
qed

lemma renewed_request:
  obtains ans c p' query where
    "nts_response checksum_aead up_env sample_packet sample_header sample_keys up_keys = (Ok ans :: (nts_packet, io_error) result)"
    and "c \<in> set (auth_enc_exts ans)" and "wf_nts_packet p'" and "mode (nts_header p') = Client"
    and "extract_extension_in (auth_exts p') UniqueIdentifier \<noteq> None"
    and "extract_extension_in (auth_exts p') NTSCookie = Some c"
    and "serialize_nts_packet checksum_aead (c2s sample_keys) (replicate 16 8) p' = (Ok query :: (bytes, io_error) result)"
proof -
  note up = servingD [OF up_serving]
  let ?ans = "nts_answer checksum_aead up_env sample_packet sample_header sample_keys (lock_val up_keys)"
  have a: "nts_response checksum_aead up_env sample_packet sample_header sample_keys up_keys = (Ok ?ans :: (nts_packet, io_error) result)"
    by (rule nts_response_Ok [OF up(5,8,3)])
  let ?c = "cookie_ext checksum_aead up_env sample_keys (lock_val up_keys) 0"
  let ?p = "\<lparr>nts_header = sample_header, auth_exts = [sample_ext UniqueIdentifier, ?c], auth_enc_exts = []\<rparr>"
  have l: "length (contents ?c) = 100"
    by (rule length_cookie_ext [OF checksum_aead_expands sample_keys_wf up(4)])
  have t: "ext_type ?c = NTSCookie" by (simp add: cookie_ext_def)
  have wf: "wf_nts_packet ?p"
    by (simp add: wf_nts_packet_def sample_header_def sample_ext_def VERSION_def
        wf_ext_def nts_wire_size_def exts_size_def pad4_def l t)
  have n: "length (replicate 16 8 :: bytes) = NONCE_LEN" by (simp add: NONCE_LEN_def)
  obtain query where q: "serialize_nts_packet checksum_aead (c2s sample_keys) (replicate 16 8) ?p = (Ok query :: (bytes, io_error) result)"
    using parse_serialize_nts [OF checksum_aead_correct checksum_aead_expands n wf] by metis
  have c: "?c \<in> set (auth_enc_exts ?ans)" by (auto simp: nts_answer_def simp del: upt_Suc)
  show thesis
    by (rule that [OF a c wf _ _ _ q]) (simp_all add: sample_header_def sample_ext_def t)
qed

theorem nts_answer_renews_witness:
  "\<exists>query w'' data ans'. response checksum_aead up_env query sample_now sample_now up_keys up_state up_world = (w'', Ok data) \<and>
     parse_nts_packet checksum_aead (s2c sample_keys) data = Ok ans' \<and> auth_enc_exts ans' \<noteq> [] \<and>
     list_all (\<lambda>e. ext_type e = NTSCookie) (auth_enc_exts ans')"
proof -
  obtain ans c p' query where
    a: "nts_response checksum_aead up_env sample_packet sample_header sample_keys up_keys = (Ok ans :: (nts_packet, io_error) result)"
      "c \<in> set (auth_enc_exts ans)"
    and p: "wf_nts_packet p'" "mode (nts_header p') = Client" "extract_extension_in (auth_exts p') UniqueIdentifier \<noteq> None"
      "extract_extension_in (auth_exts p') NTSCookie = Some c"
    and q: "serialize_nts_packet checksum_aead (c2s sample_keys) (replicate 16 8) p' = (Ok query :: (bytes, io_error) result)"
    by (rule renewed_request)
  have n: "length (replicate 16 8 :: bytes) = NONCE_LEN" by (simp add: NONCE_LEN_def)
  from nts_answer_renews [OF checksum_aead_correct checksum_aead_expands sample_keys_wf up_serving a p n q up_serving refl]
  show ?thesis by blast
qed

text \<open>
  C23: Any other client request that parses and is not an NTS packet gets the 48 byte header of the
  server state, with the transmit timestamp of the request as its origin, and this answer is no
  longer than the request.
\<close>

theorem plain_request_answered:
  assumes "parse_ntp_packet query = Ok p" and "mode (ntp_header p) = Client" and "\<not> is_nts_packet p"
    and "serving env w r t keys_lock servstate"
  shows "\<exists>w' data. response A env query r t keys_lock servstate w = (w', Ok data) \<and>
    parse_ntp_packet data = Ok \<lparr>ntp_header = answer_header (ntp_header p) r t (lock_val servstate), exts = []\<rparr> \<and>
    length data \<le> length query \<and> query_counter w' = query_counter w + 1 \<and> nts_counter w' = nts_counter w"
proof -
  note up = servingD [OF assms(4)]
  obtain ip where m: "measuring env w ip" using up(9) by blast
  obtain ch where ch: "response A env query r t keys_lock servstate w =
      (w\<lparr>query_counter := query_counter w + 1, server_ntp_s := ch\<rparr>,
       Ok (serialize_header (answer_header (ntp_header p) r t (lock_val servstate))))"
    by (rule response_common [OF assms(1,2) up(1,2,6) m]) (simp add: Let_def assms(3))
  have "48 \<le> length query"
    using assms(1) parse_packet_header_Ok_length by (auto simp: parse_ntp_packet_def result_simps)
  with up(7) ch show ?thesis by (auto simp: parse_header_only)
qed

theorem plain_request_answered_witness:
  "\<exists>w' data. response checksum_aead up_env (serialize_header sample_header) sample_now sample_now
     up_keys up_state up_world = (w', Ok data) \<and> length data \<le> 48"
  using plain_request_answered [OF parse_header_only _ _ up_serving, of sample_header checksum_aead]
  by (auto simp: sample_header_def VERSION_def is_nts_packet_def has_extension_def)

section \<open>Refusals\<close>

text \<open>The keys the cookie of a request gives under the keys of the rotator.\<close>

definition keys_of_request :: "aead \<Rightarrow> key_rotator \<Rightarrow> ntp_packet \<Rightarrow> nts_keys option" where
  "keys_of_request A rot p =
     (case extract_extension p NTSCookie of None \<Rightarrow> None
      | Some c \<Rightarrow> (case get_keyid (contents c) of None \<Rightarrow> None
         | Some kid \<Rightarrow> (case kr_get rot kid of None \<Rightarrow> None
            | Some k \<Rightarrow> eat_cookie A (contents c) k)))"

text \<open>
  How the counters of the server change when a request with the cookie \<open>c\<close> is refused: besides the kiss of
  death, exactly the counter of the step at which the cookie failed, if it was the cookie that did.
\<close>

definition refusal_counted :: "aead \<Rightarrow> key_rotator \<Rightarrow> bytes \<Rightarrow> ntp_world \<Rightarrow> ntp_world \<Rightarrow> bool" where
  "refusal_counted A rot c w w' \<longleftrightarrow>
     nts_counter w' = nts_counter w + 1 \<and> kod_counter w' = kod_counter w + 1 \<and>
     malformed_cookie_counter w' = malformed_cookie_counter w + of_bool (get_keyid c = None) \<and>
     missing_key_counter w' = missing_key_counter w + of_bool (\<exists>kid. get_keyid c = Some kid \<and> kr_get rot kid = None) \<and>
     undecryptable_cookie_counter w' = undecryptable_cookie_counter w +
       of_bool (\<exists>kid k. get_keyid c = Some kid \<and> kr_get rot kid = Some k \<and> eat_cookie A c k = None) \<and>
     mangled_packet_counter w' = mangled_packet_counter w \<and> query_counter w' = query_counter w"

lemma nts_cookie: "is_nts_packet p \<Longrightarrow> \<exists>c. extract_extension p NTSCookie = Some c"
  by (auto simp: is_nts_packet_def has_extension_def extract_extension_def has_extension_iff)

lemma respond_nts_refused:
  assumes p: "parse_ntp_packet query = Ok p" and c: "extract_extension p NTSCookie = Some c" and "\<not> lock_poisoned keys_lock"
    and "keys_of_request A (lock_val keys_lock) p = None"
  shows "\<exists>w' data. respond_nts A env p query h ip keys_lock w = (w', Ok data) \<and>
     parse_ntp_packet data = Ok (kod_packet p) \<and> length data = 48 + exts_size (exts (kod_packet p)) \<and>
     refusal_counted A (lock_val keys_lock) (contents c) w w'"
  using assms(3,4) c
  by (auto simp: respond_nts_def Let_def keys_of_request_def rw_read_def send_kiss_of_death_def
      kiss_of_death_def kod_packet_wire [OF p] refusal_counted_def split: option.splits)

lemma respond_nts_forged:
  assumes p: "parse_ntp_packet query = Ok p" and c: "extract_extension p NTSCookie = Some c" and "\<not> lock_poisoned keys_lock"
    and "keys_of_request A (lock_val keys_lock) p = Some keys"
    and "parse_nts_packet A (c2s keys) query = Err e"
    and "chan_set (server_nts_s w)" and "chan_open (server_nts_s w)"
  shows "\<exists>w' data. respond_nts A env p query h ip keys_lock w = (w', Ok data) \<and>
     parse_ntp_packet data = Ok (kod_packet p) \<and> length data = 48 + exts_size (exts (kod_packet p)) \<and>
     refusal_counted A (lock_val keys_lock) (contents c) w w'"
proof -
  obtain ch where "write_measurement (client_addr w) ip (nts_elapsed env) (server_nts_s w) =
      (Ok ch :: (channel, io_error) result)"
    using write_measurement_no_panic [of "server_nts_s w"] assms(6,7) by metis
  then show ?thesis
    using assms(3,4,5) c
    by (auto simp: respond_nts_def Let_def keys_of_request_def rw_read_def process_nts_def
        kiss_of_death_def p kod_packet_wire [OF p] refusal_counted_def split: option.splits)
qed


text \<open>The two ways a parsed request is refused: no usable cookie, or a failed authentication.\<close>

definition refused :: "aead \<Rightarrow> key_rotator \<Rightarrow> ntp_packet \<Rightarrow> bytes \<Rightarrow> bool" where
  "refused A rot p query \<longleftrightarrow>
     (case keys_of_request A rot p of None \<Rightarrow> True
      | Some keys \<Rightarrow> (case parse_nts_packet A (c2s keys) query of Err _ \<Rightarrow> True | _ \<Rightarrow> False))"

lemma refused_response:
  assumes "parse_ntp_packet query = Ok p" and "mode (ntp_header p) = Client" and "is_nts_packet p"
    and c: "extract_extension p NTSCookie = Some c"
    and "serving env w r t keys_lock servstate" and "refused A (lock_val keys_lock) p query"
  shows "\<exists>w' data. response A env query r t keys_lock servstate w = (w', Ok data) \<and>
     parse_ntp_packet data = Ok (kod_packet p) \<and> length data = 48 + exts_size (exts (kod_packet p)) \<and>
     refusal_counted A (lock_val keys_lock) (contents c) (w\<lparr>query_counter := query_counter w + 1\<rparr>) w'"
proof -
  note up = servingD [OF assms(5)]
  obtain ip where m: "measuring env w ip" using up(9) by blast
  obtain ch where ch: "response A env query r t keys_lock servstate w =
      respond_nts A env p query (answer_header (ntp_header p) r t (lock_val servstate)) ip keys_lock
        (w\<lparr>query_counter := query_counter w + 1, server_ntp_s := ch\<rparr>)" (is "_ = respond_nts A env p query ?h ip keys_lock ?w")
    by (rule response_common [OF assms(1,2) up(1,2,6) m]) (simp add: Let_def assms(3))
  have chan: "chan_set (server_nts_s ?w)" "chan_open (server_nts_s ?w)" using m by (auto simp: measuring_def)
  have rw: "refusal_counted A rot cc ?w w' \<longleftrightarrow> refusal_counted A rot cc (w\<lparr>query_counter := query_counter w + 1\<rparr>) w'" for rot cc w'
    by (simp add: refusal_counted_def)
  show ?thesis
  proof (cases "keys_of_request A (lock_val keys_lock) p")
    case None
    from respond_nts_refused [OF assms(1) c up(5) None, of env ?h ip ?w] show ?thesis
      unfolding ch rw .
  next
    case (Some keys)
    then obtain e where "parse_nts_packet A (c2s keys) query = Err e"
      using assms(6) by (auto simp: refused_def split: result.splits)
    from respond_nts_forged [OF assms(1) c up(5) Some this chan, of env ?h ip] show ?thesis
      unfolding ch rw .
  qed
qed

lemma exts_kod_first:
  "exts (kod_packet p) = take 1 (filter (\<lambda>e. ext_type e = UniqueIdentifier) (exts p))"
proof -
  have "(case extract_extension_in es k of Some e \<Rightarrow> [e] | None \<Rightarrow> []) = take 1 (filter (\<lambda>e. ext_type e = k) es)" for es k
    by (induction es) auto
  then show ?thesis by (simp add: exts_kod_packet)
qed

text \<open>
  C24: A refused NTS request is answered with a kiss of death: when the cookie is malformed, names
  a key the rotator does not have or does not open, or when the packet fails to authenticate under
  the keys of the cookie, the answer parses as the unauthenticated NTSN packet (stratum 0,
  reference id NTSN, all times zero) that echoes the transmit timestamp of the request as its origin and has the first unique identifier of the
  request as its only extension. The counters of queries, NTS requests and kisses of death go up by one, of the three
  counters for cookies exactly the one of the step at which the cookie failed, and none of them when it was the packet that failed.
\<close>

theorem refused_request_kiss_of_death:
  assumes "parse_ntp_packet query = Ok p" and "mode (ntp_header p) = Client" and "is_nts_packet p"
    and "extract_extension p NTSCookie = Some c"
    and "serving env w r t keys_lock servstate" and "refused A (lock_val keys_lock) p query"
  shows "\<exists>w' data. response A env query r t keys_lock servstate w = (w', Ok data) \<and>
     parse_ntp_packet data = Ok
       \<lparr>ntp_header =
          \<lparr>leap_indicator = LeapUnknown, version = 4, mode = Server, stratum = 0, poll = 0, precision = 0,
           root_delay = 0, root_dispersion = 0, reference_id = 0x4e54534e, reference_timestamp = 0,
           origin_timestamp = transmit_timestamp (ntp_header p), receive_timestamp = 0, transmit_timestamp = 0\<rparr>,
        exts = take 1 (filter (\<lambda>e. ext_type e = UniqueIdentifier) (exts p))\<rparr> \<and>
     query_counter w' = query_counter w + 1 \<and> nts_counter w' = nts_counter w + 1 \<and> kod_counter w' = kod_counter w + 1 \<and>
     malformed_cookie_counter w' = malformed_cookie_counter w + of_bool (get_keyid (contents c) = None) \<and>
     missing_key_counter w' = missing_key_counter w +
       of_bool (\<exists>kid. get_keyid (contents c) = Some kid \<and> kr_get (lock_val keys_lock) kid = None) \<and>
     undecryptable_cookie_counter w' = undecryptable_cookie_counter w +
       of_bool (\<exists>kid k. get_keyid (contents c) = Some kid \<and> kr_get (lock_val keys_lock) kid = Some k \<and>
         eat_cookie A (contents c) k = None)"
proof -
  obtain w' data where r: "response A env query r t keys_lock servstate w = (w', Ok data)"
      "parse_ntp_packet data = Ok (kod_packet p)"
      "refusal_counted A (lock_val keys_lock) (contents c) (w\<lparr>query_counter := query_counter w + 1\<rparr>) w'"
    using refused_response [OF assms] by blast
  have k: "kod_packet p =
       \<lparr>ntp_header =
          \<lparr>leap_indicator = LeapUnknown, version = 4, mode = Server, stratum = 0, poll = 0, precision = 0,
           root_delay = 0, root_dispersion = 0, reference_id = 0x4e54534e, reference_timestamp = 0,
           origin_timestamp = transmit_timestamp (ntp_header p), receive_timestamp = 0, transmit_timestamp = 0\<rparr>,
        exts = take 1 (filter (\<lambda>e. ext_type e = UniqueIdentifier) (exts p))\<rparr>"
    unfolding exts_kod_first [symmetric] by (simp add: kod_packet_def)
  show ?thesis
    by (intro exI [of _ w'] exI [of _ data])
      (use r(1) r(2) [unfolded k] r(3) [unfolded refusal_counted_def] in simp)
qed

text \<open>A request with a cookie for a key the rotator does not have, and an empty authenticator.\<close>

definition empty_ext :: "ntp_extension_type \<Rightarrow> ntp_extension" where
  "empty_ext t = \<lparr>ext_type = t, contents = []\<rparr>"

definition bad_packet :: ntp_packet where
  "bad_packet = \<lparr>ntp_header = sample_header,
     exts = [\<lparr>ext_type = NTSCookie, contents = u32_to_be 1\<rparr>, empty_ext NTSAuthenticator, sample_ext UniqueIdentifier]\<rparr>"

lemma bad_packet_wire:
  "parse_ntp_packet (serialize_header sample_header @ concat (map ext_bytes (exts bad_packet))) = Ok bad_packet"
proof -
  have "list_all wf_ext (exts bad_packet)"
    by (simp add: bad_packet_def empty_ext_def sample_ext_def wf_ext_def)
  from parse_extensions_concat [OF this] show ?thesis
    by (simp add: parse_ntp_packet_def parse_serialize_header slice_r_def sample_header_def VERSION_def)
      (simp add: bad_packet_def sample_header_def VERSION_def)
qed

lemma bad_packet_cookie:
  "extract_extension bad_packet NTSCookie = Some \<lparr>ext_type = NTSCookie, contents = u32_to_be 1\<rparr>"
  "get_keyid (u32_to_be 1) = Some (KeyId 1)" "kr_get up_rotator (KeyId 1) = None"
  by (simp_all add: extract_extension_def bad_packet_def get_keyid_def key_id_from_be_bytes_def kr_get_def up_rotator_def)

theorem refused_request_kiss_of_death_witness:
  "\<exists>w' data. response checksum_aead up_env
       (serialize_header sample_header @ concat (map ext_bytes (exts bad_packet))) sample_now sample_now
       up_keys up_state up_world = (w', Ok data) \<and>
     kod_counter w' = 1 \<and> missing_key_counter w' = 1 \<and> malformed_cookie_counter w' = 0 \<and> undecryptable_cookie_counter w' = 0 \<and>
     (\<exists>q. parse_ntp_packet data = Ok q \<and> exts q = [sample_ext UniqueIdentifier] \<and> reference_id (ntp_header q) = 0x4e54534e)"
proof -
  have "keys_of_request checksum_aead up_rotator bad_packet = None"
    using bad_packet_cookie by (simp add: keys_of_request_def)
  then have f: "refused checksum_aead (lock_val up_keys) bad_packet q" for q by (simp add: refused_def new_lock_def)
  have b: "mode (ntp_header bad_packet) = Client" "is_nts_packet bad_packet"
    "filter (\<lambda>e. ext_type e = UniqueIdentifier) (exts bad_packet) = [sample_ext UniqueIdentifier]"
    by (simp_all add: bad_packet_def sample_header_def is_nts_packet_def has_extension_def empty_ext_def sample_ext_def)
  have k: "kr_get (lock_val up_keys) (KeyId 1) = None" using bad_packet_cookie(3) by (simp add: new_lock_def)
  have z: "kod_counter up_world = 0" "missing_key_counter up_world = 0" "malformed_cookie_counter up_world = 0"
    "undecryptable_cookie_counter up_world = 0" by (simp_all add: up_world_def)
  from refused_request_kiss_of_death [OF bad_packet_wire b(1,2) bad_packet_cookie(1) up_serving f] show ?thesis
    by (auto simp: b(3) bad_packet_cookie(2) k z)
qed

text \<open>
  C4: The server answers an NTS request with cookies only when it authenticated it: an answer other
  than a kiss of death means that the cookie opened under a key of the rotator and the packet
  authenticates under the client-to-server key of that cookie.
\<close>

theorem nts_answer_only_authenticated:
  assumes "parse_ntp_packet query = Ok p" and "is_nts_packet p"
    and "response A env query r t keys_lock servstate w = (w', Ok data)" and "kod_counter w' = kod_counter w"
  shows "\<exists>keys q. keys_of_request A (lock_val keys_lock) p = Some keys \<and>
           parse_nts_packet A (c2s keys) query = Ok q"
  using assms
  by (auto simp: response_def Let_def respond_nts_def keys_of_request_def process_nts_def send_kiss_of_death_def
      kiss_of_death_def rw_read_def result_simps split: result.splits option.splits if_splits prod.splits)

theorem nts_answer_only_authenticated_witness:
  "\<exists>query p keys q. parse_ntp_packet query = Ok p \<and>
     keys_of_request checksum_aead up_rotator p = Some keys \<and> parse_nts_packet checksum_aead (c2s keys) query = Ok q"
proof -
  obtain query where q: "(serialize_nts_packet checksum_aead (c2s sample_keys) (replicate 16 8) up_request
      :: (bytes, io_error) result) = Ok query" using up_request_wire by blast
  have n: "length (replicate 16 8 :: bytes) = NONCE_LEN" by (simp add: NONCE_LEN_def)
  have rf: "request_for checksum_aead (lock_val up_keys) sample_keys up_request"
    using up_request_for by (simp add: new_lock_def)
  obtain w' data where r: "response checksum_aead up_env query sample_now sample_now up_keys up_state up_world = (w', Ok data)"
      "kod_counter w' = kod_counter up_world"
    by (rule request_answered [OF checksum_aead_correct checksum_aead_expands sample_keys_wf rf n q up_serving])
  obtain p where p: "parse_ntp_packet query = Ok p" "is_nts_packet p"
    by (rule request_on_wire [OF checksum_aead_correct checksum_aead_expands sample_keys_wf rf n q])
  from nts_answer_only_authenticated [OF p r] p(1) show ?thesis by (auto simp: new_lock_def)
qed

text \<open>A header and three extension headers, of which the last declares \<open>l\<close> bytes that are not there.\<close>

definition amplifier :: "u16 \<Rightarrow> bytes" where
  "amplifier l = serialize_header sample_header @ concat (map ext_bytes [empty_ext NTSCookie, empty_ext NTSAuthenticator]) @
     u16_to_be EXT_TYPE_UNIQUE_IDENTIFIER @ u16_to_be l"

definition amplified :: "u16 \<Rightarrow> ntp_packet" where
  "amplified l = \<lparr>ntp_header = sample_header,
     exts = [empty_ext NTSCookie, empty_ext NTSAuthenticator,
             \<lparr>ext_type = UniqueIdentifier, contents = replicate (unat (l - 4)) 0\<rparr>]\<rparr>"

lemma parse_header_of_ext:
  assumes "rest c = u16_to_be ety @ u16_to_be l" and "l mod 4 = 0" and "\<not> l < 4"
  shows "parse_extensions_loop c acc =
    Ok (acc @ [\<lparr>ext_type = type_from_wire ety, contents = replicate (unat (l - 4)) 0\<rparr>])"
proof -
  have r: "remaining c = 4" using assms(1) length_rest [of c] by simp
  let ?c1 = "c\<lparr>cpos := cpos c + 2\<rparr>" and ?c2 = "c\<lparr>cpos := cpos c + 4\<rparr>"
  have r1: "rest ?c1 = u16_to_be l" "remaining ?c1 = 2" "rest ?c2 = []" "remaining ?c2 = 0"
    using assms(1) r by (simp_all del: add_2_eq_Suc')
  have "read_u16 c = (Ok (ety, ?c1) :: (u16 \<times> cursor, io_error) result)"
       "read_u16 ?c1 = (Ok (l, ?c2) :: (u16 \<times> cursor, io_error) result)"
    using assms(1) r r1 by (simp_all add: reads_Ok)
  moreover have "cursor_read (unat (l - 4)) ?c2 = (replicate (unat (l - 4)) 0, ?c2)"
    using r1 by (simp add: cursor_read_def)
  moreover have "4 \<le> length (cbuf c) - cpos c" using r by (simp add: remaining_def)
  ultimately show ?thesis
    using assms(2,3) r1(4)
    by (subst parse_extensions_loop.simps) (simp add: parse_extensions_loop.simps [of ?c2] remaining_def)
qed


lemma parse_amplifier:
  assumes "l mod 4 = 0" and "\<not> l < 4"
  shows "parse_ntp_packet (amplifier l) = Ok (amplified l)"
proof -
  let ?u = "u16_to_be EXT_TYPE_UNIQUE_IDENTIFIER @ u16_to_be l"
  let ?e = "empty_ext NTSCookie" and ?f = "empty_ext NTSAuthenticator"
  let ?c = "new_cursor (ext_bytes ?e @ ext_bytes ?f @ ?u)"
  have wf: "wf_ext ?e" "wf_ext ?f" by (simp_all add: wf_ext_def empty_ext_def)
  let ?d = "?c\<lparr>cpos := cpos ?c + length (ext_bytes ?e)\<rparr>"
  let ?g = "?d\<lparr>cpos := cpos ?d + length (ext_bytes ?f)\<rparr>"
  have rd: "rest ?d = ext_bytes ?f @ ?u" by (simp add: rest_def new_cursor_def)
  have rg: "rest ?g = ?u" using rd by (simp add: rest_def new_cursor_def)
  have t: "type_from_wire EXT_TYPE_UNIQUE_IDENTIFIER = UniqueIdentifier"
    by (simp add: type_from_wire_def ext_type_defs)
  have "parse_extensions (ext_bytes ?e @ ext_bytes ?f @ ?u) = parse_extensions_loop ?d [?e]"
    unfolding parse_extensions_def
    by (subst parse_extensions_loop_ext [of ?c ?e "ext_bytes ?f @ ?u"]) (simp_all add: wf)
  also have "\<dots> = parse_extensions_loop ?g [?e, ?f]"
    by (subst parse_extensions_loop_ext [of ?d ?f ?u, OF rd wf(2)]) simp
  also have "\<dots> = Ok [?e, ?f, \<lparr>ext_type = UniqueIdentifier, contents = replicate (unat (l - 4)) 0\<rparr>]"
    using parse_header_of_ext [OF rg assms, of "[?e, ?f]"] by (simp add: t)
  finally show ?thesis
    by (simp add: parse_ntp_packet_def amplifier_def amplified_def parse_serialize_header slice_r_def
        sample_header_def VERSION_def)
qed

text \<open>
  The kiss of death amplifies: a datagram of 60 bytes, a header and three extension headers of
  which the last declares a unique identifier of \<open>l\<close> bytes that are not there, is answered with
  \<open>48 + l\<close> bytes, because the parser pads the missing bytes with zeros and the answer echoes them.
\<close>

lemma kiss_of_death_amplifies:
  assumes "l mod 4 = 0" and "\<not> l < 4" and "serving env w r t keys_lock servstate"
  shows "length (amplifier l) = 60 \<and>
    (\<exists>w' data. response A env (amplifier l) r t keys_lock servstate w = (w', Ok data) \<and>
       length data = 48 + unat l)"
proof -
  let ?u = "\<lparr>ext_type = UniqueIdentifier, contents = replicate (unat (l - 4)) 0\<rparr> :: ntp_extension"
  have nts: "is_nts_packet (amplified l)" and m: "mode (ntp_header (amplified l)) = Client"
    by (simp_all add: is_nts_packet_def has_extension_def amplified_def empty_ext_def sample_header_def)
  have "keys_of_request A (lock_val keys_lock) (amplified l) = None"
    by (simp add: keys_of_request_def extract_extension_def amplified_def empty_ext_def get_keyid_def)
  then have "refused A (lock_val keys_lock) (amplified l) (amplifier l)" by (simp add: refused_def)
  moreover have "extract_extension (amplified l) NTSCookie = Some (empty_ext NTSCookie)"
    by (simp add: extract_extension_def amplified_def empty_ext_def)
  ultimately obtain w' data where "response A env (amplifier l) r t keys_lock servstate w = (w', Ok data)"
    "length data = 48 + exts_size (exts (kod_packet (amplified l)))"
    using refused_response [OF parse_amplifier [OF assms(1,2)] m nts _ assms(3)] by blast
  moreover have "exts (kod_packet (amplified l)) = [?u]"
    by (simp add: exts_kod_packet amplified_def empty_ext_def)
  moreover have "unat (l - 4) + 4 = unat l"
    using assms(2) by (simp add: unat_sub word_le_nat_alt word_less_nat_alt)
  moreover have "length (amplifier l) = 60"
    by (simp add: amplifier_def empty_ext_def)
  ultimately show ?thesis by (auto simp: exts_size_def)
qed

lemma kiss_of_death_amplifies_witness:
  "length (amplifier 0xfd00) = 60 \<and>
   (\<exists>w' data. response checksum_aead up_env (amplifier 0xfd00) sample_now sample_now up_keys up_state up_world =
      (w', Ok data) \<and> length data = 64816)"
  using kiss_of_death_amplifies [of "0xfd00", OF _ _ up_serving, of checksum_aead] by simp


section \<open>Availability\<close>

definition channels_up :: "ntp_world \<Rightarrow> bool" where
  "channels_up w \<longleftrightarrow> chan_set (server_ntp_s w) \<and> chan_open (server_ntp_s w) \<and>
     chan_set (server_nts_s w) \<and> chan_open (server_nts_s w)"

lemma serving_channels: "serving env w r t keys_lock servstate \<Longrightarrow> channels_up w"
  by (auto simp: serving_def measuring_def channels_up_def)

lemma serving_world:
  "serving env w r t keys_lock servstate \<Longrightarrow> channels_up w' \<Longrightarrow> serving env w' r t keys_lock servstate"
  by (auto simp: serving_def measuring_def channels_up_def)

text \<open>The world after a request: counters may have moved, the channels are still up.\<close>

lemma write_measurement_up:
  assumes "chan_set ch" and "chan_open ch"
    and "write_measurement a ip n ch = Ok ch'"
  shows "chan_set ch' \<and> chan_open ch'"
  using assms by (auto simp: write_measurement_def chan_send_def split: if_splits)

lemma channels_up_update [simp]:
  "channels_up (w\<lparr>nts_counter := n\<rparr>) = channels_up w" "channels_up (w\<lparr>kod_counter := n\<rparr>) = channels_up w"
  "channels_up (w\<lparr>malformed_cookie_counter := n\<rparr>) = channels_up w"
  "channels_up (w\<lparr>missing_key_counter := n\<rparr>) = channels_up w"
  "channels_up (w\<lparr>undecryptable_cookie_counter := n\<rparr>) = channels_up w"
  "channels_up (w\<lparr>query_counter := n\<rparr>) = channels_up w"
  "channels_up (w\<lparr>mangled_packet_counter := n\<rparr>) = channels_up w"
  "channels_up (w\<lparr>client_addr := a\<rparr>) = channels_up w"
  by (simp_all add: channels_up_def)

lemma send_kiss_of_death_channels [simp]: "channels_up (fst (send_kiss_of_death p w)) = channels_up w"
  by (simp add: send_kiss_of_death_def kiss_of_death_def)

lemma process_nts_channels [simp]:
  "channels_up (fst (process_nts A env h keys keys_lock query w)) = channels_up w"
  by (simp add: process_nts_def kiss_of_death_def split: result.split)

lemma measured_channels:
  "channels_up w \<Longrightarrow> write_measurement a ip n (server_nts_s w) = Ok ch \<Longrightarrow> channels_up (w\<lparr>server_nts_s := ch\<rparr>)"
  "channels_up w \<Longrightarrow> write_measurement a ip n (server_ntp_s w) = Ok ch \<Longrightarrow> channels_up (w\<lparr>server_ntp_s := ch\<rparr>)"
  using write_measurement_up [of "server_nts_s w" a ip n ch] write_measurement_up [of "server_ntp_s w" a ip n ch]
  by (auto simp: channels_up_def)

lemma respond_nts_channels:
  assumes "channels_up w"
  shows "channels_up (fst (respond_nts A env p query h ip keys_lock w))"
proof -
  have "channels_up (fst (case process_nts A env h keys keys_lock query w1 of
           (w', Ok res) \<Rightarrow>
             (case write_measurement (client_addr w') ip (nts_elapsed env) (server_nts_s w') of
                Ok ch \<Rightarrow> (w'\<lparr>server_nts_s := ch\<rparr>, Ok res)
              | Err e \<Rightarrow> (w', Err e)
              | Panic p \<Rightarrow> (w', Panic p))
         | (w', Err e) \<Rightarrow> (w', Err e)
         | (w', Panic p) \<Rightarrow> (w', Panic p)))" if "channels_up w1" for keys w1
  proof (cases "process_nts A env h keys keys_lock query w1")
    case (Pair w' res)
    then have "channels_up w'"
      using process_nts_channels [of A env h keys keys_lock query w1] that by simp
    then show ?thesis by (auto simp: Pair split: result.split intro: measured_channels(1))
  qed
  with assms show ?thesis
    by (simp add: respond_nts_def Let_def split: option.split result.split)
qed

lemma response_channels:
  assumes "channels_up w"
  shows "channels_up (fst (response A env query r t keys_lock servstate w))"
  using assms measured_channels(2) [of "w\<lparr>query_counter := query_counter w + 1\<rparr>"]
  by (auto simp: response_def Let_def result_simps respond_nts_channels split: result.split)

lemma serialize_answer_no_panic:
  assumes "parse_ntp_packet query = Ok p" and "parse_nts_packet A k query = Ok q"
    and "aead_expands A" and "wf_keys keys" and "nonces_ok env"
  shows "\<exists>data. serialize_nts_packet A key (packet_nonce env) (nts_answer A env q h keys rot) = Ok data"
proof -
  obtain tl where "parse_extensions tl = Ok (exts p)"
    using assms(1) by (auto simp: parse_ntp_packet_def result_simps)
  then have "list_all wf_ext (exts p)" by (rule parse_extensions_wf)
  moreover have "auth_exts q = takeWhile (\<lambda>e. ext_type e \<noteq> NTSAuthenticator) (exts p)"
    using parse_nts_agrees_ntp [OF assms(1,2)] by blast
  ultimately have "\<forall>e\<in>set (auth_exts q). length (contents e) mod 4 = 0"
    by (auto simp: list_all_iff wf_ext_def dest: set_takeWhileD)
  moreover have "length (contents (cookie_ext A env keys rot i)) mod 4 = 0" for i
    using length_cookie_ext [OF assms(3-5), of rot i] by simp
  ultimately have "\<forall>e\<in>set (auth_exts (nts_answer A env q h keys rot)) \<union>
      set (auth_enc_exts (nts_answer A env q h keys rot)). length (contents e) mod 4 = 0"
    by (auto simp: nts_answer_def)
  moreover have "length (packet_nonce env) = 16"
    using assms(5) by (simp add: nonces_ok_def NONCE_LEN_def)
  ultimately show ?thesis by (simp add: serialize_nts_packet_wire Let_def)
qed

lemma keys_of_request_SomeD:
  assumes "keys_of_request A rot p = Some keys"
  obtains c kid k where "extract_extension p NTSCookie = Some c" and "get_keyid (contents c) = Some kid"
    and "kr_get rot kid = Some k" and "eat_cookie A (contents c) k = Some keys" and "wf_keys keys"
proof -
  obtain c kid k where c: "extract_extension p NTSCookie = Some c" "get_keyid (contents c) = Some kid"
    "kr_get rot kid = Some k" "eat_cookie A (contents c) k = Some keys"
    using assms by (auto simp: keys_of_request_def split: option.splits)
  then have "wf_keys keys"
    by (auto simp: eat_cookie_def Let_def split: if_splits option.splits dest: unpack_SomeD)
  with c that show thesis by blast
qed

lemma response_no_panic:
  assumes A: "aead_expands A" and up: "serving env w r t keys_lock servstate"
    and q: "exts_complete (drop 48 query)" "length query < 2 ^ 63"
  shows "\<not> panics (snd (response A env query r t keys_lock servstate w))"
proof (cases "parse_ntp_packet query")
  case (Ok p)
  note s = servingD [OF up]
  show ?thesis
  proof (cases "mode (ntp_header p) = Client")
    case False
    then show ?thesis by (simp add: response_def Ok create_header_Ok s Let_def)
  next
    case client: True
    obtain ip where m: "measuring env w ip" using s(9) by blast
    obtain ch where ch: "response A env query r t keys_lock servstate w =
      (let w' = w\<lparr>query_counter := query_counter w + 1, server_ntp_s := ch\<rparr>;
           h = answer_header (ntp_header p) r t (lock_val servstate)
       in if is_nts_packet p then respond_nts A env p query h ip keys_lock w' else (w', Ok (serialize_header h)))"
      by (rule response_common [OF Ok client s(1,2,6) m]) auto
    show ?thesis
    proof (cases "is_nts_packet p \<and> \<not> refused A (lock_val keys_lock) p query")
      case False
      then show ?thesis
        using ch refused_response [OF Ok client _ _ up, of _ A] nts_cookie [of p]
        by (cases "is_nts_packet p") (fastforce simp: Let_def)+
    next
      case True
      let ?h = "answer_header (ntp_header p) r t (lock_val servstate)"
      have no_panic_nts: "parse_nts_packet A key query \<noteq> Panic m" for key m
        using parse_nts_no_panic [OF q, of A key] by auto
      obtain keys n where k: "keys_of_request A (lock_val keys_lock) p = Some keys"
        and n: "parse_nts_packet A (c2s keys) query = Ok n"
        using True no_panic_nts by (auto simp: refused_def split: option.splits result.splits)
      obtain c kid key where c: "extract_extension p NTSCookie = Some c" "get_keyid (contents c) = Some kid"
        "kr_get (lock_val keys_lock) kid = Some key" "eat_cookie A (contents c) key = Some keys" "wf_keys keys"
        by (rule keys_of_request_SomeD [OF k])
      obtain data where d: "\<And>w. process_nts A env ?h keys keys_lock query w = (w, Ok data)"
        using serialize_answer_no_panic [OF Ok n A c(5) s(4)]
        by (fastforce simp: process_nts_def n nts_response_Ok s)
      let ?w = "w\<lparr>query_counter := query_counter w + 1, server_ntp_s := ch\<rparr>"
      have chan: "chan_set (server_nts_s ?w)" "chan_open (server_nts_s ?w)"
        using m by (auto simp: measuring_def)
      obtain ch' where "respond_nts A env p query ?h ip keys_lock ?w =
        (?w\<lparr>nts_counter := nts_counter ?w + 1, server_nts_s := ch'\<rparr>, Ok data)"
        by (rule respond_nts_process [OF c(1,2) s(5) c(3,4) d chan])
      then show ?thesis using ch True by (simp add: Let_def)
    qed
  qed
qed (use parse_ntp_packet_no_panic [of query] in \<open>simp_all add: response_def\<close>)


text \<open>
  A round the server survives: a failed receive, a datagram with no sender, or a datagram with a
  valid kernel timestamp whose extension headers declare no more bytes than it has.
\<close>

definition round_ok :: "ntp_world \<Rightarrow> bool \<Rightarrow> server_round \<Rightarrow> bool" where
  "round_ok w ipv4 rd =
     (case rd of (keys_lock, servstate, r, t, env) \<Rightarrow>
        case r of
          Err _ \<Rightarrow> True
        | Panic _ \<Rightarrow> False
        | Ok msg \<Rightarrow>
            recv_address msg \<noteq> None \<longrightarrow>
              exts_complete (drop 48 (take BUF_SIZE (recv_bytes msg))) \<and>
              (\<exists>rs. receive_time (fst (scan_cmsgs ipv4 (recv_cmsgs msg) (0, 0) [])) =
                     (Ok rs :: (systime, io_error) result) \<and>
                   serving env w rs t keys_lock servstate))"

lemma round_ok_world: "round_ok w ipv4 rd \<Longrightarrow> channels_up w' \<Longrightarrow> round_ok w' ipv4 rd"
  using serving_world by (auto simp: round_ok_def split: result.splits)

lemma run_server_round_ok:
  assumes "aead_expands A" and "round_ok w ipv4 (keys_lock, servstate, r, t, env)" and "channels_up w"
  shows "\<exists>w' a. run_server_round A ipv4 keys_lock servstate r t env w = (w', Ok a) \<and> channels_up w'"
proof (cases r)
  case (Ok msg)
  show ?thesis
  proof (cases "recv_address msg")
    case None
    then show ?thesis using Ok assms(3) by (simp add: run_server_round_def)
  next
    case (Some src)
    let ?q = "take BUF_SIZE (recv_bytes msg)" and ?w = "w\<lparr>client_addr := src\<rparr>"
    obtain rt msgs where sc: "scan_cmsgs ipv4 (recv_cmsgs msg) (0, 0) [] = (rt, msgs)" by fastforce
    obtain rs where q: "exts_complete (drop 48 ?q)" and rs: "receive_time rt = (Ok rs :: (systime, io_error) result)"
      and up: "serving env w rs t keys_lock servstate"
      using assms(2) Ok Some sc by (auto simp: round_ok_def)
    have "channels_up ?w" using assms(3) by simp
    moreover have "length ?q < 2 ^ 63" by (simp add: BUF_SIZE_def)
    ultimately have np: "\<not> panics (snd (response A env ?q rs t keys_lock servstate ?w))"
      and ch: "channels_up (fst (response A env ?q rs t keys_lock servstate ?w))"
      using response_no_panic [OF assms(1) serving_world [OF up] q] response_channels by blast+
    show ?thesis
    proof (cases "response A env ?q rs t keys_lock servstate ?w")
      case (Pair w' res)
      then show ?thesis
        using np ch by (cases res) (auto simp: run_server_round_def Ok Some sc rs Let_def)
    qed
  qed
qed (use assms(2,3) in \<open>auto simp: run_server_round_def round_ok_def\<close>)

lemma run_server_loop_ok:
  assumes "aead_expands A" and "list_all (round_ok w ipv4) rounds" and "channels_up w"
  shows "\<exists>w' as. run_server_loop A ipv4 rounds w = (w', Ok as) \<and> length as = length rounds"
  using assms(2,3)
proof (induction rounds arbitrary: w)
  case (Cons rd rounds)
  obtain keys_lock servstate r t env where rd: "rd = (keys_lock, servstate, r, t, env)"
    by (cases rd) auto
  obtain w1 a where r1: "run_server_round A ipv4 keys_lock servstate r t env w = (w1, Ok a)" "channels_up w1"
    using run_server_round_ok [OF assms(1)] Cons.prems rd by fastforce
  moreover have "list_all (round_ok w1 ipv4) rounds"
    using Cons.prems(1) r1(2) by (auto simp: list_all_iff intro: round_ok_world)
  ultimately show ?case using Cons.IH [of w1] rd by fastforce
qed simp

text \<open>
  C9: The server stays up: over any sequence of receives, failed ones included, in which every
  datagram has complete extensions (whatever they contain, authentic or not), \<^verbatim>\<open>run_server\<close>
  completes every round, with an answer or by ignoring the datagram.
\<close>

theorem run_server_available:
  assumes "aead_expands A" and "channels_up w" and "list_all (round_ok w ipv4) rounds"
  shows "\<exists>w' as. run_server A True True ipv4 rounds w = (w', Ok as) \<and> length as = length rounds"
  using run_server_loop_ok [OF assms(1,3,2)] by (simp add: run_server_def)

definition up_rounds :: "server_round list" where
  "up_rounds =
     [(up_keys, up_state, Ok \<lparr>recv_address = Some ''192.0.2.1:5000'', recv_bytes = serialize_header sample_header,
         recv_cmsgs = [ScmTimestamp 1600000000 0]\<rparr>, sample_now, up_env),
      (up_keys, up_state, Err (Io_Error InvalidInput ''receive failed''), sample_now, up_env)]"

lemma up_receive_time:
  "receive_time (fst (scan_cmsgs True [ScmTimestamp 1600000000 0] (0, 0) [])) = (Ok sample_now :: (systime, io_error) result)"
  by (simp add: receive_time_def duration_new_def NANOS_PER_SEC_def checked_add_time_def UNIX_EPOCH_def
      sample_now_def)

theorem run_server_available_witness:
  "\<exists>w' as. run_server checksum_aead True True True up_rounds up_world = (w', Ok as) \<and> length as = 2"
proof -
  have "list_all (round_ok up_world True) up_rounds"
    using up_serving up_receive_time
    by (simp add: up_rounds_def round_ok_def BUF_SIZE_def exts_complete.simps [of "[]"])
  moreover have "length up_rounds = 2" by (simp add: up_rounds_def)
  ultimately show ?thesis
    using run_server_available [of checksum_aead up_world True up_rounds] serving_channels [OF up_serving]
    by simp
qed

text \<open>
  Every client request needs the measurement set-up: when \<^verbatim>\<open>tests/experiment.yaml\<close> cannot be
  read, any datagram that parses as a client packet ends the thread of the server with a panic.
\<close>

lemma missing_experiment_file_panics:
  assumes "parse_ntp_packet query = Ok p" and "mode (ntp_header p) = Client"
    and "clock_ok r" and "clock_ok t" and "\<not> lock_poisoned servstate" and "experiment_cfg env = None"
  shows "snd (response A env query r t keys_lock servstate w) = Panic ''Unable to build ntp server config.''"
  using assms by (simp add: response_def create_header_Ok Let_def meas_client_ip_def)

lemma missing_experiment_file_panics_witness:
  "snd (response checksum_aead (up_env\<lparr>experiment_cfg := None\<rparr>) (serialize_header sample_header) sample_now
     sample_now up_keys up_state up_world) = Panic ''Unable to build ntp server config.''"
  by (rule missing_experiment_file_panics [OF parse_header_only])
    (use up_serving in \<open>simp_all add: serving_def sample_header_def VERSION_def\<close>)

section \<open>The upstream server\<close>

text \<open>The answers of the upstream server that parse, with the time at which they were stored.\<close>

definition upstream_answers :: "((bytes, io_error) result \<times> systime) list \<Rightarrow> (ntp_packet_header \<times> systime) list" where
  "upstream_answers rounds =
     concat (map (\<lambda>(recv, now). case bind_r recv parse_ntp_packet of Ok p \<Rightarrow> [(ntp_header p, now)] | _ \<Rightarrow> []) rounds)"

text \<open>The state that relays such an answer.\<close>

definition relays :: "ntp_packet_header \<times> systime \<Rightarrow> server_state" where
  "relays a = (case a of (h, now) \<Rightarrow>
     \<lparr>ss_leap = leap_indicator h, ss_stratum = stratum h, ss_version = 4, ss_poll = poll h, ss_precision = precision h,
      ss_root_delay = root_delay h, ss_root_dispersion = root_dispersion h, ss_refid = reference_id h,
      ss_refstamp = reference_timestamp h, ss_taken = now\<rparr>)"

lemma refresh_round:
  assumes "\<not> panics recv" and "\<not> lock_poisoned s"
  shows "\<exists>s' w'. refresh_servstate_round True True recv now s w = (s', w', Ok () :: (unit, 'e) result) \<and> \<not> lock_poisoned s' \<and>
    lock_val s' = last (lock_val s # map relays (upstream_answers [(recv, now)])) \<and>
    upstream_query_counter w' = upstream_query_counter w + 1 \<and>
    upstream_failure_counter w' + length (upstream_answers [(recv, now)]) = upstream_failure_counter w + 1"
proof (cases recv)
  case (Ok b)
  have p: "parse_ntp_packet b \<noteq> Panic m" for m using parse_ntp_packet_no_panic [of b] by auto
  show ?thesis
    using p assms(2) Ok
    by (cases "parse_ntp_packet b"; cases "lock_val s")
      (simp_all add: refresh_servstate_round_def rw_read_def upstream_answers_def relays_def Let_def)
qed (use assms in \<open>simp_all add: refresh_servstate_round_def upstream_answers_def Let_def\<close>)

lemma refresh_rounds:
  assumes "\<forall>(recv, now)\<in>set rounds. \<not> panics recv" and "\<not> lock_poisoned s"
  shows "\<exists>s' w'. refresh_servstate (map (\<lambda>(recv, now). (True, True, recv, now)) rounds) s w = (s', w', Ok () :: (unit, 'e) result) \<and>
     \<not> lock_poisoned s' \<and> lock_val s' = last (lock_val s # map relays (upstream_answers rounds)) \<and>
     upstream_query_counter w' = upstream_query_counter w + length rounds \<and>
     upstream_failure_counter w' + length (upstream_answers rounds) = upstream_failure_counter w + length rounds"
  using assms
proof (induction rounds arbitrary: s w)
  case Nil
  then show ?case by (simp add: upstream_answers_def)
next
  case (Cons r rounds)
  obtain recv now where r: "r = (recv, now)" by fastforce
  obtain s1 w1 where 1: "refresh_servstate_round True True recv now s w = (s1, w1, Ok () :: (unit, 'e) result)" "\<not> lock_poisoned s1"
    "lock_val s1 = last (lock_val s # map relays (upstream_answers [(recv, now)]))"
    "upstream_query_counter w1 = upstream_query_counter w + 1"
    "upstream_failure_counter w1 + length (upstream_answers [(recv, now)]) = upstream_failure_counter w + 1"
    using refresh_round [of recv s now w, where 'e = 'e] Cons.prems r by auto
  have a: "upstream_answers (r # rounds) = upstream_answers [(recv, now)] @ upstream_answers rounds"
    by (simp add: upstream_answers_def r)
  have "last (x # xs @ ys) = last (last (x # xs) # ys)" for x :: server_state and xs ys
    by (cases ys) simp_all
  from this [of "lock_val s" "map relays (upstream_answers [(recv, now)])" "map relays (upstream_answers rounds)"]
    Cons.IH [OF _ 1(2), of w1] Cons.prems 1 show ?case
    by (auto simp: r a [unfolded r])
qed

text \<open>
  C25: The upstream refresh relays the last good answer. Over any number of rounds whose socket calls succeed,
  \<^verbatim>\<open>refresh_servstate\<close> never panics and leaves the lock sound. Afterwards the server state is, in all its ten fields, the last
  answer of the upstream server that parsed (version 4, taken at the time it was stored), or the state from before if there was none: lost and mangled answers change nothing.
  Every round is counted as a query, and every round without a good answer as a failure.
\<close>

theorem refresh_servstate_outcomes:
  assumes "\<forall>(recv, now)\<in>set rounds. \<not> panics recv" and "\<not> lock_poisoned servstate"
  shows "\<exists>s' w'. refresh_servstate (map (\<lambda>(recv, now). (True, True, recv, now)) rounds) servstate w =
       (s', w', Ok () :: (unit, io_error) result) \<and> \<not> lock_poisoned s' \<and>
     (case rev (upstream_answers rounds) of
        [] \<Rightarrow> lock_val s' = lock_val servstate
      | (h, now) # _ \<Rightarrow> lock_val s' =
          \<lparr>ss_leap = leap_indicator h, ss_stratum = stratum h, ss_version = 4, ss_poll = poll h, ss_precision = precision h,
           ss_root_delay = root_delay h, ss_root_dispersion = root_dispersion h, ss_refid = reference_id h,
           ss_refstamp = reference_timestamp h, ss_taken = now\<rparr>) \<and>
     upstream_query_counter w' = upstream_query_counter w + length rounds \<and>
     upstream_failure_counter w' = upstream_failure_counter w + (length rounds - length (upstream_answers rounds))"
proof -
  obtain s' w' where r: "refresh_servstate (map (\<lambda>(recv, now). (True, True, recv, now)) rounds) servstate w =
       (s', w', Ok () :: (unit, io_error) result)" "\<not> lock_poisoned s'"
    "lock_val s' = last (lock_val servstate # map relays (upstream_answers rounds))"
    "upstream_query_counter w' = upstream_query_counter w + length rounds"
    "upstream_failure_counter w' + length (upstream_answers rounds) = upstream_failure_counter w + length rounds"
    using refresh_rounds [OF assms, of w, where 'e = io_error] by blast
  have "length (upstream_answers rounds) \<le> length rounds"
    by (induction rounds) (auto simp: upstream_answers_def split: result.split)
  with r show ?thesis
    by (cases "upstream_answers rounds" rule: rev_cases) (auto simp: relays_def split: prod.split)
qed

definition upstream_header :: ntp_packet_header where
  "upstream_header = sample_header\<lparr>mode := Server, stratum := 2, poll := 6, precision := - 20\<rparr>"

theorem refresh_servstate_outcomes_witness:
  "\<exists>s' w'. refresh_servstate (map (\<lambda>(recv, now). (True, True, recv, now))
       [(Ok [1, 2, 3], 1), (Ok (serialize_header upstream_header), 2), (Err (Io_Error TimedOut ''timed out''), 3)]) up_state up_world =
       (s', w', Ok () :: (unit, io_error) result) \<and>
     ss_stratum (lock_val s') = 2 \<and> ss_poll (lock_val s') = 6 \<and> ss_precision (lock_val s') = - 20 \<and> ss_taken (lock_val s') = 2 \<and>
     upstream_query_counter w' = 3 \<and> upstream_failure_counter w' = 2"
proof -
  let ?rounds = "[(Ok [1, 2, 3], 1), (Ok (serialize_header upstream_header), 2), (Err (Io_Error TimedOut ''timed out''), 3)]
      :: ((bytes, io_error) result \<times> systime) list"
  have "parse_ntp_packet (serialize_header upstream_header) = Ok \<lparr>ntp_header = upstream_header, exts = []\<rparr>"
    by (rule parse_header_only) (simp add: upstream_header_def sample_header_def VERSION_def)
  then have a: "upstream_answers ?rounds = [(upstream_header, 2)]"
    by (simp add: upstream_answers_def parse_ntp_packet_def parse_packet_header_def)
  have "\<forall>(recv, now)\<in>set ?rounds. \<not> panics recv" "\<not> lock_poisoned up_state" by (simp_all add: start_servstate_def new_lock_def)
  from refresh_servstate_outcomes [OF this, of up_world] show ?thesis
    unfolding a by (auto simp: upstream_header_def up_world_def)
qed

end
