(* ===== verification/Config.thy ===== *)
theory Config
  imports Key_Rotator Net_Text
begin

text \<open>
  \<^verbatim>\<open>src/src/nts_ke/server/config.rs\<close>, \<^verbatim>\<open>src/src/ntp/server/config.rs\<close> and \<^verbatim>\<open>src/src/error.rs\<close>: the
  configurations of the two servers and how errors are wrapped. The \<^verbatim>\<open>config\<close> crate, the PEM parser
  and the file system are parameters: what the getters and the readers return.
\<close>

section \<open>Errors\<close>

text \<open>\<^verbatim>\<open>config::ConfigError\<close>, as far as the code tells its variants apart, and the errors boxed in it.\<close>

datatype foreign_error = ForeignIo io_error | AddrParseError

datatype config_error =
    NotFound string
  | Message string
  | Foreign foreign_error
  | ConfigFailure string

text \<open>\<^verbatim>\<open>wrap_err\<close> into a \<^verbatim>\<open>ConfigError\<close> and into an \<^verbatim>\<open>io::Error\<close>.\<close>

definition wrap_err :: "('e \<Rightarrow> foreign_error) \<Rightarrow> ('a, 'e) result \<Rightarrow> ('a, config_error) result" where
  "wrap_err box r = map_err (\<lambda>e. Foreign (box e)) r"

definition wrap_err_io :: "('e \<Rightarrow> string) \<Rightarrow> ('a, 'e) result \<Rightarrow> ('a, io_error) result" where
  "wrap_err_io show_error r = map_err (\<lambda>e. Io_Error Other (show_error e)) r"

section \<open>Settings\<close>

text \<open>
  A built \<^verbatim>\<open>config::Config\<close>: what its getters return. Integers are those of an \<^verbatim>\<open>i64\<close>; the values of
  an array are printed.
\<close>

record settings =
  get_string :: "string \<Rightarrow> (string, config_error) result"
  get_int :: "string \<Rightarrow> (int, config_error) result"
  get_array :: "string \<Rightarrow> (string list, config_error) result"

text \<open>The files a configuration refers to: \<open>pem_certs\<close> and \<open>pem_keys\<close> open and parse one.\<close>

record config_files =
  build_settings :: "string \<Rightarrow> (settings, config_error) result"
  read_file :: "string \<Rightarrow> (bytes, io_error) result"
  pem_certs :: "string \<Rightarrow> (bytes list option, io_error) result"
  pem_keys :: "string \<Rightarrow> (bytes list option, io_error) result"

text \<open>\<^verbatim>\<open>try_from\<close> on an \<^verbatim>\<open>i64\<close>, and the cast \<^verbatim>\<open>as u16\<close>.\<close>

definition u16_try_from :: "int \<Rightarrow> u16 option" where
  "u16_try_from v = (if 0 \<le> v \<and> v < 2 ^ 16 then Some (of_int v) else None)"

definition u64_try_from :: "int \<Rightarrow> u64 option" where
  "u64_try_from v = (if 0 \<le> v \<and> v < 2 ^ 64 then Some (of_int v) else None)"

record metrics_config =
  mc_port :: u16
  mc_addr :: string

text \<open>The same function in both configuration modules.\<close>

definition get_metrics_config :: "settings \<Rightarrow> metrics_config option" where
  "get_metrics_config s =
     (case get_string s ''metrics_addr'' of
        Ok addr \<Rightarrow>
          (case get_int s ''metrics_port'' of
             Ok port \<Rightarrow> Some \<lparr>mc_port = of_int port, mc_addr = addr\<rparr>
           | _ \<Rightarrow> None)
      | _ \<Rightarrow> None)"

definition parse_sock_addr :: "string \<Rightarrow> (socket_addr, config_error) result" where
  "parse_sock_addr addr =
     wrap_err (\<lambda>_. AddrParseError) (case socket_addr_from_str addr of Some a \<Rightarrow> Ok a | None \<Rightarrow> Err ())"

section \<open>The NTS-KE server\<close>

record ke_server_config =
  kc_addrs :: "socket_addr list"
  kc_cookie_key :: cookie_key
  kc_timeout :: u64
  kc_memcached_url :: string
  kc_metrics_config :: "metrics_config option"
  kc_next_port :: u16
  kc_tls_certs :: "bytes list"
  kc_tls_secret_keys :: "bytes list"

definition ke_server_config_new ::
  "u64 \<Rightarrow> cookie_key \<Rightarrow> string \<Rightarrow> metrics_config option \<Rightarrow> u16 \<Rightarrow> ke_server_config" where
  "ke_server_config_new timeout cookie_key memc_url metrics_config next_port =
     \<lparr>kc_addrs = [], kc_cookie_key = cookie_key, kc_timeout = timeout, kc_memcached_url = memc_url,
      kc_metrics_config = metrics_config, kc_next_port = next_port, kc_tls_certs = [], kc_tls_secret_keys = []\<rparr>"

definition add_tls_cert :: "bytes \<Rightarrow> ke_server_config \<Rightarrow> ke_server_config" where
  "add_tls_cert cert c = c\<lparr>kc_tls_certs := kc_tls_certs c @ [cert]\<rparr>"

definition add_tls_secret_key :: "bytes \<Rightarrow> ke_server_config \<Rightarrow> ke_server_config" where
  "add_tls_secret_key secret_key c = c\<lparr>kc_tls_secret_keys := kc_tls_secret_keys c @ [secret_key]\<rparr>"

definition ke_add_address :: "socket_addr \<Rightarrow> ke_server_config \<Rightarrow> ke_server_config" where
  "ke_add_address addr c = c\<lparr>kc_addrs := kc_addrs c @ [addr]\<rparr>"

definition import_tls_certs :: "config_files \<Rightarrow> string \<Rightarrow> ke_server_config \<Rightarrow> (ke_server_config, io_error) result" where
  "import_tls_certs files filename c =
     bind_r (pem_certs files filename) (\<lambda>parsed.
     case parsed of
       Some certs \<Rightarrow> Ok (fold add_tls_cert certs c)
     | None \<Rightarrow> Err (Io_Error InvalidData (''cannot parse TLS certificates from '' @ filename)))"

definition import_tls_secret_keys :: "config_files \<Rightarrow> string \<Rightarrow> ke_server_config \<Rightarrow> (ke_server_config, io_error) result" where
  "import_tls_secret_keys files filename c =
     bind_r (pem_keys files filename) (\<lambda>parsed.
     case parsed of
       Some secret_keys \<Rightarrow> Ok (fold add_tls_secret_key secret_keys c)
     | None \<Rightarrow> Err (Io_Error InvalidData (''cannot parse TLS private keys from '' @ filename)))"

fun ke_add_addresses :: "string list \<Rightarrow> ke_server_config \<Rightarrow> (ke_server_config, config_error) result" where
  "ke_add_addresses [] c = Ok c"
| "ke_add_addresses (addr # addrs) c =
     bind_r (parse_sock_addr addr) (\<lambda>sock_addr. ke_add_addresses addrs (ke_add_address sock_addr c))"

definition parse_next_port :: "settings \<Rightarrow> (u16, config_error) result" where
  "parse_next_port s =
     bind_r (get_int s ''next_port'') (\<lambda>v.
     case u16_try_from v of
       Some port \<Rightarrow> Ok port
     | None \<Rightarrow> Err (Message ''the next port is not a valid u16''))"

definition parse_timeout :: "settings \<Rightarrow> (u64, config_error) result" where
  "parse_timeout s =
     (case get_int s ''conn_timeout'' of
        Err (NotFound _) \<Rightarrow> Ok 30
      | Err error \<Rightarrow> Err error
      | Ok val \<Rightarrow>
          (case u64_try_from val of
             Some val \<Rightarrow> Ok val
           | None \<Rightarrow> Err (Message ''the connection timeout is not a valid u64''))
      | Panic p \<Rightarrow> Panic p)"

definition ke_server_config_parse :: "config_files \<Rightarrow> string \<Rightarrow> (ke_server_config, config_error) result" where
  "ke_server_config_parse files filename =
     bind_r (unwrap_r ''Unable to build key establishment server config.'' (build_settings files filename)) (\<lambda>s.
     bind_r (parse_next_port s) (\<lambda>next_port.
     bind_r (get_string s ''memc_url'') (\<lambda>memc_url.
     bind_r (parse_timeout s) (\<lambda>timeout.
     let metrics_config = get_metrics_config s in
     bind_r (get_string s ''tls_cert_file'') (\<lambda>certs_filename.
     bind_r (get_string s ''tls_key_file'') (\<lambda>secret_keys_filename.
     bind_r (get_string s ''cookie_key_file'') (\<lambda>cookie_key_filename.
     bind_r (wrap_err ForeignIo (cookie_key_parse (read_file files) cookie_key_filename)) (\<lambda>cookie_key.
     let config = ke_server_config_new timeout cookie_key memc_url metrics_config next_port in
     bind_r (wrap_err ForeignIo (import_tls_certs files certs_filename config)) (\<lambda>config.
     bind_r (wrap_err ForeignIo (import_tls_secret_keys files secret_keys_filename config)) (\<lambda>config.
     bind_r (get_array s ''addr'') (\<lambda>addrs.
     ke_add_addresses addrs config)))))))))))"

section \<open>The NTP server\<close>

record ntp_server_config =
  nc_addrs :: "socket_addr list"
  nc_cookie_key :: cookie_key
  nc_memcached_url :: string
  nc_metrics_config :: "metrics_config option"
  nc_upstream_addr :: "socket_addr option"

definition ntp_server_config_new ::
  "cookie_key \<Rightarrow> string \<Rightarrow> metrics_config option \<Rightarrow> socket_addr option \<Rightarrow> ntp_server_config" where
  "ntp_server_config_new cookie_key memc_url metrics_config upstream_addr =
     \<lparr>nc_addrs = [], nc_cookie_key = cookie_key, nc_memcached_url = memc_url,
      nc_metrics_config = metrics_config, nc_upstream_addr = upstream_addr\<rparr>"

definition ntp_add_address :: "socket_addr \<Rightarrow> ntp_server_config \<Rightarrow> ntp_server_config" where
  "ntp_add_address addr c = c\<lparr>nc_addrs := nc_addrs c @ [addr]\<rparr>"

fun ntp_add_addresses :: "string list \<Rightarrow> ntp_server_config \<Rightarrow> (ntp_server_config, config_error) result" where
  "ntp_add_addresses [] c = Ok c"
| "ntp_add_addresses (addr # addrs) c =
     bind_r (parse_sock_addr addr) (\<lambda>sock_addr. ntp_add_addresses addrs (ntp_add_address sock_addr c))"

text \<open>A setting that may be missing.\<close>

definition parse_upstream_port :: "settings \<Rightarrow> (u16 option, config_error) result" where
  "parse_upstream_port s =
     (case get_int s ''upstream_port'' of
        Err (NotFound _) \<Rightarrow> Ok None
      | Err error \<Rightarrow> Err error
      | Ok val \<Rightarrow>
          (case u16_try_from val of
             Some port \<Rightarrow> Ok (Some port)
           | None \<Rightarrow> Err (Message ''the upstream port is not a valid u64''))
      | Panic p \<Rightarrow> Panic p)"

definition parse_upstream_addr :: "settings \<Rightarrow> (string option, config_error) result" where
  "parse_upstream_addr s =
     (case get_string s ''upstream_addr'' of
        Err (NotFound _) \<Rightarrow> Ok None
      | Err error \<Rightarrow> Err error
      | Ok addr \<Rightarrow> Ok (Some addr)
      | Panic p \<Rightarrow> Panic p)"

definition upstream_sock_addr :: "string option \<Rightarrow> u16 option \<Rightarrow> (socket_addr option, config_error) result" where
  "upstream_sock_addr upstream_addr upstream_port =
     (case (upstream_addr, upstream_port) of
        (Some addr, Some port) \<Rightarrow>
          bind_r (wrap_err (\<lambda>_. AddrParseError) (case ip_addr_from_str addr of Some ip \<Rightarrow> Ok ip | None \<Rightarrow> Err ())) (\<lambda>ip.
          Ok (Some (SocketAddr ip port)))
      | _ \<Rightarrow> Ok None)"

definition ntp_server_config_parse :: "config_files \<Rightarrow> string \<Rightarrow> (ntp_server_config, config_error) result" where
  "ntp_server_config_parse files filename =
     bind_r (unwrap_r ''Unable to build ntp server config.'' (build_settings files filename)) (\<lambda>s.
     bind_r (get_string s ''memc_url'') (\<lambda>memc_url.
     let metrics_config = get_metrics_config s in
     bind_r (parse_upstream_port s) (\<lambda>upstream_port.
     bind_r (parse_upstream_addr s) (\<lambda>upstream_addr.
     bind_r (upstream_sock_addr upstream_addr upstream_port) (\<lambda>upstream.
     bind_r (get_string s ''cookie_key_file'') (\<lambda>cookie_key_filename.
     bind_r (wrap_err ForeignIo (cookie_key_parse (read_file files) cookie_key_filename)) (\<lambda>cookie_key.
     let config = ntp_server_config_new cookie_key memc_url metrics_config upstream in
     bind_r (get_array s ''addr'') (\<lambda>addrs.
     ntp_add_addresses addrs config))))))))"


section \<open>Lemmas\<close>

lemma u16_try_from_iff: "u16_try_from v = Some p \<longleftrightarrow> v = uint p"
  using unsigned_less [of p, where 'a = int] by (auto simp: u16_try_from_def unsigned_of_int take_bit_int_eq_self)

lemma u64_try_from_iff: "u64_try_from v = Some p \<longleftrightarrow> v = uint p"
  using unsigned_less [of p, where 'a = int] by (auto simp: u64_try_from_def unsigned_of_int take_bit_int_eq_self)

lemma or_error_Ok: "(case x of Some p \<Rightarrow> Ok p | None \<Rightarrow> Err e) = Ok q \<longleftrightarrow> x = Some q"
  by (simp split: option.split)

lemma fold_add_tls_cert: "fold add_tls_cert certs c = c\<lparr>kc_tls_certs := kc_tls_certs c @ certs\<rparr>"
  by (induction certs arbitrary: c) (simp_all add: add_tls_cert_def)

lemma fold_add_tls_secret_key:
  "fold add_tls_secret_key keys c = c\<lparr>kc_tls_secret_keys := kc_tls_secret_keys c @ keys\<rparr>"
  by (induction keys arbitrary: c) (simp_all add: add_tls_secret_key_def)

lemma wrap_err_Ok [result_simps]: "wrap_err box r = Ok x \<longleftrightarrow> r = Ok x"
  by (cases r) (simp_all add: wrap_err_def)

lemma parse_sock_addr_Ok: "parse_sock_addr s = Ok a \<longleftrightarrow> socket_addr_from_str s = Some a"
  by (simp add: parse_sock_addr_def wrap_err_Ok split: option.split)

text \<open>The addresses are parsed in order.\<close>

lemma ke_add_addresses_Ok:
  "ke_add_addresses ss c = Ok c' \<longleftrightarrow>
     (\<exists>as. map socket_addr_from_str ss = map Some as \<and> c' = c\<lparr>kc_addrs := kc_addrs c @ as\<rparr>)"
proof (induction ss arbitrary: c)
  case (Cons s ss)
  show ?case
    by (auto simp: result_simps Cons.IH parse_sock_addr_Ok ke_add_address_def Cons_eq_map_conv)
qed auto

lemma ntp_add_addresses_Ok:
  "ntp_add_addresses ss c = Ok c' \<longleftrightarrow>
     (\<exists>as. map socket_addr_from_str ss = map Some as \<and> c' = c\<lparr>nc_addrs := nc_addrs c @ as\<rparr>)"
proof (induction ss arbitrary: c)
  case (Cons s ss)
  show ?case
    by (auto simp: result_simps Cons.IH parse_sock_addr_Ok ntp_add_address_def Cons_eq_map_conv)
qed auto

lemma parse_next_port_Ok: "parse_next_port s = Ok p \<longleftrightarrow> get_int s ''next_port'' = Ok (uint p)"
  by (auto simp: parse_next_port_def result_simps or_error_Ok u16_try_from_iff)

lemma parse_timeout_Ok:
  "parse_timeout s = Ok t \<longleftrightarrow>
     get_int s ''conn_timeout'' = Ok (uint t) \<or> (t = 30 \<and> (\<exists>n. get_int s ''conn_timeout'' = Err (NotFound n)))"
  by (cases "get_int s ''conn_timeout''")
    (auto simp: parse_timeout_def or_error_Ok u64_try_from_iff split: config_error.split)

text \<open>A parsed configuration says what the file says.\<close>

lemma ke_server_config_parse_Ok:
  assumes "build_settings files filename = Ok s" and "ke_server_config_parse files filename = Ok c"
  shows "get_int s ''next_port'' = Ok (uint (kc_next_port c))"
    and "get_string s ''memc_url'' = Ok (kc_memcached_url c)"
    and "parse_timeout s = Ok (kc_timeout c)"
    and "kc_metrics_config c = get_metrics_config s"
    and "\<exists>f. get_string s ''cookie_key_file'' = Ok f \<and> read_file files f = Ok (cookie_key_as_bytes (kc_cookie_key c))"
    and "\<exists>f. get_string s ''tls_cert_file'' = Ok f \<and> pem_certs files f = Ok (Some (kc_tls_certs c))"
    and "\<exists>f. get_string s ''tls_key_file'' = Ok f \<and> pem_keys files f = Ok (Some (kc_tls_secret_keys c))"
    and "\<exists>as. get_array s ''addr'' = Ok as \<and> map socket_addr_from_str as = map Some (kc_addrs c)"
  using assms
  by (auto simp: ke_server_config_parse_def result_simps Let_def parse_next_port_Ok ke_add_addresses_Ok
      import_tls_certs_def import_tls_secret_keys_def fold_add_tls_cert fold_add_tls_secret_key
      ke_server_config_new_def cookie_key_parse_def split: option.splits)

lemma ntp_server_config_parse_Ok:
  assumes "build_settings files filename = Ok s" and "ntp_server_config_parse files filename = Ok c"
  shows "get_string s ''memc_url'' = Ok (nc_memcached_url c)"
    and "nc_metrics_config c = get_metrics_config s"
    and "\<exists>f. get_string s ''cookie_key_file'' = Ok f \<and> read_file files f = Ok (cookie_key_as_bytes (nc_cookie_key c))"
    and "\<exists>addr port. parse_upstream_addr s = Ok addr \<and> parse_upstream_port s = Ok port \<and>
           upstream_sock_addr addr port = Ok (nc_upstream_addr c)"
    and "\<exists>as. get_array s ''addr'' = Ok as \<and> map socket_addr_from_str as = map Some (nc_addrs c)"
  using assms
  by (auto simp: ntp_server_config_parse_def result_simps Let_def ntp_add_addresses_Ok
      ntp_server_config_new_def cookie_key_parse_def)


section \<open>A configuration\<close>

definition sample_settings :: settings where
  "sample_settings =
     \<lparr>get_string = (\<lambda>k. if k = ''memc_url'' then Ok ''memcache://h''
                        else if k = ''metrics_addr'' then Ok ''127.0.0.1''
                        else if k \<in> {''tls_cert_file'', ''tls_key_file'', ''cookie_key_file''} then Ok k
                        else Err (NotFound k)),
      get_int = (\<lambda>k. if k = ''next_port'' then Ok 123 else if k = ''metrics_port'' then Ok 65616 else Err (NotFound k)),
      get_array = (\<lambda>k. Ok [''127.0.0.1:4460''])\<rparr>"

definition sample_files :: config_files where
  "sample_files = \<lparr>build_settings = (\<lambda>_. Ok sample_settings), read_file = (\<lambda>_. Ok [1, 2, 3]),
     pem_certs = (\<lambda>_. Ok (Some [[7]])), pem_keys = (\<lambda>_. Ok (Some [[8]]))\<rparr>"

lemma sample_address: "socket_addr_from_str ''127.0.0.1:4460'' = Some (SocketAddr (IpV4 (Ipv4Addr 127 0 0 1)) 4460)"
  using socket_addr_v4_from_to_string [of "Ipv4Addr 127 0 0 1" 4460] by (simp add: show_nat.simps char_of_def bit_0)

lemma sample_config_parses: "\<exists>c. ke_server_config_parse sample_files ''ke.yaml'' = Ok c"
  by (simp add: ke_server_config_parse_def sample_files_def sample_settings_def parse_next_port_def u16_try_from_def
      parse_timeout_def cookie_key_parse_def wrap_err_def import_tls_certs_def import_tls_secret_keys_def
      parse_sock_addr_def sample_address Let_def)

section \<open>Properties\<close>

text \<open>
  C31: A configuration of the NTS-KE server that is parsed says what the file says: the port is
  the integer of the file, the connection timeout too or 30 when it is missing, the certificates,
  private keys and cookie key are those of the named files, and the listening addresses are the
  addresses of the file in their order.
\<close>

theorem ke_config_faithful:
  assumes "build_settings files filename = Ok s" and "ke_server_config_parse files filename = Ok c"
  shows "get_int s ''next_port'' = Ok (uint (kc_next_port c)) \<and>
    (get_int s ''conn_timeout'' = Ok (uint (kc_timeout c)) \<or>
       kc_timeout c = 30 \<and> (\<exists>n. get_int s ''conn_timeout'' = Err (NotFound n))) \<and>
    get_string s ''memc_url'' = Ok (kc_memcached_url c) \<and>
    (\<exists>f. get_string s ''cookie_key_file'' = Ok f \<and> read_file files f = Ok (cookie_key_as_bytes (kc_cookie_key c))) \<and>
    (\<exists>f. get_string s ''tls_cert_file'' = Ok f \<and> pem_certs files f = Ok (Some (kc_tls_certs c))) \<and>
    (\<exists>f. get_string s ''tls_key_file'' = Ok f \<and> pem_keys files f = Ok (Some (kc_tls_secret_keys c))) \<and>
    (\<exists>as. get_array s ''addr'' = Ok as \<and> map socket_addr_from_str as = map Some (kc_addrs c))"
  using ke_server_config_parse_Ok [OF assms] by (auto simp: parse_timeout_Ok)

theorem ke_config_faithful_witness:
  "\<exists>c. ke_server_config_parse sample_files ''ke.yaml'' = Ok c \<and> uint (kc_next_port c) = 123 \<and> kc_timeout c = 30"
proof -
  obtain c where c: "ke_server_config_parse sample_files ''ke.yaml'' = Ok c" using sample_config_parses by blast
  have s: "build_settings sample_files ''ke.yaml'' = Ok sample_settings" by (simp add: sample_files_def)
  from ke_config_faithful [OF s c] c show ?thesis by (auto simp: sample_settings_def)
qed

text \<open>
  The port of the metrics server is not checked: a port that does not fit 16 bits is
  accepted, by both servers, and reduced modulo 65536.
\<close>

lemma metrics_port_wraps:
  assumes "build_settings files filename = Ok s" and "ke_server_config_parse files filename = Ok c"
    and "ntp_server_config_parse files filename' = Ok n" and "build_settings files filename' = Ok s"
    and "get_string s ''metrics_addr'' = Ok addr" and "get_int s ''metrics_port'' = Ok v" and "65536 \<le> v"
  shows "\<exists>m. kc_metrics_config c = Some m \<and> nc_metrics_config n = Some m \<and> uint (mc_port m) = v mod 65536 \<and>
    uint (mc_port m) \<noteq> v"
proof -
  let ?m = "\<lparr>mc_port = of_int v, mc_addr = addr\<rparr> :: metrics_config"
  have m: "get_metrics_config s = Some ?m" using assms(5,6) by (simp add: get_metrics_config_def)
  have v: "uint (mc_port ?m) = v mod 65536" by (simp add: unsigned_of_int take_bit_eq_mod)
  moreover have "v mod 65536 \<noteq> v" using assms(7) pos_mod_bound [of 65536 v] by linarith
  ultimately show ?thesis
    using ke_server_config_parse_Ok(4) [OF assms(1,2)] ntp_server_config_parse_Ok(2) [OF assms(4,3)] m by auto
qed

lemma metrics_port_wraps_witness:
  "\<exists>c m. ke_server_config_parse sample_files ''ke.yaml'' = Ok c \<and> kc_metrics_config c = Some m \<and> uint (mc_port m) = 80"
proof -
  obtain c where c: "ke_server_config_parse sample_files ''ke.yaml'' = Ok c" using sample_config_parses by blast
  have "\<exists>n. ntp_server_config_parse sample_files ''ntp.yaml'' = Ok n"
    by (simp add: ntp_server_config_parse_def sample_files_def sample_settings_def parse_upstream_port_def
        parse_upstream_addr_def upstream_sock_addr_def cookie_key_parse_def wrap_err_def parse_sock_addr_def sample_address Let_def)
  then obtain n where n: "ntp_server_config_parse sample_files ''ntp.yaml'' = Ok n" by blast
  have s: "build_settings sample_files f = Ok sample_settings" for f by (simp add: sample_files_def)
  from metrics_port_wraps [OF s c n s, of "''127.0.0.1''" 65616] c show ?thesis by (auto simp: sample_settings_def)
qed

end
