(* ===== verification/Servers.thy ===== *)
theory Servers
  imports Ke_Listener_Props Ntp_Server_Props Config
begin

text \<open>
  How the servers start: \<^verbatim>\<open>src/src/nts_ke/server/server.rs\<close>, \<^verbatim>\<open>start_ntp_server\<close> of
  \<^verbatim>\<open>src/src/ntp/server/server.rs\<close>, and the sub-commands \<^verbatim>\<open>src/src/sub_command/ke_server.rs\<close> and
  \<^verbatim>\<open>src/src/sub_command/ntp_server.rs\<close>. The threads that are spawned are recorded; what they do is the
  business of the components they run. memcached, rustls, the sockets and the files are parameters.
\<close>

section \<open>Threads\<close>

text \<open>The threads the servers spawn, in the order they spawn them.\<close>

datatype thread =
    RotateThread
  | MetricsThread metrics_config
  | ListenThread nat \<comment> \<open>the index of the listener\<close>
  | RefreshThread socket_addr
  | ServeThread socket_addr bool \<comment> \<open>the address, and whether it is an IPv4 one\<close>

definition metrics_threads :: "metrics_config option \<Rightarrow> thread list" where
  "metrics_threads mc = (case mc of Some m \<Rightarrow> [MetricsThread m] | None \<Rightarrow> [])"

section \<open>The NTS-KE server\<close>

datatype protocol_version = TLSv1_2 | TLSv1_3

record tls_server_config =
  tls_versions :: "protocol_version list"
  tls_cert_chain :: "bytes list"
  tls_key :: bytes
  tls_protocols :: "string list"

record ke_server_state =
  ks_config :: ke_server_config
  ks_rotator :: "key_rotator rwlock"
  ks_tls_server_config :: tls_server_config

record ('fd, 's) ke_server =
  ks_state :: ke_server_state
  ks_listeners :: "('fd, 's) ke_listener list"

definition KEY_PREFIX :: string where "KEY_PREFIX = ''/nts/nts-keys''"

text \<open>The block that sets the TLS configuration up; \<open>set_single_cert\<close> is the check of rustls.\<close>

definition make_tls_server_config ::
  "(bytes list \<Rightarrow> bytes \<Rightarrow> (unit, tls_error) result) \<Rightarrow> ke_server_config \<Rightarrow> (tls_server_config, 'e) result" where
  "make_tls_server_config set_single_cert config =
     bind_r (index_r (kc_tls_secret_keys config) 0) (\<lambda>key.
     bind_r (unwrap_r ''invalid key or certificate'' (set_single_cert (kc_tls_certs config) key)) (\<lambda>_.
     Ok \<lparr>tls_versions = [TLSv1_3], tls_cert_chain = kc_tls_certs config, tls_key = key,
         tls_protocols = [''ntske/1'']\<rparr>))"

definition ke_server_connect ::
  "(bytes \<Rightarrow> bytes \<Rightarrow> bytes) \<Rightarrow> (nat \<Rightarrow> memcache \<times> systime) \<Rightarrow>
     (bytes list \<Rightarrow> bytes \<Rightarrow> (unit, tls_error) result) \<Rightarrow> ke_server_config \<Rightarrow>
     (('fd, 's) ke_server, rotate_error) result" where
  "ke_server_connect hmac env set_single_cert config =
     bind_r (kr_connect hmac env KEY_PREFIX (kc_memcached_url config) (kc_cookie_key config)) (\<lambda>rotator.
     bind_r (make_tls_server_config set_single_cert config) (\<lambda>tls.
     Ok \<lparr>ks_state = \<lparr>ks_config = config, ks_rotator = new_lock rotator, ks_tls_server_config = tls\<rparr>,
         ks_listeners = []\<rparr>))"

text \<open>The sockets and the poll as the listeners meet them.\<close>

record 'fd bind_env =
  bind_sock_ops :: "'fd sock_ops"
  bind_poll_new :: "(unit, io_error) result"
  bind_from_std :: "'fd \<Rightarrow> (unit, io_error) result"
  bind_poll_register :: "(unit, io_error) result"

fun bind_listeners ::
  "'fd bind_env \<Rightarrow> socket_addr list \<Rightarrow> ('fd, 's) ke_server \<Rightarrow> ('fd, 's) ke_server \<times> (unit, io_error) result" where
  "bind_listeners env [] server = (server, Ok ())"
| "bind_listeners env (addr # addrs) server =
     (case listener_bind (bind_sock_ops env) (bind_poll_new env) (bind_from_std env) (bind_poll_register env) addr of
        Ok listener \<Rightarrow> bind_listeners env addrs (server\<lparr>ks_listeners := ks_listeners server @ [listener]\<rparr>)
      | Err e \<Rightarrow> (server, Err e)
      | Panic p \<Rightarrow> (server, Panic p))"

text \<open>
  \<^verbatim>\<open>start\<close>, up to the point where it waits for its threads; how they end is ignored.
\<close>

definition ke_server_start ::
  "'fd bind_env \<Rightarrow> ('fd, 's) ke_server \<Rightarrow> ('fd, 's) ke_server \<times> thread list \<times> (unit, io_error) result" where
  "ke_server_start env server =
     (let config = ks_config (ks_state server);
          threads = RotateThread # metrics_threads (kc_metrics_config config)
      in case bind_listeners env (kc_addrs config) server of
           (server', Ok _) \<Rightarrow> (server', threads @ map ListenThread [0..<length (ks_listeners server')], Ok ())
         | (server', Err e) \<Rightarrow> (server', threads, Err e)
         | (server', Panic p) \<Rightarrow> (server', threads, Panic p))"

section \<open>The NTP server\<close>

record 'fd ntp_start_env =
  start_now :: systime
  upstream_bind :: "(unit, io_error) result"
  upstream_set_timeout :: "(unit, io_error) result"
  start_sock_ops :: "'fd sock_ops"

text \<open>The thread that follows the upstream server.\<close>

definition start_upstream :: "'fd ntp_start_env \<Rightarrow> socket_addr option \<Rightarrow> (thread list, io_error) result" where
  "start_upstream env upstream =
     (case upstream of
        Some addr \<Rightarrow>
          bind_r (upstream_bind env) (\<lambda>_.
          bind_r (upstream_set_timeout env) (\<lambda>_.
          Ok [RefreshThread addr]))
      | None \<Rightarrow> Ok [])"

fun serve_addresses :: "'fd sock_ops \<Rightarrow> socket_addr list \<Rightarrow> thread list \<times> (unit, io_error) result" where
  "serve_addresses sops [] = ([], Ok ())"
| "serve_addresses sops (addr # addrs) =
     (case udp_listen sops addr of
        Ok socket \<Rightarrow> (case serve_addresses sops addrs of (ts, r) \<Rightarrow> (ServeThread addr (is_ipv4 addr) # ts, r))
      | Err e \<Rightarrow> ([], Err e)
      | Panic p \<Rightarrow> ([], Panic p))"

record ntp_server_shared =
  ns_keys :: "key_rotator rwlock"
  ns_servstate :: "server_state rwlock"

definition start_ntp_server ::
  "(bytes \<Rightarrow> bytes \<Rightarrow> bytes) \<Rightarrow> (nat \<Rightarrow> memcache \<times> systime) \<Rightarrow> 'fd ntp_start_env \<Rightarrow> ntp_server_config \<Rightarrow>
     thread list \<times> (ntp_server_shared, io_error) result" where
  "start_ntp_server hmac env senv config =
     (case unwrap_r ''error connecting to the memcached server''
             (kr_connect hmac env KEY_PREFIX (nc_memcached_url config) (nc_cookie_key config))
             :: (key_rotator, io_error) result of
        Err e \<Rightarrow> ([], Err e)
      | Panic p \<Rightarrow> ([], Panic p)
      | Ok rotator \<Rightarrow>
          let keys = new_lock rotator;
              servstate = start_servstate (nc_upstream_addr config \<noteq> None) (start_now senv)
          in case start_upstream senv (nc_upstream_addr config) of
               Err e \<Rightarrow> ([RotateThread], Err e)
             | Panic p \<Rightarrow> ([RotateThread], Panic p)
             | Ok ts \<Rightarrow>
                 (case serve_addresses (start_sock_ops senv) (nc_addrs config) of
                    (served, r) \<Rightarrow>
                      (RotateThread # ts @ metrics_threads (nc_metrics_config config) @ served,
                       bind_r r (\<lambda>_. Ok \<lparr>ns_keys = keys, ns_servstate = servstate\<rparr>))))"

section \<open>Lemmas\<close>

lemma kr_connect_up: "kr_connect hmac env pre url key = Ok rot \<Longrightarrow> rotator_up (new_lock rot)"
  using connect_loop_Ok [of hmac env _ "initial_rotator pre url key" rot]
  by (auto simp: kr_connect_def rotator_up_def new_lock_def)

text \<open>Sockets can be had.\<close>

definition sockets_up :: "'fd sock_ops \<Rightarrow> bool" where
  "sockets_up ops \<longleftrightarrow> is_ok (builder_new_v4 ops) \<and> is_ok (builder_new_v6 ops) \<and>
     (\<forall>fd. reuse_address ops fd = Ok () \<and> setsockopt_freebind ops fd \<noteq> -1 \<and> (\<forall>a. sock_bind ops fd a = Ok ()) \<and>
           sock_listen ops fd 128 = Ok ())"

lemma sockets_up_listen:
  assumes "sockets_up ops"
  shows "\<exists>fd. tcp_listener ops addr = Ok fd" and "\<exists>fd. udp_listen ops addr = Ok fd"
  using assms by (auto simp: sockets_up_def tcp_listener_def udp_listen_def set_freebind_def is_ok_iff)

text \<open>Addresses are served in order, up to the first whose socket cannot be had.\<close>

lemma serve_addresses_eq:
  "serve_addresses ops addrs =
     (map (\<lambda>a. ServeThread a (is_ipv4 a)) (takeWhile (\<lambda>a. is_ok (udp_listen ops a)) addrs),
      case dropWhile (\<lambda>a. is_ok (udp_listen ops a)) addrs of [] \<Rightarrow> Ok () | a # _ \<Rightarrow> bind_r (udp_listen ops a) (\<lambda>_. Ok ()))"
proof (induction addrs)
  case (Cons a addrs)
  then show ?case by (cases "udp_listen ops a") simp_all
qed simp

lemma serve_addresses_outcome:
  "case dropWhile (\<lambda>a. is_ok (udp_listen ops a)) addrs of
     [] \<Rightarrow> bind_r (snd (serve_addresses ops addrs)) (\<lambda>_. Ok x) = Ok x
   | a # _ \<Rightarrow> (case udp_listen ops a of
       Err e \<Rightarrow> bind_r (snd (serve_addresses ops addrs)) (\<lambda>_. Ok x) = Err e
     | Panic p \<Rightarrow> bind_r (snd (serve_addresses ops addrs)) (\<lambda>_. Ok x) = Panic p
     | Ok _ \<Rightarrow> False)"
proof (cases "dropWhile (\<lambda>a. is_ok (udp_listen ops a)) addrs")
  case Nil
  show ?thesis unfolding serve_addresses_eq Nil by simp
next
  case (Cons a as)
  then have "\<not> is_ok (udp_listen ops a)" using hd_dropWhile [of "\<lambda>a. is_ok (udp_listen ops a)" addrs] by simp
  then show ?thesis unfolding serve_addresses_eq Cons by (cases "udp_listen ops a") simp_all
qed

text \<open>The first state of the server answers plain requests.\<close>

lemma start_state_answers:
  assumes q: "parse_ntp_packet query = Ok p" "mode (ntp_header p) = Client" "\<not> is_nts_packet p" "clock_ok t2" "clock_ok t" "measuring e w ip"
  shows "\<exists>w' data h. response A e query t2 t keys
      (ns_servstate \<lparr>ns_keys = rot, ns_servstate = start_servstate (up \<noteq> None) now\<rparr>) w = (w', Ok data) \<and>
    parse_ntp_packet data = Ok \<lparr>ntp_header = h, exts = []\<rparr> \<and>
    leap_indicator h = (if up = None then NoLeap else LeapUnknown) \<and> stratum h = (if up = None then 1 else 16) \<and>
    origin_timestamp h = transmit_timestamp (ntp_header p)"
proof -
  let ?s = "start_servstate (up \<noteq> None) now" and ?h = "answer_header (ntp_header p) t2 t (lock_val (start_servstate (up \<noteq> None) now))"
  have l: "\<not> lock_poisoned ?s" by (simp add: start_servstate_def new_lock_def)
  obtain ch where "response A e query t2 t keys ?s w =
      (w\<lparr>query_counter := query_counter w + 1, server_ntp_s := ch\<rparr>, Ok (serialize_header ?h))"
    by (rule response_common [OF q(1,2,4,5) l q(6)]) (simp add: Let_def q(3))
  moreover have "parse_ntp_packet (serialize_header ?h) = Ok \<lparr>ntp_header = ?h, exts = []\<rparr>"
    by (rule parse_header_only) (simp add: start_servstate_def initial_servstate_def new_lock_def VERSION_def)
  ultimately show ?thesis
    by (simp add: answer_header_def start_servstate_def initial_servstate_def new_lock_def)
qed

definition binds_up :: "'fd bind_env \<Rightarrow> bool" where
  "binds_up env \<longleftrightarrow> sockets_up (bind_sock_ops env) \<and> bind_poll_new env = Ok () \<and> (\<forall>fd. bind_from_std env fd = Ok ()) \<and>
     bind_poll_register env = Ok ()"

lemma listener_bind_up:
  assumes "binds_up env"
  obtains l where "listener_bind (bind_sock_ops env) (bind_poll_new env) (bind_from_std env) (bind_poll_register env) addr = Ok l"
    and "lst_addr l = addr"
  using assms sockets_up_listen(1) [of "bind_sock_ops env" addr]
  by (auto simp: binds_up_def listener_bind_def)

lemma bind_listeners_Ok:
  fixes server :: "('fd, 's) ke_server"
  assumes "binds_up env"
  shows "\<exists>ls. bind_listeners env addrs server = (server\<lparr>ks_listeners := ks_listeners server @ ls\<rparr>, Ok ()) \<and>
    map lst_addr ls = addrs \<and> list_all listener_init ls"
proof (induction addrs arbitrary: server)
  case (Cons a addrs)
  obtain l :: "('fd, 's) ke_listener" where
    l: "listener_bind (bind_sock_ops env) (bind_poll_new env) (bind_from_std env) (bind_poll_register env) a = Ok l"
      "lst_addr l = a" by (rule listener_bind_up [OF assms])
  obtain ls where "bind_listeners env addrs (server\<lparr>ks_listeners := ks_listeners server @ [l]\<rparr>) =
      (server\<lparr>ks_listeners := (ks_listeners server @ [l]) @ ls\<rparr>, Ok ())" "map lst_addr ls = addrs" "list_all listener_init ls"
    using Cons.IH [of "server\<lparr>ks_listeners := ks_listeners server @ [l]\<rparr>"] by auto
  moreover have "listener_init l" using l(1) unfolding listener_init_def by blast
  ultimately show ?case using l by (intro exI [of _ "l # ls"]) simp
qed (auto intro: exI [of _ "[]"])


lemma ke_server_connect_Ok:
  assumes "ke_server_connect hmac env set_single_cert config = Ok server"
  shows "rotator_up (ks_rotator (ks_state server))" and "ks_listeners server = []"
    and "ks_config (ks_state server) = config"
    and "\<exists>key. kc_tls_secret_keys config \<noteq> [] \<and> hd (kc_tls_secret_keys config) = key \<and>
           set_single_cert (kc_tls_certs config) key = Ok () \<and>
           ks_tls_server_config (ks_state server) =
             \<lparr>tls_versions = [TLSv1_3], tls_cert_chain = kc_tls_certs config, tls_key = key, tls_protocols = [''ntske/1'']\<rparr>"
  using assms kr_connect_up
  by (auto simp: ke_server_connect_def make_tls_server_config_def result_simps index_r_def hd_conv_nth split: if_splits)

section \<open>Sub-commands and main\<close>

text \<open>The arguments of a sub-command as clap reports them, and how the process ends.\<close>

record arg_matches =
  value_of :: "string \<Rightarrow> string option"
  is_present :: "string \<Rightarrow> bool"

datatype process_end = Returned | Exit nat | Panicked string

definition ke_config_filename :: "arg_matches \<Rightarrow> string" where
  "ke_config_filename matches =
     (case value_of matches ''configfile'' of Some filename \<Rightarrow> filename | None \<Rightarrow> ''/etc/cfnts/ke-server.config'')"

definition ntp_config_filename :: "arg_matches \<Rightarrow> string" where
  "ntp_config_filename matches =
     (case value_of matches ''configfile'' of Some filename \<Rightarrow> filename | None \<Rightarrow> ''/etc/cfnts/ntp-server.config'')"

definition ke_server_run ::
  "(bytes \<Rightarrow> bytes \<Rightarrow> bytes) \<Rightarrow> (nat \<Rightarrow> memcache \<times> systime) \<Rightarrow>
     (bytes list \<Rightarrow> bytes \<Rightarrow> (unit, tls_error) result) \<Rightarrow> config_files \<Rightarrow> 'fd bind_env \<Rightarrow> arg_matches \<Rightarrow>
     thread list \<times> process_end" where
  "ke_server_run hmac env set_single_cert files benv matches =
     (case ke_server_config_parse files (ke_config_filename matches) of
        Panic p \<Rightarrow> ([], Panicked p)
      | Err e \<Rightarrow> ([], Exit 1)
      | Ok config \<Rightarrow>
          (case ke_server_connect hmac env set_single_cert config :: (('fd, unit) ke_server, rotate_error) result of
             Panic p \<Rightarrow> ([], Panicked p)
           | Err e \<Rightarrow> ([], Exit 1)
           | Ok server \<Rightarrow>
               (case ke_server_start benv server of
                  (_, threads, Ok _) \<Rightarrow> (threads, Returned)
                | (_, threads, Err e) \<Rightarrow> (threads, Exit 1)
                | (_, threads, Panic p) \<Rightarrow> (threads, Panicked p))))"

definition ntp_server_run ::
  "(bytes \<Rightarrow> bytes \<Rightarrow> bytes) \<Rightarrow> (nat \<Rightarrow> memcache \<times> systime) \<Rightarrow> config_files \<Rightarrow> 'fd ntp_start_env \<Rightarrow> arg_matches \<Rightarrow>
     thread list \<times> process_end" where
  "ntp_server_run hmac env files senv matches =
     (case ntp_server_config_parse files (ntp_config_filename matches) of
        Panic p \<Rightarrow> ([], Panicked p)
      | Err e \<Rightarrow> ([], Exit 1)
      | Ok config \<Rightarrow>
          (case start_ntp_server hmac env senv config of
             (threads, Ok _) \<Rightarrow> (threads, Returned)
           | (threads, Err e) \<Rightarrow> (threads, Exit 1)
           | (threads, Panic p) \<Rightarrow> (threads, Panicked p)))"

section \<open>A server\<close>

definition up_bind_env :: "unit bind_env" where
  "up_bind_env = \<lparr>bind_sock_ops = up_sock_ops, bind_poll_new = Ok (), bind_from_std = (\<lambda>_. Ok ()), bind_poll_register = Ok ()\<rparr>"

definition up_start_env :: "unit ntp_start_env" where
  "up_start_env = \<lparr>start_now = sample_now, upstream_bind = Ok (), upstream_set_timeout = Ok (), start_sock_ops = up_sock_ops\<rparr>"

lemma up_sockets_up: "sockets_up up_sock_ops"
  by (simp add: sockets_up_def up_sock_ops_def)

lemma up_binds_up: "binds_up up_bind_env"
  using up_sockets_up by (simp add: binds_up_def up_bind_env_def)

abbreviation sample_env :: "nat \<Rightarrow> memcache \<times> systime" where
  "sample_env \<equiv> \<lambda>_. (sample_memcache, sample_now)"

lemma sample_connects: "\<exists>rot. kr_connect sample_hmac sample_env pre url key = Ok rot"
  unfolding kr_connect_def
  by (rule connect_loop_succeeds [of _ _ _ 1])
    (auto simp: sample_memcache_def sample_now_def maximum_try_def synchronised_def fetched_def initial_rotator_def)

section \<open>Properties\<close>

text \<open>
  C29: The NTP server starts as configured. Once the rotator is connected and the upstream socket can be had, there is a rotation
  thread, a thread that follows the upstream server exactly when one is configured, a metrics thread exactly
  when that is, and one serving thread per configured address, in order and for the right IP version; when the socket of
  an address cannot be had, the threads for the addresses before it are there and the error is returned. The threads share the connected rotator with its latest key and a state that
  is that of a synchronised stratum 1 server without upstream server, and that of an unsynchronised server of stratum 16 with one,
  in all ten fields. With them every plain client request is answered, with this leap indicator and stratum and the request's transmit timestamp as its origin.
\<close>

theorem ntp_server_starts:
  assumes "kr_connect hmac env KEY_PREFIX (nc_memcached_url config) (nc_cookie_key config) = Ok rot"
    and "upstream_bind senv = Ok ()" and "upstream_set_timeout senv = Ok ()"
  shows "\<exists>shared threads r. start_ntp_server hmac env senv config =
      (RotateThread #
       (case nc_upstream_addr config of Some a \<Rightarrow> [RefreshThread a] | None \<Rightarrow> []) @
       (case nc_metrics_config config of Some m \<Rightarrow> [MetricsThread m] | None \<Rightarrow> []) @ threads, r) \<and>
    threads = map (\<lambda>a. ServeThread a (is_ipv4 a)) (takeWhile (\<lambda>a. is_ok (udp_listen (start_sock_ops senv) a)) (nc_addrs config)) \<and>
    (case dropWhile (\<lambda>a. is_ok (udp_listen (start_sock_ops senv) a)) (nc_addrs config) of
       [] \<Rightarrow> r = Ok shared
     | a # _ \<Rightarrow> (case udp_listen (start_sock_ops senv) a of Err e \<Rightarrow> r = Err e | Panic p \<Rightarrow> r = Panic p | Ok _ \<Rightarrow> False)) \<and>
    ns_keys shared = \<lparr>lock_val = rot, lock_poisoned = False\<rparr> \<and> latest_key_id rot \<in> dom (cache rot) \<and>
    ns_servstate shared = \<lparr>lock_val =
      \<lparr>ss_leap = (if nc_upstream_addr config = None then NoLeap else LeapUnknown),
       ss_stratum = (if nc_upstream_addr config = None then 1 else 16), ss_version = 4, ss_poll = 7, ss_precision = - 18,
       ss_root_delay = 10, ss_root_dispersion = 10, ss_refid = 0, ss_refstamp = 0, ss_taken = start_now senv\<rparr>,
      lock_poisoned = False\<rparr> \<and>
    (\<forall>A e query p t2 t w ip. parse_ntp_packet query = Ok p \<longrightarrow> mode (ntp_header p) = Client \<longrightarrow> \<not> is_nts_packet p \<longrightarrow>
       clock_ok t2 \<longrightarrow> clock_ok t \<longrightarrow> measuring e w ip \<longrightarrow>
       (\<exists>w' data h. response A e query t2 t (ns_keys shared) (ns_servstate shared) w = (w', Ok data) \<and>
          parse_ntp_packet data = Ok \<lparr>ntp_header = h, exts = []\<rparr> \<and>
          leap_indicator h = (if nc_upstream_addr config = None then NoLeap else LeapUnknown) \<and>
          stratum h = (if nc_upstream_addr config = None then 1 else 16) \<and>
          origin_timestamp h = transmit_timestamp (ntp_header p)))"
proof -
  let ?up = "nc_upstream_addr config \<noteq> None"
  let ?shared = "\<lparr>ns_keys = new_lock rot, ns_servstate = start_servstate ?up (start_now senv)\<rparr>"
  let ?served = "serve_addresses (start_sock_ops senv) (nc_addrs config)"
  have "start_upstream senv (nc_upstream_addr config) =
      Ok (case nc_upstream_addr config of Some a \<Rightarrow> [RefreshThread a] | None \<Rightarrow> [])"
    using assms(2,3) by (simp add: start_upstream_def split: option.split)
  then have 1: "start_ntp_server hmac env senv config =
      (RotateThread #
       (case nc_upstream_addr config of Some a \<Rightarrow> [RefreshThread a] | None \<Rightarrow> []) @
       (case nc_metrics_config config of Some m \<Rightarrow> [MetricsThread m] | None \<Rightarrow> []) @ fst ?served,
       bind_r (snd ?served) (\<lambda>_. Ok ?shared))"
    by (simp add: start_ntp_server_def assms(1) Let_def metrics_threads_def split: prod.split)
  have 2: "latest_key_id rot \<in> dom (cache rot)" using kr_connect_up [OF assms(1)] by (auto simp: rotator_up_def new_lock_def)
  show ?thesis
    by (intro exI [of _ ?shared] exI [of _ "fst ?served"] exI [of _ "bind_r (snd ?served) (\<lambda>_. Ok ?shared)"] conjI 1 2
        serve_addresses_outcome allI impI start_state_answers refl)
      (simp_all add: serve_addresses_eq start_servstate_def initial_servstate_def new_lock_def VERSION_def)
qed

theorem ntp_server_starts_witness:
  "\<exists>shared. start_ntp_server sample_hmac sample_env up_start_env
       (ntp_server_config_new (CookieKey []) ''memcache://h'' None None
          \<lparr>nc_addrs := [SocketAddr (IpV4 (Ipv4Addr 127 0 0 1)) 123]\<rparr>) =
     ([RotateThread, ServeThread (SocketAddr (IpV4 (Ipv4Addr 127 0 0 1)) 123) True], Ok shared) \<and>
     ss_leap (lock_val (ns_servstate shared)) = NoLeap \<and>
     (\<exists>w' data h. response checksum_aead up_env (serialize_header sample_header) sample_now sample_now
        (ns_keys shared) (ns_servstate shared) up_world = (w', Ok data) \<and>
        parse_ntp_packet data = Ok \<lparr>ntp_header = h, exts = []\<rparr> \<and> leap_indicator h = NoLeap \<and> stratum h = 1 \<and> origin_timestamp h = 42)"
proof -
  let ?a = "SocketAddr (IpV4 (Ipv4Addr 127 0 0 1)) 123"
  let ?c = "ntp_server_config_new (CookieKey []) ''memcache://h'' None None\<lparr>nc_addrs := [?a]\<rparr>"
  obtain rot where r: "kr_connect sample_hmac sample_env KEY_PREFIX (nc_memcached_url ?c) (nc_cookie_key ?c) = Ok rot"
    using sample_connects by blast
  have u: "is_ok (udp_listen (start_sock_ops up_start_env) a)" for a
    using sockets_up_listen(2) [OF up_sockets_up] by (auto simp: up_start_env_def is_ok_iff)
  have e: "upstream_bind up_start_env = Ok ()" "upstream_set_timeout up_start_env = Ok ()" by (simp_all add: up_start_env_def)
  have c: "nc_upstream_addr ?c = None" "nc_metrics_config ?c = None" "nc_addrs ?c = [?a]" by (simp_all add: ntp_server_config_new_def)
  have q: "parse_ntp_packet (serialize_header sample_header) = Ok \<lparr>ntp_header = sample_header, exts = []\<rparr>"
    by (rule parse_header_only) (simp add: sample_header_def VERSION_def)
  have h: "mode sample_header = Client" "transmit_timestamp sample_header = 42" "\<not> is_nts_packet \<lparr>ntp_header = sample_header, exts = []\<rparr>"
    by (simp_all add: sample_header_def is_nts_packet_def has_extension_def)
  have m: "measuring up_env up_world ''192.0.2.1''" by (simp add: measuring_def up_env_def up_world_def up_channel_def)
  have k: "clock_ok sample_now" using up_serving by (simp add: serving_def)
  obtain shared where s: "start_ntp_server sample_hmac sample_env up_start_env ?c = ([RotateThread, ServeThread ?a True], Ok shared)"
    "ss_leap (lock_val (ns_servstate shared)) = NoLeap"
    "\<forall>A e query p t2 t w ip. parse_ntp_packet query = Ok p \<longrightarrow> mode (ntp_header p) = Client \<longrightarrow> \<not> is_nts_packet p \<longrightarrow>
       clock_ok t2 \<longrightarrow> clock_ok t \<longrightarrow> measuring e w ip \<longrightarrow>
       (\<exists>w' data h. response A e query t2 t (ns_keys shared) (ns_servstate shared) w = (w', Ok data) \<and>
          parse_ntp_packet data = Ok \<lparr>ntp_header = h, exts = []\<rparr> \<and> leap_indicator h = NoLeap \<and> stratum h = 1 \<and>
          origin_timestamp h = transmit_timestamp (ntp_header p))"
    using ntp_server_starts [OF r e] unfolding c by (auto simp: u)
  from s(3) [rule_format, OF q _ _ k k m] s(1,2) show ?thesis by (auto simp: h)
qed

text \<open>
  C30: The NTS-KE server starts as configured: once connected, with sockets to be had, it has one
  fresh listener per configured address, in order, each with its own thread next to the rotation
  thread and the metrics thread if one is configured; it speaks TLS 1.3 and the protocol ntske/1 only, with the
  configured certificates; and its rotator has its latest key.
\<close>

theorem ke_server_starts:
  fixes server :: "('fd, 's) ke_server"
  assumes "ke_server_connect hmac env set_single_cert config = Ok server" and "binds_up benv"
  shows "\<exists>server'. ke_server_start benv server =
      (server', RotateThread #
         (case kc_metrics_config config of Some m \<Rightarrow> [MetricsThread m] | None \<Rightarrow> []) @
         map ListenThread [0..<length (kc_addrs config)], Ok ()) \<and>
    map lst_addr (ks_listeners server') = kc_addrs config \<and> list_all listener_init (ks_listeners server') \<and>
    tls_versions (ks_tls_server_config (ks_state server')) = [TLSv1_3] \<and>
    tls_protocols (ks_tls_server_config (ks_state server')) = [''ntske/1''] \<and>
    tls_cert_chain (ks_tls_server_config (ks_state server')) = kc_tls_certs config \<and>
    rotator_up (ks_rotator (ks_state server'))"
proof -
  note c = ke_server_connect_Ok [OF assms(1)]
  obtain ls where ls: "bind_listeners benv (kc_addrs config) server = (server\<lparr>ks_listeners := ks_listeners server @ ls\<rparr>, Ok ())"
      "map lst_addr ls = kc_addrs config" "list_all listener_init ls"
    using bind_listeners_Ok [OF assms(2)] by blast
  have len: "length ls = length (kc_addrs config)" using ls(2) by (metis length_map)
  show ?thesis
    using c ls len by (auto simp: ke_server_start_def metrics_threads_def Let_def)
qed

theorem ke_server_starts_witness:
  "\<exists>server server' :: (unit, unit) ke_server.
     ke_server_connect sample_hmac sample_env (\<lambda>_ _. Ok ())
       (ke_server_config_new 30 (CookieKey []) ''memcache://h'' None 123
          \<lparr>kc_tls_secret_keys := [[8]], kc_addrs := [SocketAddr (IpV4 (Ipv4Addr 127 0 0 1)) 4460]\<rparr>) = Ok server \<and>
     ke_server_start up_bind_env server = (server', [RotateThread, ListenThread 0], Ok ())"
proof -
  let ?c = "ke_server_config_new 30 (CookieKey []) ''memcache://h'' None 123
      \<lparr>kc_tls_secret_keys := [[8]], kc_addrs := [SocketAddr (IpV4 (Ipv4Addr 127 0 0 1)) 4460]\<rparr>"
  obtain server :: "(unit, unit) ke_server" where s: "ke_server_connect sample_hmac sample_env (\<lambda>_ _. Ok ()) ?c = Ok server"
    using sample_connects [of KEY_PREFIX "kc_memcached_url ?c" "kc_cookie_key ?c"]
    by (auto simp: ke_server_connect_def make_tls_server_config_def index_r_def ke_server_config_new_def)
  from ke_server_starts [OF s up_binds_up] s show ?thesis by (auto simp: ke_server_config_new_def)
qed

text \<open>
  A key file without a PKCS 8 private key, for example with an RSA key in the older PEM
  format, is accepted by the configuration parser, and the server then panics when it indexes
  the empty list of keys, instead of reporting an error.
\<close>

lemma missing_secret_key_panics:
  assumes "build_settings files filename = Ok s" and "ke_server_config_parse files filename = Ok config"
    and "get_string s ''tls_key_file'' = Ok f" and "pem_keys files f = Ok (Some [])"
    and "kr_connect hmac env KEY_PREFIX (kc_memcached_url config) (kc_cookie_key config) = Ok rot"
  shows "panics (ke_server_connect hmac env set_single_cert config)"
proof -
  have "kc_tls_secret_keys config = []" using ke_server_config_parse_Ok(7) [OF assms(1,2)] assms(3,4) by auto
  then show ?thesis using assms(5) by (simp add: ke_server_connect_def make_tls_server_config_def index_r_def)
qed

lemma missing_secret_key_panics_witness:
  "\<exists>config. ke_server_config_parse (sample_files\<lparr>pem_keys := \<lambda>_. Ok (Some [])\<rparr>) ''ke.yaml'' = Ok config \<and>
     panics (ke_server_connect sample_hmac sample_env (\<lambda>_ _. Ok ()) config)"
proof -
  let ?f = "sample_files\<lparr>pem_keys := \<lambda>_. Ok (Some [])\<rparr>"
  obtain c where c: "ke_server_config_parse ?f ''ke.yaml'' = Ok c"
    by (simp add: ke_server_config_parse_def sample_files_def sample_settings_def parse_next_port_def u16_try_from_def
      parse_timeout_def cookie_key_parse_def wrap_err_def import_tls_certs_def import_tls_secret_keys_def
      parse_sock_addr_def sample_address Let_def)
  obtain rot where r: "kr_connect sample_hmac sample_env KEY_PREFIX (kc_memcached_url c) (kc_cookie_key c) = Ok rot"
    using sample_connects by blast
  have "build_settings ?f ''ke.yaml'' = Ok sample_settings" "get_string sample_settings ''tls_key_file'' = Ok ''tls_key_file''"
    "pem_keys ?f ''tls_key_file'' = Ok (Some [])" by (simp_all add: sample_files_def sample_settings_def)
  from missing_secret_key_panics [OF this(1) c this(2,3) r] c show ?thesis by blast
qed

end
