(* ===== verification/Ke_Client.thy ===== *)
theory Ke_Client
  imports Ke_Connection_Props Net_Text
begin

text \<open>
  \<^verbatim>\<open>src/src/nts_ke/client.rs\<close>: the NTS-KE client, from the configuration to the result it hands to
  the NTP client. The resolver, the sockets, the root store and the TLS session are the
  environment. The lemmas relate its loop to the records on the wire and to the server's answer.
\<close>

section \<open>Definitions\<close>

definition DEFAULT_NTP_PORT :: u16 where "DEFAULT_NTP_PORT = 123"
definition DEFAULT_KE_PORT :: u16 where "DEFAULT_KE_PORT = 4460"
definition DEFAULT_SCHEME :: u16 where "DEFAULT_SCHEME = 0"

record client_config =
  cc_host :: string
  cc_port :: "string option"
  cc_trusted_cert :: "bytes option"
  cc_use_ipv4 :: "bool option"

record nts_ke_result =
  res_cookies :: "bytes list"
  res_next_protocols :: "u16 list"
  res_aead_scheme :: u16
  res_next_server :: string
  res_next_port :: u16
  res_keys :: nts_keys
  res_use_ipv4 :: "bool option"

text \<open>\<^verbatim>\<open>Box<dyn Error>\<close>: the errors that are boxed here.\<close>

datatype ke_client_error =
    KeIo io_error
  | KeParse nts_ke_parse_error
  | KeParseInt parse_int_error
  | KeWebpki string

text \<open>
  The outside of one exchange: the root store, the resolver, the TCP and TLS calls, and the
  plaintext the peer sends until reading fails with \<open>tls_end\<close> (end of file, a timeout, ...).
\<close>

record ke_client_env =
  root_store_add :: "bytes \<Rightarrow> (unit, string) result"
  dns_name_valid :: "string \<Rightarrow> bool"
  to_socket_addrs :: "string \<Rightarrow> u16 \<Rightarrow> (socket_addr list, io_error) result"
  connect_timeout :: "socket_addr \<Rightarrow> (unit, io_error) result"
  set_read_timeout :: "(unit, io_error) result"
  set_write_timeout :: "(unit, io_error) result"
  tls_write :: "bytes \<Rightarrow> (nat, io_error) result"
  tls_flush :: "(unit, io_error) result"
  client_export :: "bytes \<Rightarrow> bytes option \<Rightarrow> (bytes, tls_error) result"
  tls_incoming :: bytes
  tls_end :: io_error
  shutdown_write :: "(unit, io_error) result"

definition client_port :: "client_config \<Rightarrow> (u16, ke_client_error) result" where
  "client_port cfg =
     (case cc_port cfg of Some p \<Rightarrow> map_err KeParseInt (parse_u16 p) | None \<Rightarrow> Ok DEFAULT_KE_PORT)"

text \<open>The address to connect to.\<close>

definition select_addr ::
  "'e \<Rightarrow> 'e \<Rightarrow> bool option \<Rightarrow> socket_addr list \<Rightarrow> (socket_addr option, 'e) result" where
  "select_addr no_v4 no_v6 use_ipv4 addrs =
     (case use_ipv4 of
        Some True \<Rightarrow> (case find is_ipv4 addrs of None \<Rightarrow> Err no_v4 | Some a \<Rightarrow> Ok (Some a))
      | Some False \<Rightarrow> (case find is_ipv6 addrs of None \<Rightarrow> Err no_v6 | Some a \<Rightarrow> Ok (Some a))
      | None \<Rightarrow> Ok (case addrs of [] \<Rightarrow> None | a # _ \<Rightarrow> Some a))"

definition client_request :: "(bytes, 'e) result" where
  "client_request =
     bind_r (serialize next_protocol_trait (NextProtocolRecord [Ntpv4])) (\<lambda>next_protocol_record.
     bind_r (serialize aead_algorithm_trait (AeadAlgorithmRecord [AeadAesSivCmac256])) (\<lambda>aead_record.
     bind_r (serialize end_of_message_trait EndOfMessageRecord) (\<lambda>end_record.
     Ok (next_protocol_record @ aead_record @ end_record))))"

text \<open>\<^verbatim>\<open>read_exact\<close> on the plaintext still to come.\<close>

definition tls_read_exact :: "io_error \<Rightarrow> nat \<Rightarrow> bytes \<Rightarrow> (bytes \<times> bytes, ke_client_error) result" where
  "tls_read_exact fin n incoming =
     (if n \<le> length incoming then Ok (take n incoming, drop n incoming) else Err (KeIo fin))"

function client_loop ::
  "io_error \<Rightarrow> bytes \<Rightarrow> received_nts_ke_record_state \<Rightarrow>
     (received_nts_ke_record_state, ke_client_error) result" where
  "client_loop fin incoming st =
     (if finished st then Ok st
      else bind_r (tls_read_exact fin KE_HEADER_SIZE incoming) (\<lambda>(header, incoming).
        let body_len = unat (u16_from_be [header ! 2, header ! 3]) in
        bind_r (tls_read_exact fin body_len incoming) (\<lambda>(body, incoming).
        case deserialize Party_Client (header @ body) of
          Ok record \<Rightarrow>
            (case process_record record st of
               (st', Ok _) \<Rightarrow> client_loop fin incoming st'
             | (st', Err err) \<Rightarrow> Err (KeParse err)
             | (st', Panic p) \<Rightarrow> Panic p)
        | Err UnknownNotCriticalRecord \<Rightarrow> client_loop fin incoming st
        | Err UnknownCriticalRecord \<Rightarrow> Err (KeIo (Io_Error Other ''unknown critical record''))
        | Err (Parsing msg) \<Rightarrow> Err (KeIo (Io_Error Other msg))
        | Panic p \<Rightarrow> Panic p)))"
  by pat_completeness auto
termination
  by (relation "measure (\<lambda>(_, i, _). length i)") (auto simp: tls_read_exact_def KE_HEADER_SIZE_def split: if_splits)

declare client_loop.simps [simp del]

definition run_nts_ke_client ::
  "ke_client_env \<Rightarrow> client_config \<Rightarrow> (nts_ke_result, ke_client_error) result" where
  "run_nts_ke_client env cfg =
     bind_r (case cc_trusted_cert cfg of
               Some cert \<Rightarrow> map_err KeWebpki (root_store_add env cert) | None \<Rightarrow> Ok ()) (\<lambda>_.
     if \<not> dns_name_valid env (cc_host cfg) then Panic ''server hostname is invalid''
     else
       bind_r (client_port cfg) (\<lambda>port.
       bind_r (map_err KeIo (to_socket_addrs env (cc_host cfg) port)) (\<lambda>ip_addrs.
       bind_r (select_addr (KeParse NoIpv4AddrFound) (KeParse NoIpv6AddrFound) (cc_use_ipv4 cfg) ip_addrs) (\<lambda>addr.
       bind_r (unwrap_o addr) (\<lambda>addr.
       bind_r (map_err KeIo (connect_timeout env addr)) (\<lambda>_.
       bind_r (map_err KeIo (set_read_timeout env)) (\<lambda>_.
       bind_r (map_err KeIo (set_write_timeout env)) (\<lambda>_.
       bind_r client_request (\<lambda>clientrec.
       bind_r (map_err KeIo (tls_write env clientrec)) (\<lambda>_.
       bind_r (map_err KeIo (tls_flush env)) (\<lambda>_.
       bind_r (unwrap_r ''called `Result::unwrap()` on an `Err` value'' (gen_key (client_export env))) (\<lambda>keys.
       bind_r (client_loop (tls_end env) (tls_incoming env) empty_record_state) (\<lambda>state.
       bind_r (map_err KeIo (shutdown_write env)) (\<lambda>_.
       Ok \<lparr>res_cookies = cookies state, res_next_protocols = next_protocols state,
           res_aead_scheme = (case aead_scheme state of [] \<Rightarrow> DEFAULT_SCHEME | a # _ \<Rightarrow> a),
           res_next_server = (case next_server state of Some s \<Rightarrow> s | None \<Rightarrow> cc_host cfg),
           res_next_port = (case next_port state of Some p \<Rightarrow> p | None \<Rightarrow> DEFAULT_NTP_PORT),
           res_keys = keys, res_use_ipv4 = cc_use_ipv4 cfg\<rparr>))))))))))))))"

section \<open>The client loop\<close>

lemma client_loop_stop: "finished st \<Longrightarrow> client_loop fin r st = Ok st"
  by (simp add: client_loop.simps)

lemma client_loop_short: "\<not> finished st \<Longrightarrow> \<not> complete_record r \<Longrightarrow> client_loop fin r st = Err (KeIo fin)"
  by (auto simp: client_loop.simps [of fin r st] tls_read_exact_def KE_HEADER_SIZE_def complete_record_def
      body_length_def frame_header [of r, symmetric] Let_def)

lemma client_loop_step:
  assumes "\<not> finished st" and "complete_record r"
  shows "client_loop fin r st =
    (case deserialize Party_Client (first_record r) of
       Ok record \<Rightarrow>
         (case process_record record st of
            (st', Ok _) \<Rightarrow> client_loop fin (after_record r) st'
          | (st', Err err) \<Rightarrow> Err (KeParse err)
          | (st', Panic p) \<Rightarrow> Panic p)
     | Err UnknownNotCriticalRecord \<Rightarrow> client_loop fin (after_record r) st
     | Err UnknownCriticalRecord \<Rightarrow> Err (KeIo (Io_Error Other ''unknown critical record''))
     | Err (Parsing msg) \<Rightarrow> Err (KeIo (Io_Error Other msg))
     | Panic p \<Rightarrow> Panic p)"
proof -
  have l: "4 \<le> length r" "4 + body_length r \<le> length r" using assms(2) by (auto simp: complete_record_def)
  have b: "unat (u16_from_be [r ! 2, r ! 3]) = body_length r"
    using frame_header [OF l(1)] by (simp add: body_length_def)
  have l3: "body_length r \<le> length r - 4" using l by simp
  have f: "take 4 r @ take (body_length r) (drop 4 r) = first_record r"
    by (simp add: first_record_def take_add)
  have a: "drop (body_length r) (drop 4 r) = after_record r"
    by (simp add: after_record_def add.commute)
  show ?thesis
    using assms(1) l(1) l3
    by (subst client_loop.simps) (simp add: tls_read_exact_def KE_HEADER_SIZE_def Let_def b f a del: drop_drop)
qed

lemma client_loop_no_panic: "\<not> panics (client_loop fin r st)"
proof (induction r st rule: record_loop_induct)
  case (step r st)
  have d: "deserialize Party_Client (first_record r) \<noteq> Panic p" for p
    using deserialize_panics_iff [of Party_Client "first_record r"] complete_first [OF step(2)] by auto
  have p: "process_record rec st \<noteq> (st', Panic m)" for rec st' m
    using process_record_no_panic [of rec st] by auto
  show ?case
    unfolding client_loop_step [OF step(1,2)]
    using d p step(3) by (auto split: result.split prod.split deserialize_error.split)
qed (simp_all add: client_loop_stop client_loop_short)

lemma client_loop_records:
  "list_all wf_ke ks \<Longrightarrow> process_all (map (resend_ke Party_Client) ks) st = Some st' \<Longrightarrow>
     client_loop fin (concat (map ke_bytes ks) @ tail) st = client_loop fin tail st'"
proof (induction ks arbitrary: st)
  case (Cons k ks)
  note f = ke_bytes_frame [of k]
  have wf: "wf_ke k" using Cons.prems(1) by simp
  obtain st1 u where p: "process_record (resend_ke Party_Client k) st = (st1, Ok u)"
    "process_all (map (resend_ke Party_Client) ks) st1 = Some st'"
    using Cons.prems(2) by (auto split: prod.splits result.splits)
  have nf: "\<not> finished st" using process_record_Ok_unfinished [OF p(1)] .
  have "deserialize Party_Client (ke_bytes k) = Ok (resend_ke Party_Client k)"
    using deserialize_ke_bytes [OF wf, of Party_Client "[]"] by simp
  then have "client_loop fin (concat (map ke_bytes (k # ks)) @ tail) st = client_loop fin (concat (map ke_bytes ks) @ tail) st1"
    using client_loop_step [OF nf f(1) [OF wf, of "concat (map ke_bytes ks) @ tail"]] f(2,3) [OF wf] p(1)
    by simp
  also have "\<dots> = client_loop fin tail st'" using Cons.IH [OF _ p(2)] Cons.prems(1) by simp
  finally show ?case .
qed simp

lemma client_request_bytes: "client_request = Ok (concat (map ke_bytes request_records))"
proof -
  have "wf_ke (KeNextProtocol (NextProtocolRecord [Ntpv4]))" "wf_ke (KeAeadAlgorithm (AeadAlgorithmRecord [AeadAesSivCmac256]))"
    "wf_ke (KeEndOfMessage EndOfMessageRecord)"
    by (simp_all add: wf_next_protocol_def wf_aead_algorithm_def)
  from this [THEN serialize_ke_bytes [where 'a = 'a]] show ?thesis
    by (simp add: client_request_def request_records_def)
qed


section \<open>A whole exchange\<close>

text \<open>The network does its part for the client.\<close>

definition client_connects :: "ke_client_env \<Rightarrow> client_config \<Rightarrow> bool" where
  "client_connects env cfg \<longleftrightarrow>
     (case cc_trusted_cert cfg of Some c \<Rightarrow> root_store_add env c = Ok () | None \<Rightarrow> True) \<and>
     dns_name_valid env (cc_host cfg) \<and>
     (\<exists>port addrs a.
        client_port cfg = Ok port \<and> to_socket_addrs env (cc_host cfg) port = Ok addrs \<and>
        select_addr () () (cc_use_ipv4 cfg) addrs = Ok (Some a) \<and> connect_timeout env a = Ok ()) \<and>
     set_read_timeout env = Ok () \<and> set_write_timeout env = Ok () \<and>
     (\<forall>b. is_ok (tls_write env b)) \<and> tls_flush env = Ok () \<and> shutdown_write env = Ok ()"

definition client_result :: "client_config \<Rightarrow> nts_keys \<Rightarrow> received_nts_ke_record_state \<Rightarrow> nts_ke_result" where
  "client_result cfg keys state =
     \<lparr>res_cookies = cookies state, res_next_protocols = next_protocols state,
      res_aead_scheme = (case aead_scheme state of [] \<Rightarrow> DEFAULT_SCHEME | a # _ \<Rightarrow> a),
      res_next_server = (case next_server state of Some s \<Rightarrow> s | None \<Rightarrow> cc_host cfg),
      res_next_port = (case next_port state of Some p \<Rightarrow> p | None \<Rightarrow> DEFAULT_NTP_PORT),
      res_keys = keys, res_use_ipv4 = cc_use_ipv4 cfg\<rparr>"

lemma run_nts_ke_client_connected:
  assumes "client_connects env cfg" and k: "gen_key (client_export env) = Ok keys"
  shows "run_nts_ke_client env cfg =
    bind_r (client_loop (tls_end env) (tls_incoming env) empty_record_state) (\<lambda>state. Ok (client_result cfg keys state))"
proof -
  obtain port addrs a where port: "client_port cfg = Ok port"
    and addrs: "to_socket_addrs env (cc_host cfg) port = Ok addrs"
    and a: "select_addr () () (cc_use_ipv4 cfg) addrs = Ok (Some a)" "connect_timeout env a = Ok ()"
    using assms(1) by (auto simp: client_connects_def)
  have a': "select_addr (KeParse NoIpv4AddrFound) (KeParse NoIpv6AddrFound) (cc_use_ipv4 cfg) addrs = Ok (Some a)"
    using a(1) by (auto simp: select_addr_def split: option.splits bool.splits)
  obtain n where n: "tls_write env (concat (map ke_bytes request_records)) = Ok n"
    using assms(1) by (auto simp: client_connects_def is_ok_iff)
  have c: "(case cc_trusted_cert cfg of Some cert \<Rightarrow> map_err KeWebpki (root_store_add env cert) | None \<Rightarrow> Ok ()) = Ok ()"
    using assms(1) by (auto simp: client_connects_def split: option.splits)
  show ?thesis
    using assms(1) unfolding run_nts_ke_client_def c port client_request_bytes
    by (simp add: client_connects_def addrs a' a(2) n k client_result_def)
qed

lemma client_loop_response:
  assumes "aead_expands A" and "wf_keys keys" and "ke_nonces_ok env"
  shows "client_loop fin (concat (map ke_bytes (response_records A env keys rot port))) empty_record_state =
    Ok \<lparr>finished = True, next_protocols = [0], aead_scheme = [15],
           cookies = map (\<lambda>i. make_cookie A (ke_cookie_nonce env i) keys
             (the (kr_get rot (latest_key_id rot))) (latest_key_id rot)) [0..<8],
           next_server = None, next_port = Some port\<rparr>"
  using client_loop_records [OF wf_response_records [OF assms] process_response, of fin rot port "[]"]
  by (simp add: client_loop_stop del: upt_Suc)

text \<open>The server's side of the exchange: a new connection that reads the whole request.\<close>

lemma server_answers_request:
  assumes A: "aead_expands A" and up: "ke_serving env w rotator poll" and sound: "tls_sound ops"
    and log: "tls_log ops out" and init: "out (tls_session c) = []"
    and c: "conn_state c = TlsHandshaking" "ntske_state c = empty_record_state" "ntske_buffer c = []"
    and keys: "gen_key (export_keying_material ops (tls_session c)) = Ok keys" "wf_keys keys"
  obtains c' w' where
    "read_plaintext ops A rotator port env (concat (map ke_bytes request_records)) (c, w) =
       ((c', w'), Ok () :: (unit, io_error) result)"
    and "conn_state c' = ResponseSent"
    and "out (tls_session c') = concat (map ke_bytes (response_records A env keys (lock_val rotator) port))"
proof -
  have ke: "ke_nonces_ok env" "rotator_up rotator" "ke_measuring env w"
    using up by (simp_all add: ke_serving_def)
  let ?st = "\<lparr>finished = True, next_protocols = [0], aead_scheme = [15], cookies = [], next_server = None,
           next_port = None\<rparr>"
  have l: "record_loop (concat (map ke_bytes request_records)) empty_record_state =
      (?st, Ok LoopDone :: (loop_exit, io_error) result)"
    using record_loop_records [OF wf_request_records process_request, of "[]"] by (simp add: record_loop_stop)
  obtain w' where r: "ke_response A env keys rotator port w =
      (w', Ok (concat (map ke_bytes (response_records A env keys (lock_val rotator) port))) :: (bytes, io_error) result)"
    by (rule ke_response_Ok [OF A keys(2) ke])
  obtain s where s: "write_all ops (concat (map ke_bytes (response_records A env keys (lock_val rotator) port))) (tls_session c) = (s, Ok ())"
    using sound unfolding tls_sound_def is_ok_iff by (metis old.unit.exhaust prod.collapse)
  let ?c = "(with_plaintext (concat (map ke_bytes request_records)) c)\<lparr>ntske_state := ?st, tls_session := s,
      conn_state := ResponseSent\<rparr>"
  have "read_plaintext ops A rotator port env (concat (map ke_bytes request_records)) (c, w) =
      ((?c, w'), Ok () :: (unit, io_error) result)"
    using c l r s by (simp add: read_plaintext_after_loop [OF keys(1)] after_loop_def send_response_def)
  moreover have "out s = concat (map ke_bytes (response_records A env keys (lock_val rotator) port))"
    using tls_logD(6) [OF log s] init by simp
  ultimately show thesis using that [of ?c w'] by simp
qed

end
