(* ===== verification/Ntp_Client.thy ===== *)
theory Ntp_Client
  imports Ntp_Server_Props Ke_Client
begin

text \<open>
  \<^verbatim>\<open>src/src/ntp/client.rs\<close>: the NTS-protected NTP client. The resolver, the socket, the random bytes
  and the clock are the environment. The lemmas bound the error of the floating-point clock
  arithmetic and describe which replies the client accepts.
\<close>

section \<open>Definitions\<close>

definition BUFF_SIZE :: nat where "BUFF_SIZE = 2048"

record ntp_result =
  result_stratum :: u8
  time_diff :: f64

datatype ntp_client_error = NtpNoIpv4AddrFound | NtpNoIpv6AddrFound | InvalidUid

datatype ntp_client_failure = NtpIo io_error | NtpClientError ntp_client_error

definition system_to_ntpfloat :: "systime \<Rightarrow> (f64, 'e) result" where
  "system_to_ntpfloat time =
     (case duration_since time UNIX_EPOCH of
        None \<Rightarrow> Panic ''called `Result::unwrap()` on an `Err` value''
      | Some unix_time \<Rightarrow>
          bind_r (duration_add (duration_new UNIX_OFFSET 0) unix_time) (\<lambda>epoch_time.
          Ok (fadd (f64_of_nat (unat (as_secs epoch_time)))
                   (fdiv (f64_of_nat (unat (subsec_nanos epoch_time))) 1000000000))))"

definition timestamp_to_float :: "u64 \<Rightarrow> f64" where
  "timestamp_to_float time =
     (let ts_secs = drop_bit 32 time; ts_frac = time - push_bit 32 ts_secs
      in fadd (f64_of_nat (unat ts_secs)) (fdiv (f64_of_nat (unat ts_frac)) TWO_POW_32))"

text \<open>
  The outside of one query: the resolver, the socket calls, the random bytes, the clock before the
  send and after the receive, and the datagram received.
\<close>

record ntp_client_env =
  ntp_to_socket_addrs :: "string \<Rightarrow> u16 \<Rightarrow> (socket_addr list, io_error) result"
  udp_bind :: "bool \<Rightarrow> (unit, io_error) result" \<comment> \<open>for IPv4 or for IPv6\<close>
  udp_set_read_timeout :: "(unit, io_error) result"
  udp_set_write_timeout :: "(unit, io_error) result"
  random_unique_id :: bytes
  udp_connect :: "socket_addr \<Rightarrow> (unit, io_error) result"
  random_nonce :: bytes
  t1_now :: systime
  udp_send :: "bytes \<Rightarrow> (unit, io_error) result"
  udp_recv :: "(bytes, io_error) result"
  t4_now :: systime

definition client_header :: ntp_packet_header where
  "client_header =
     \<lparr>leap_indicator = NoLeap, version = 4, mode = Client, stratum = 0, poll = 0, precision = 0x20,
      root_delay = 0, root_dispersion = 0, reference_id = 0, reference_timestamp = 0xdeadbeef,
      origin_timestamp = 0, receive_timestamp = 0, transmit_timestamp = 0\<rparr>"

definition client_packet :: "bytes \<Rightarrow> bytes \<Rightarrow> nts_packet" where
  "client_packet unique_id cookie =
     \<lparr>nts_header = client_header,
      auth_exts = [\<lparr>ext_type = UniqueIdentifier, contents = unique_id\<rparr>,
                   \<lparr>ext_type = NTSCookie, contents = cookie\<rparr>],
      auth_enc_exts = []\<rparr>"

text \<open>The address, and whether the socket is bound for IPv4.\<close>

definition select_socket ::
  "bool option \<Rightarrow> socket_addr list \<Rightarrow> (socket_addr option \<times> bool, ntp_client_failure) result" where
  "select_socket use_ipv4 addrs =
     (case use_ipv4 of
        Some True \<Rightarrow>
          (case find is_ipv4 addrs of
             None \<Rightarrow> Err (NtpClientError NtpNoIpv4AddrFound) | Some a \<Rightarrow> Ok (Some a, True))
      | Some False \<Rightarrow>
          (case find is_ipv6 addrs of
             None \<Rightarrow> Err (NtpClientError NtpNoIpv6AddrFound) | Some a \<Rightarrow> Ok (Some a, False))
      | None \<Rightarrow>
          (case addrs of
             [] \<Rightarrow> Panic ''called `Option::unwrap()` on a `None` value''
           | a # _ \<Rightarrow> Ok (Some a, \<not> is_ipv6 a)))"

definition ntp_client_reply ::
  "aead \<Rightarrow> nts_keys \<Rightarrow> bytes \<Rightarrow> f64 \<Rightarrow> f64 \<Rightarrow> bytes \<Rightarrow> (ntp_result, ntp_client_failure) result" where
  "ntp_client_reply A keys unique_id t1 t4 buff =
     bind_r (map_err NtpIo (parse_nts_packet A (s2c keys) buff)) (\<lambda>packet.
     bind_r (index_r (auth_exts packet) 0) (\<lambda>ext.
     if contents ext \<noteq> unique_id then Err (NtpClientError InvalidUid)
     else Ok \<lparr>result_stratum = stratum (nts_header packet),
              time_diff =
                fdiv (fadd (fsub (timestamp_to_float (receive_timestamp (nts_header packet))) t1)
                           (fsub (timestamp_to_float (transmit_timestamp (nts_header packet))) t4)) 2\<rparr>))"

definition run_nts_ntp_client ::
  "aead \<Rightarrow> ntp_client_env \<Rightarrow> nts_ke_result \<Rightarrow> (ntp_result, ntp_client_failure) result" where
  "run_nts_ntp_client A env state =
     bind_r (map_err NtpIo (ntp_to_socket_addrs env (res_next_server state) (res_next_port state))) (\<lambda>ip_addrs.
     bind_r (select_socket (res_use_ipv4 state) ip_addrs) (\<lambda>(addr, v4).
     bind_r (unwrap_r ''called `Result::unwrap()` on an `Err` value'' (udp_bind env v4)) (\<lambda>_.
     bind_r (map_err NtpIo (udp_set_read_timeout env)) (\<lambda>_.
     bind_r (map_err NtpIo (udp_set_write_timeout env)) (\<lambda>_.
     bind_r (index_r (res_cookies state) 0) (\<lambda>cookie.
     bind_r (unwrap_o addr) (\<lambda>addr.
     bind_r (map_err NtpIo (udp_connect env addr)) (\<lambda>_.
     bind_r (serialize_nts_packet A (c2s (res_keys state)) (random_nonce env)
               (client_packet (random_unique_id env) cookie)) (\<lambda>wire_packet.
     bind_r (system_to_ntpfloat (t1_now env)) (\<lambda>t1.
     bind_r (map_err NtpIo (udp_send env wire_packet)) (\<lambda>_.
     bind_r (map_err NtpIo (udp_recv env)) (\<lambda>datagram.
     bind_r (system_to_ntpfloat (t4_now env)) (\<lambda>t4.
     ntp_client_reply A (res_keys state) (random_unique_id env) t1 t4 (take BUFF_SIZE datagram))))))))))))))"


section \<open>Accuracy\<close>

lemma fl_error_abs: "\<bar>fl q - q\<bar> \<le> \<bar>q\<bar> / 2 ^ 53"
proof (cases "0 \<le> q")
  case False
  then have "fl q = - fl (- q)" by (simp add: fl_def)
  with fl_error [of "- q"] False show ?thesis by simp
qed (use fl_error in simp)

lemma fl_error_bound: "\<bar>q\<bar> \<le> 2 ^ k \<Longrightarrow> \<bar>fl q - q\<bar> \<le> 2 ^ k / 2 ^ 53"
  using fl_error_abs [of q] by (meson divide_right_mono order_trans zero_le_numeral zero_le_power)

lemma abs_chain: "\<bar>a - b\<bar> \<le> e \<Longrightarrow> \<bar>b - c\<bar> \<le> d \<Longrightarrow> e + d \<le> g \<Longrightarrow> \<bar>a - c\<bar> \<le> (g :: rat)"
  by linarith

lemma timestamp_halves:
  "unat (drop_bit 32 (ts :: u64)) = unat ts div 2 ^ 32"
  "unat (ts - push_bit 32 (drop_bit 32 ts)) = unat ts mod 2 ^ 32"
proof -
  show d: "unat (drop_bit 32 ts) = unat ts div 2 ^ 32"
    by (simp add: drop_bit_eq_div unat_div)
  have lt: "unat ts div 2 ^ 32 * 2 ^ 32 \<le> unat ts" by simp
  have "unat ts < 2 ^ 64" using unsigned_less [of ts] by simp
  with lt have lt': "unat ts div 2 ^ 32 * 2 ^ 32 < 2 ^ 64" by (rule le_less_trans)
  have p: "unat (push_bit 32 (drop_bit 32 ts)) = unat ts div 2 ^ 32 * 2 ^ 32"
    using lt' by (simp add: push_bit_eq_mult unat_word_ariths d)
  show "unat (ts - push_bit 32 (drop_bit 32 ts)) = unat ts mod 2 ^ 32"
    using lt p by (simp add: unat_sub word_le_nat_alt minus_div_mult_eq_mod)
qed

lemma timestamp_to_float_error:
  "\<bar>timestamp_to_float ts - of_nat (unat ts) / 2 ^ 32\<bar> \<le> 1 / 2 ^ 21"
proof -
  let ?n = "unat ts"
  have n: "?n < 2 ^ 64" using unsigned_less [of ts] by simp
  then have h: "?n div 2 ^ 32 < 2 ^ 32" by (simp add: div_less_iff_less_mult flip: power_add)
  have a: "f64_of_nat (?n div 2 ^ 32) = of_nat (?n div 2 ^ 32)"
    by (rule f64_of_nat_exact) (rule less_trans [OF h], simp)
  have l: "?n mod 2 ^ 32 < 2 ^ 53" by (rule less_trans [of _ "2 ^ 32"]) simp_all
  have b: "fdiv (f64_of_nat (?n mod 2 ^ 32)) TWO_POW_32 = of_nat (?n mod 2 ^ 32) / 2 ^ 32"
    using fdiv_two_power [OF l, of 32] f64_of_nat_exact [OF l] by (simp only: TWO_POW_32_def) simp
  have "(of_nat ?n :: rat) = of_nat (?n div 2 ^ 32 * 2 ^ 32 + ?n mod 2 ^ 32)" by simp
  also have "\<dots> = of_nat (?n div 2 ^ 32) * 2 ^ 32 + of_nat (?n mod 2 ^ 32)"
    by (simp only: of_nat_add of_nat_mult of_nat_power of_nat_numeral)
  finally have s: "of_nat (?n div 2 ^ 32) + of_nat (?n mod 2 ^ 32) / 2 ^ 32 = (of_nat ?n / 2 ^ 32 :: rat)"
    by (simp add: field_simps)
  have "(of_nat ?n :: rat) < of_nat (2 ^ 64)" using n by (simp only: of_nat_less_iff)
  moreover have "\<bar>x / 2 ^ 32\<bar> \<le> 2 ^ 32" if "x < of_nat (2 ^ 64)" "0 \<le> x" for x :: rat using that by simp
  ultimately have "\<bar>(of_nat ?n / 2 ^ 32 :: rat)\<bar> \<le> 2 ^ 32" by (metis of_nat_0_le_iff)
  from fl_error_bound [OF this] show ?thesis
    unfolding timestamp_to_float_def Let_def timestamp_halves a b fadd_def s by simp
qed

lemma system_to_ntpfloat_error:
  assumes "0 \<le> t" and "UNIX_OFFSET + secs_of t < 2 ^ 32"
  obtains v where "system_to_ntpfloat t = Ok v"
    and "\<bar>v - (of_nat UNIX_OFFSET + of_int t / 10 ^ 9)\<bar> \<le> 1 / 2 ^ 20"
proof -
  let ?s = "UNIX_OFFSET + secs_of t" and ?n = "nanos_of t"
  let ?d = "UNIX_OFFSET * 10 ^ 9 + nat t"
  have div: "?d div 10 ^ 9 = ?s" and mod: "?d mod 10 ^ 9 = ?n"
    by (simp_all add: secs_of_def nanos_of_def)
  have us: "unat (of_nat ?s :: u64) = ?s" "?s < 2 ^ 64" "?s < 2 ^ 53"
    using assms(2) by (simp_all add: unat_of_nat del: of_nat_add)
  have un: "unat (of_nat ?n :: u32) = ?n" using nanos_of_less [of t] by (simp add: unat_of_nat)
  let ?v = "fadd (of_nat ?s) (fdiv (of_nat ?n) 1000000000)"
  have n53: "?n < 2 ^ 53" using nanos_of_less [of t] by simp
  have v: "system_to_ntpfloat t = Ok ?v"
    using assms(1) div mod us
    unfolding system_to_ntpfloat_def duration_since_def UNIX_EPOCH_def duration_new_def duration_add_def
      as_secs_def subsec_nanos_def NANOS_PER_SEC_def Let_def
    by (simp add: un f64_of_nat_exact [OF n53] f64_of_nat_exact [OF us(3)] del: of_nat_add f64_of_nat_exact)
  have n: "(of_nat ?n :: rat) / 10 ^ 9 \<le> 1" "0 \<le> (of_nat ?n :: rat) / 10 ^ 9"
    using nanos_of_less [of t] by (simp_all flip: of_nat_less_iff)
  let ?f = "fdiv (of_nat ?n) 1000000000 :: rat"
  have e1: "\<bar>?f - of_nat ?n / 10 ^ 9\<bar> \<le> 1 / 2 ^ 53"
    using fl_error_bound [of "of_nat ?n / 10 ^ 9" 0] n by (simp add: fdiv_def)
  have s32: "(of_nat ?s :: rat) \<le> 2 ^ 32 - 1"
  proof -
    have "?s \<le> 2 ^ 32 - 1" using assms(2) by simp
    then have "(of_nat ?s :: rat) \<le> of_nat (2 ^ 32 - 1)" by (simp only: of_nat_le_iff)
    then show ?thesis by simp
  qed
  have "fl 1 = 1" using f64_of_nat_exact [of 1] by (simp add: f64_of_nat_def)
  then have f: "0 \<le> ?f" "?f \<le> 1"
    using fl_mono [of 0 "of_nat ?n / 10 ^ 9"] fl_mono [of "of_nat ?n / 10 ^ 9" 1] n by (simp_all add: fdiv_def)
  have "\<bar>x + y\<bar> \<le> 2 ^ 32" if "x \<le> 2 ^ 32 - 1" "0 \<le> y" "y \<le> 1" "0 \<le> x" for x y :: rat
    using that by simp
  from this [OF s32 f] have "\<bar>of_nat ?s + ?f\<bar> \<le> 2 ^ 32" by simp
  from fl_error_bound [OF this] have "\<bar>?v - (of_nat ?s + ?f)\<bar> \<le> 2 ^ 32 / 2 ^ 53"
    by (simp add: fadd_def)
  moreover have "\<bar>(of_nat ?s + ?f) - (of_nat ?s + of_nat ?n / 10 ^ 9)\<bar> \<le> 1 / 2 ^ 53" using e1 by simp
  ultimately have "\<bar>?v - (of_nat ?s + of_nat ?n / 10 ^ 9)\<bar> \<le> 1 / 2 ^ 20" by (rule abs_chain) simp
  moreover have "of_nat ?s + of_nat ?n / 10 ^ 9 = (of_nat UNIX_OFFSET + of_int t / 10 ^ 9 :: rat)"
    by (simp add: instant_split [OF assms(1)] add_divide_distrib)
  ultimately have "\<bar>?v - (of_nat UNIX_OFFSET + of_int t / 10 ^ 9)\<bar> \<le> 1 / 2 ^ 20" by (simp only:)
  with v show thesis by (rule that)
qed

lemma abs_half: "\<bar>p - p'\<bar> \<le> e \<Longrightarrow> \<bar>p / 2 - p' / 2\<bar> \<le> e / (2 :: rat)"
  by (simp flip: diff_divide_distrib)

lemma abs_half_sum:
  assumes "\<bar>p - p'\<bar> \<le> e" and "\<bar>q - q'\<bar> \<le> e'"
  shows "\<bar>(p + q) / 2 - (p' + q') / 2\<bar> \<le> (e + e') / (2 :: rat)"
proof (rule abs_half)
  show "\<bar>p + q - (p' + q')\<bar> \<le> e + e'" using assms by linarith
qed

lemma abs_diff: "\<bar>p - p'\<bar> \<le> e \<Longrightarrow> \<bar>q - q'\<bar> \<le> e' \<Longrightarrow> \<bar>(p - q) - (p' - q')\<bar> \<le> e + (e' :: rat)"
  by linarith

text \<open>The offset computed from four readings, each off by at most \<open>2^-20\<close> seconds.\<close>

lemma offset_error:
  fixes f2 f3 v1 v4 x1 x2 x3 x4 :: rat
  assumes e: "\<bar>f2 - x2\<bar> \<le> 1 / 1048576" "\<bar>v1 - x1\<bar> \<le> 1 / 1048576"
      "\<bar>f3 - x3\<bar> \<le> 1 / 1048576" "\<bar>v4 - x4\<bar> \<le> 1 / 1048576"
    and x: "0 \<le> x1" "x1 \<le> 4294967296" "0 \<le> x2" "x2 \<le> 4294967296"
      "0 \<le> x3" "x3 \<le> 4294967296" "0 \<le> x4" "x4 \<le> 4294967296"
  shows "\<bar>fdiv (fadd (fsub f2 v1) (fsub f3 v4)) 2 - ((x2 - x1) + (x3 - x4)) / 2\<bar> \<le> 1 / 65536"
proof -
  have fl: "\<bar>fl q - q\<bar> \<le> b / 9007199254740992" if "\<bar>q\<bar> \<le> b" for q b :: rat
    using fl_error_abs [of q] that by simp
  have b1: "\<bar>f2 - v1\<bar> \<le> 4294967297" using e(1,2) x(1-4) by linarith
  have b2: "\<bar>f3 - v4\<bar> \<le> 4294967297" using e(3,4) x(5-8) by linarith
  from b1 [THEN fl] b2 [THEN fl] have d: "\<bar>fsub f2 v1 - (f2 - v1)\<bar> \<le> 4294967297 / 9007199254740992"
    "\<bar>fsub f3 v4 - (f3 - v4)\<bar> \<le> 4294967297 / 9007199254740992" by (simp_all add: fsub_def)
  have b3: "\<bar>fsub f2 v1 + fsub f3 v4\<bar> \<le> 8589934595" using d b1 b2 by linarith
  from fl [OF b3] have s: "\<bar>fadd (fsub f2 v1) (fsub f3 v4) - (fsub f2 v1 + fsub f3 v4)\<bar> \<le> 8589934595 / 9007199254740992"
    by (simp add: fadd_def)
  let ?s = "fadd (fsub f2 v1) (fsub f3 v4)"
  have "\<bar>?s / 2\<bar> \<le> 8589934596" using s b3 by linarith
  from fl [OF this] have "\<bar>fdiv ?s 2 - ?s / 2\<bar> \<le> 8589934596 / 9007199254740992" by (simp add: fdiv_def)
  from abs_chain [OF this abs_half [OF s] order_refl]
  have "\<bar>fdiv ?s 2 - (fsub f2 v1 + fsub f3 v4) / 2\<bar> \<le> 8589934596 / 9007199254740992 + 8589934595 / 9007199254740992 / 2" .
  from abs_chain [OF this abs_half_sum [OF d] order_refl]
  have "\<bar>fdiv ?s 2 - ((f2 - v1) + (f3 - v4)) / 2\<bar> \<le> 1 / 131072" by simp
  from abs_chain [OF this abs_half_sum [OF abs_diff [OF e(1,2)] abs_diff [OF e(3,4)]] order_refl]
  show ?thesis by simp
qed

section \<open>A query\<close>

text \<open>The network does its part for the client, up to the receipt of a datagram.\<close>

definition ntp_online :: "ntp_client_env \<Rightarrow> string \<Rightarrow> u16 \<Rightarrow> bool option \<Rightarrow> bool" where
  "ntp_online env host port use_ipv4 \<longleftrightarrow>
     (\<exists>addrs a v4. ntp_to_socket_addrs env host port = Ok addrs \<and>
        select_socket use_ipv4 addrs = Ok (Some a, v4) \<and> udp_bind env v4 = Ok () \<and>
        udp_connect env a = Ok ()) \<and>
     udp_set_read_timeout env = Ok () \<and> udp_set_write_timeout env = Ok () \<and> (\<forall>b. udp_send env b = Ok ())"

lemma run_nts_ntp_client_online:
  assumes "ntp_online env (res_next_server state) (res_next_port state) (res_use_ipv4 state)" and "res_cookies state = cookie # cs"
    and "(serialize_nts_packet A (c2s (res_keys state)) (random_nonce env)
            (client_packet (random_unique_id env) cookie) :: (bytes, ntp_client_failure) result) = Ok query"
    and "system_to_ntpfloat (t1_now env) = (Ok t1 :: (f64, ntp_client_failure) result)"
    and "udp_recv env = Ok datagram"
    and "system_to_ntpfloat (t4_now env) = (Ok t4 :: (f64, ntp_client_failure) result)"
  shows "run_nts_ntp_client A env state =
    ntp_client_reply A (res_keys state) (random_unique_id env) t1 t4 (take BUFF_SIZE datagram)"
proof -
  obtain addrs a v4 where a: "ntp_to_socket_addrs env (res_next_server state) (res_next_port state) = Ok addrs"
      "select_socket (res_use_ipv4 state) addrs = Ok (Some a, v4)" "udp_bind env v4 = Ok ()" "udp_connect env a = Ok ()"
    and t: "udp_set_read_timeout env = Ok ()" "udp_set_write_timeout env = Ok ()" "udp_send env query = Ok ()"
    using assms(1) by (auto simp: ntp_online_def)
  show ?thesis
    unfolding run_nts_ntp_client_def using assms(2-6) by (simp add: a t index_r_def)
qed

lemma run_nts_ntp_client_OkE:
  assumes "run_nts_ntp_client A env state = Ok res"
  obtains datagram t1 t4 where "udp_recv env = Ok datagram"
    and "system_to_ntpfloat (t1_now env) = (Ok t1 :: (f64, ntp_client_failure) result)"
    and "system_to_ntpfloat (t4_now env) = (Ok t4 :: (f64, ntp_client_failure) result)"
    and "ntp_client_reply A (res_keys state) (random_unique_id env) t1 t4 (take BUFF_SIZE datagram) = Ok res"
  using assms unfolding run_nts_ntp_client_def by (auto simp: result_simps)

lemma ntp_client_reply_OkE:
  assumes "ntp_client_reply A keys uid t1 t4 buff = Ok res"
  obtains p where "parse_nts_packet A (s2c keys) buff = Ok p" and "auth_exts p \<noteq> []"
    and "contents (hd (auth_exts p)) = uid" and "result_stratum res = stratum (nts_header p)"
    and "time_diff res = fdiv (fadd (fsub (timestamp_to_float (receive_timestamp (nts_header p))) t1)
                           (fsub (timestamp_to_float (transmit_timestamp (nts_header p))) t4)) 2"
  using assms unfolding ntp_client_reply_def
  by (auto simp: result_simps index_r_def hd_conv_nth split: if_splits)

lemma client_packet_wf:
  "length uid = 32 \<Longrightarrow> length cookie = 100 \<Longrightarrow> wf_nts_packet (client_packet uid cookie)"
  by (simp add: wf_nts_packet_def client_packet_def client_header_def wf_ext_def nts_wire_size_def
      exts_size_def pad4_def Let_def)

lemma client_packet_request:
  assumes "aead_expands A" and "wf_keys keys" and "length uid = 32" and "length n = 16"
    and "kr_get rot kid = Some k"
  shows "request_for A rot keys (client_packet uid (make_cookie A n keys k kid))"
proof -
  have l: "length (make_cookie A n keys k kid) = 100"
    using length_make_cookie [OF assms(1,2,4)] by (simp add: COOKIE_SIZE_def)
  from client_packet_wf [OF assms(3) l] show ?thesis
    using assms(4,5) by (auto simp: request_for_def client_packet_def client_header_def)
qed

text \<open>The clock reads an instant of the first NTP era.\<close>

definition in_era :: "systime \<Rightarrow> bool" where
  "in_era t \<longleftrightarrow> 0 \<le> t \<and> UNIX_OFFSET + secs_of t < 2 ^ 32"

definition ntp_seconds :: "systime \<Rightarrow> rat" where
  "ntp_seconds t = of_nat UNIX_OFFSET + of_int t / 10 ^ 9"

lemma ntp_seconds_range: "in_era t \<Longrightarrow> 0 \<le> ntp_seconds t \<and> ntp_seconds t \<le> 4294967296"
proof -
  assume t: "in_era t"
  have "nat t < 2085978496 * 1000000000" if "nat t div 1000000000 < 2085978496"
    using that by (simp only: div_less_iff_less_mult)
  with t have "t \<le> (4294967296 - int UNIX_OFFSET) * 10 ^ 9"
    by (auto simp: in_era_def secs_of_def UNIX_OFFSET_def)
  then have "(of_int t :: rat) \<le> of_int ((4294967296 - int UNIX_OFFSET) * 10 ^ 9)" by (simp only: of_int_le_iff)
  then show ?thesis using t by (simp add: ntp_seconds_def in_era_def UNIX_OFFSET_def)
qed

lemma received_timestamp_error:
  assumes "in_era t"
  shows "\<bar>timestamp_to_float (timestamp_of t) - ntp_seconds t\<bar> \<le> 1 / 1048576"
proof (rule abs_chain [OF timestamp_to_float_error])
  have "\<bar>of_nat (unat (timestamp_of t)) / 2 ^ 32 - (of_nat UNIX_OFFSET + of_int t / 10 ^ 9)\<bar> < (6 / 10 / 2 ^ 32 :: rat)"
    using assms timestamp_of_error by (simp only: in_era_def)
  then show "\<bar>of_nat (unat (timestamp_of t)) / 2 ^ 32 - ntp_seconds t\<bar> \<le> 6 / 10 / 2 ^ 32"
    unfolding ntp_seconds_def by (rule less_imp_le)
qed simp

lemma ntpfloat_era:
  assumes "in_era t" and "system_to_ntpfloat t = (Ok v :: (f64, 'e) result)"
  shows "\<bar>v - ntp_seconds t\<bar> \<le> 1 / 1048576"
proof -
  obtain v' where "system_to_ntpfloat t = (Ok v' :: (f64, 'e) result)" "\<bar>v' - ntp_seconds t\<bar> \<le> 1 / 2 ^ 20"
    using system_to_ntpfloat_error [of t, where 'a = 'e] assms(1) unfolding in_era_def ntp_seconds_def by metis
  with assms(2) show ?thesis by simp
qed

text \<open>The four readings of a query, and the offset the client reports.\<close>

lemma reported_offset_error:
  assumes "in_era t1" and "in_era t2" and "in_era t3" and "in_era t4"
    and "system_to_ntpfloat t1 = (Ok v1 :: (f64, 'e) result)" and "system_to_ntpfloat t4 = (Ok v4 :: (f64, 'e) result)"
  shows "\<bar>fdiv (fadd (fsub (timestamp_to_float (timestamp_of t2)) v1) (fsub (timestamp_to_float (timestamp_of t3)) v4)) 2 -
      of_int ((t2 - t1) + (t3 - t4)) / (2 * 10 ^ 9)\<bar> \<le> 1 / 65536"
proof -
  have "((ntp_seconds t2 - ntp_seconds t1) + (ntp_seconds t3 - ntp_seconds t4)) / 2 =
      of_int ((t2 - t1) + (t3 - t4)) / (2 * 10 ^ 9)"
    by (simp add: ntp_seconds_def field_simps)
  with offset_error [OF received_timestamp_error ntpfloat_era received_timestamp_error ntpfloat_era,
      OF assms(2) assms(1,5) assms(3) assms(4,6)]
    assms(1-4) [THEN ntp_seconds_range]
  show ?thesis by simp
qed

text \<open>The offset of the timestamps of a received header, whoever made them.\<close>

lemma header_offset_error:
  assumes "in_era t1" and "in_era t4"
    and "system_to_ntpfloat t1 = (Ok v1 :: (f64, 'e) result)" and "system_to_ntpfloat t4 = (Ok v4 :: (f64, 'e) result)"
  shows "\<bar>fdiv (fadd (fsub (timestamp_to_float ts2) v1) (fsub (timestamp_to_float ts3) v4)) 2 -
      ((of_nat (unat ts2) / 2 ^ 32 - ntp_seconds t1) + (of_nat (unat ts3) / 2 ^ 32 - ntp_seconds t4)) / 2\<bar> \<le> 1 / 65536"
proof -
  have f: "\<bar>timestamp_to_float ts - of_nat (unat ts) / 2 ^ 32\<bar> \<le> 1 / 1048576" for ts
    by (rule order_trans [OF timestamp_to_float_error]) simp
  have r: "0 \<le> (of_nat (unat ts) / 2 ^ 32 :: rat) \<and> (of_nat (unat ts) / 2 ^ 32 :: rat) \<le> 4294967296" for ts :: u64
  proof -
    have "unat ts < 2 ^ 64" using unsigned_less [of ts] by simp
    then have "unat ts \<le> 2 ^ 64" by (rule less_imp_le)
    then have "(of_nat (unat ts) :: rat) \<le> of_nat (2 ^ 64)" by (simp only: of_nat_le_iff)
    moreover have "0 \<le> x / 2 ^ 32 \<and> x / 2 ^ 32 \<le> 4294967296" if "x \<le> of_nat (2 ^ 64)" "0 \<le> x" for x :: rat
      using that by simp
    ultimately show ?thesis by (metis of_nat_0_le_iff)
  qed
  from offset_error [OF f ntpfloat_era [OF assms(1,3)] f ntpfloat_era [OF assms(2,4)], of ts2 ts3]
    r [of ts2] r [of ts3] assms(1,2) [THEN ntp_seconds_range]
  show ?thesis by simp
qed

text \<open>The client on the server's answer to its own request.\<close>

lemma ntp_client_reply_answer:
  assumes "parse_nts_packet A (s2c keys) data =
      Ok (nts_answer A senv (client_packet uid cookie) (answer_header client_header r t st) keys rot)"
  shows "ntp_client_reply A keys uid t1 t4 data =
    Ok \<lparr>result_stratum = ss_stratum st,
        time_diff = fdiv (fadd (fsub (timestamp_to_float (timestamp_of r)) t1)
                           (fsub (timestamp_to_float (timestamp_of (late_now senv))) t4)) 2\<rparr>"
  unfolding ntp_client_reply_def assms
  by (simp add: nts_answer_def client_packet_def is_uid_def answer_header_def index_r_def)

end
