(* ===== verification/End_To_End.thy ===== *)
theory End_To_End
  imports Ntp_Client
begin

text \<open>
  The parts put together: the key exchange client talking to a connection of the key exchange
  server, the NTP client talking to the NTP server with what the key exchange gave it, and what
  the clients do when the other side misbehaves.
\<close>

section \<open>Key exchange between client and server\<close>

text \<open>A server connection after the TLS handshake, before any request byte.\<close>

definition fresh_conn :: "('s \<Rightarrow> bytes) \<Rightarrow> 's ke_server_conn \<Rightarrow> bool" where
  "fresh_conn out c \<longleftrightarrow> out (tls_session c) = [] \<and> conn_state c = TlsHandshaking \<and>
     ntske_state c = empty_record_state \<and> ntske_buffer c = []"

definition ke_cookie :: "aead \<Rightarrow> ke_env \<Rightarrow> nts_keys \<Rightarrow> key_rotator \<Rightarrow> nat \<Rightarrow> bytes" where
  "ke_cookie A env keys rot i =
     make_cookie A (ke_cookie_nonce env i) keys (the (kr_get rot (latest_key_id rot))) (latest_key_id rot)"

definition exchanged :: "aead \<Rightarrow> ke_env \<Rightarrow> client_config \<Rightarrow> nts_keys \<Rightarrow> key_rotator \<Rightarrow> u16 \<Rightarrow> nts_ke_result" where
  "exchanged A env cfg keys rot port =
     \<lparr>res_cookies = map (ke_cookie A env keys rot) [0..<8], res_next_protocols = [0], res_aead_scheme = 15,
      res_next_server = cc_host cfg, res_next_port = port, res_keys = keys, res_use_ipv4 = cc_use_ipv4 cfg\<rparr>"

lemma client_connects_incoming [simp]: "client_connects (env\<lparr>tls_incoming := b\<rparr>) cfg = client_connects env cfg"
  by (simp add: client_connects_def split: option.split)

lemma client_reads_response:
  assumes "aead_expands A" and "wf_keys keys" and "ke_nonces_ok env"
    and "client_connects cenv cfg" and "gen_key (client_export cenv) = Ok keys"
    and "tls_incoming cenv = concat (map ke_bytes (response_records A env keys rot port))"
  shows "run_nts_ke_client cenv cfg = Ok (exchanged A env cfg keys rot port)"
  using run_nts_ke_client_connected [OF assms(4,5)] client_loop_response [OF assms(1-3)]
  by (simp add: assms(6) client_result_def exchanged_def ke_cookie_def [abs_def] del: upt_Suc)

lemma exchange_agrees:
  assumes A: "aead_expands A" and up: "ke_serving env w rotator pl" and ops: "tls_sound ops" "tls_log ops out"
    and c: "fresh_conn out c" and keys: "gen_key (export_keying_material ops (tls_session c)) = Ok keys"
    and client: "client_connects cenv cfg" "gen_key (client_export cenv) = Ok keys" and wf: "wf_keys keys"
  obtains request c' w' where "client_request = (Ok request :: (bytes, ke_client_error) result)"
    and "read_plaintext ops A rotator port env request (c, w) = ((c', w'), Ok () :: (unit, io_error) result)"
    and "conn_state c' = ResponseSent"
    and "run_nts_ke_client (cenv\<lparr>tls_incoming := out (tls_session c')\<rparr>) cfg =
           Ok (exchanged A env cfg keys (lock_val rotator) port)"
proof -
  have ke: "ke_nonces_ok env" using up by (simp add: ke_serving_def)
  obtain c' w' where s: "read_plaintext ops A rotator port env (concat (map ke_bytes request_records)) (c, w) =
       ((c', w'), Ok () :: (unit, io_error) result)" "conn_state c' = ResponseSent"
      "out (tls_session c') = concat (map ke_bytes (response_records A env keys (lock_val rotator) port))"
    using server_answers_request [OF A up ops _ _ _ _ keys wf] c by (auto simp: fresh_conn_def)
  have "run_nts_ke_client (cenv\<lparr>tls_incoming := out (tls_session c')\<rparr>) cfg =
      Ok (exchanged A env cfg keys (lock_val rotator) port)"
    using client s(3) by (intro client_reads_response [OF A wf ke]) simp_all
  from that [OF client_request_bytes s(1,2) this] show thesis .
qed

section \<open>Time transfer\<close>

lemma serialize_nts_any:
  assumes "length nonce = 16" and "wf_nts_packet p"
    and "serialize_nts_packet A key nonce p = (Ok w :: (bytes, 'e) result)"
  shows "serialize_nts_packet A key nonce p = (Ok w :: (bytes, 'f) result)"
proof -
  have al: "\<forall>e\<in>set (auth_exts p) \<union> set (auth_enc_exts p). length (contents e) mod 4 = 0"
    using assms(2) by (auto simp: wf_nts_packet_def wf_ext_def list_all_iff)
  show ?thesis
    using assms(3) unfolding serialize_nts_packet_wire [OF al assms(1)] Let_def by simp
qed

lemma time_transfer:
  assumes A: "aead_correct A" "aead_expands A" and keys: "wf_keys (res_keys res)"
    and cookie: "res_cookies res = make_cookie A n (res_keys res) k kid # cs" "length n = 16"
      "kr_get (lock_val keys_lock) kid = Some k"
    and serving: "serving senv sw t2 t keys_lock servstate"
    and client: "ntp_online nenv (res_next_server res) (res_next_port res) (res_use_ipv4 res)"
      "length (random_unique_id nenv) = 32" "length (random_nonce nenv) = NONCE_LEN"
    and era: "in_era (t1_now nenv)" "in_era t2" "in_era (late_now senv)" "in_era (t4_now nenv)"
  obtains query sw' answer r where
    "serialize_nts_packet A (c2s (res_keys res)) (random_nonce nenv)
       (client_packet (random_unique_id nenv) (hd (res_cookies res))) = (Ok query :: (bytes, ntp_client_failure) result)"
    and "response A senv query t2 t keys_lock servstate sw = (sw', Ok answer)"
    and "length answer \<le> length query"
    and "run_nts_ntp_client A (nenv\<lparr>udp_recv := Ok answer\<rparr>) res = Ok r"
    and "result_stratum r = ss_stratum (lock_val servstate)"
    and "\<bar>time_diff r - of_int ((t2 - t1_now nenv) + (late_now senv - t4_now nenv)) / (2 * 10 ^ 9)\<bar> \<le> 1 / 65536"
proof -
  let ?keys = "res_keys res" and ?uid = "random_unique_id nenv"
  let ?p = "client_packet ?uid (make_cookie A n ?keys k kid)"
  have req: "request_for A (lock_val keys_lock) ?keys ?p"
    by (rule client_packet_request [OF A(2) keys client(2) cookie(2,3)])
  then have wf: "wf_nts_packet ?p" by (simp add: request_for_def)
  obtain query where q: "serialize_nts_packet A (c2s ?keys) (random_nonce nenv) ?p = (Ok query :: (bytes, io_error) result)"
    and lq: "length query = nts_wire_size ?p"
    using parse_serialize_nts [OF A client(3) wf] by metis
  have lc: "length (make_cookie A n ?keys k kid) = 100"
    using length_make_cookie [OF A(2) keys cookie(2)] by (simp add: COOKIE_SIZE_def)
  have "length query = 228"
    unfolding lq by (simp add: nts_wire_size_def client_packet_def exts_size_def pad4_def client(2) lc Let_def)
  have q': "serialize_nts_packet A (c2s ?keys) (random_nonce nenv) ?p = (Ok query :: (bytes, ntp_client_failure) result)"
    using client(3) by (intro serialize_nts_any [OF _ wf q]) (simp add: NONCE_LEN_def)
  obtain sw' answer where a: "response A senv query t2 t keys_lock servstate sw = (sw', Ok answer)"
    "parse_nts_packet A (s2c ?keys) answer = Ok (nts_answer A senv ?p
       (answer_header (nts_header ?p) t2 t (lock_val servstate)) ?keys (lock_val keys_lock))"
    "length answer \<le> length query"
    by (rule request_answered [OF A keys req client(3) q serving])
  have a2: "parse_nts_packet A (s2c ?keys) answer = Ok (nts_answer A senv ?p
       (answer_header client_header t2 t (lock_val servstate)) ?keys (lock_val keys_lock))"
    using a(2) by (simp add: client_packet_def)
  have b: "take BUFF_SIZE answer = answer"
    using a(3) \<open>length query = 228\<close> by (simp add: BUFF_SIZE_def)
  obtain v1 v4 where v: "system_to_ntpfloat (t1_now nenv) = (Ok v1 :: (f64, ntp_client_failure) result)"
      "system_to_ntpfloat (t4_now nenv) = (Ok v4 :: (f64, ntp_client_failure) result)"
    using system_to_ntpfloat_error era(1,4) unfolding in_era_def by metis
  let ?r = "\<lparr>result_stratum = ss_stratum (lock_val servstate),
        time_diff = fdiv (fadd (fsub (timestamp_to_float (timestamp_of t2)) v1)
                           (fsub (timestamp_to_float (timestamp_of (late_now senv))) v4)) 2\<rparr>"
  let ?env = "nenv\<lparr>udp_recv := Ok answer\<rparr>"
  have "ntp_online ?env (res_next_server res) (res_next_port res) (res_use_ipv4 res)"
    using client(1) by (simp add: ntp_online_def)
  from run_nts_ntp_client_online [OF this cookie(1), of A query v1 answer v4]
  have "run_nts_ntp_client A ?env res = Ok ?r"
    using q' v by (simp add: b ntp_client_reply_answer [OF a2])
  moreover have "serialize_nts_packet A (c2s ?keys) (random_nonce nenv)
       (client_packet ?uid (hd (res_cookies res))) = (Ok query :: (bytes, ntp_client_failure) result)"
    using q' cookie(1) by simp
  moreover note a(1,3) reported_offset_error [OF era v]
  ultimately show thesis using that [of query sw' answer ?r] by simp
qed


section \<open>Clients that refuse or fail\<close>

lemma ke_client_survives:
  assumes "client_connects env cfg" and "gen_key (client_export env) = Ok keys"
  shows "\<not> panics (run_nts_ke_client env cfg)"
  unfolding run_nts_ke_client_connected [OF assms]
  using client_loop_no_panic [of "tls_end env" "tls_incoming env" empty_record_state]
  by (simp add: panics_bind_r)

lemma bare_end_of_message:
  assumes "client_connects env cfg" and "gen_key (client_export env) = Ok keys"
    and "tls_incoming env = ke_bytes (KeEndOfMessage EndOfMessageRecord)"
  shows "run_nts_ke_client env cfg = Ok (client_result cfg keys (empty_record_state\<lparr>finished := True\<rparr>))"
proof -
  have wf: "list_all wf_ke [KeEndOfMessage EndOfMessageRecord]" by simp
  have p: "process_all (map (resend_ke Party_Client) [KeEndOfMessage EndOfMessageRecord]) empty_record_state =
      Some (empty_record_state\<lparr>finished := True\<rparr>)"
    by (simp add: empty_record_state_def process_record_def)
  show ?thesis
    unfolding run_nts_ke_client_connected [OF assms(1,2)] assms(3)
    using client_loop_records [OF wf p, of "tls_end env" "[]"] by (simp add: client_loop_stop)
qed

lemma no_cookie_panics:
  assumes "ntp_online env (res_next_server state) (res_next_port state) (res_use_ipv4 state)"
    and "res_cookies state = []"
  shows "panics (run_nts_ntp_client A env state)"
proof -
  obtain addrs a v4 where a: "ntp_to_socket_addrs env (res_next_server state) (res_next_port state) = Ok addrs"
      "select_socket (res_use_ipv4 state) addrs = Ok (Some a, v4)" "udp_bind env v4 = Ok ()"
    and t: "udp_set_read_timeout env = Ok ()" "udp_set_write_timeout env = Ok ()"
    using assms(1) by (auto simp: ntp_online_def)
  show ?thesis
    unfolding run_nts_ntp_client_def by (simp add: a t assms(2) index_r_def)
qed

text \<open>
  Integrity of ciphertexts, the security an AEAD is documented to have, for one key: it opens only what the holders of the key
  have sealed. Here that are the packets of a set, each with its header and its extensions as the
  associated data, and each with an extension.
\<close>

definition opens_only_sealed :: "aead \<Rightarrow> bytes \<Rightarrow> nts_packet set \<Rightarrow> bool" where
  "opens_only_sealed A key packets \<longleftrightarrow>
     (\<forall>nonce ad ct pt. aead_open A key nonce ad ct = Some pt \<longrightarrow>
        (\<exists>q\<in>packets. wf_nts_packet q \<and> auth_exts q \<noteq> [] \<and>
           ad = serialize_header (nts_header q) @ concat (map ext_bytes (auth_exts q))))"

lemma client_accepts_genuine:
  assumes run: "run_nts_ntp_client A env state = Ok res"
    and sealed: "opens_only_sealed A (s2c (res_keys state)) answers"
    and era: "in_era (t1_now env)" "in_era (t4_now env)"
  shows "\<exists>q\<in>answers. contents (hd (auth_exts q)) = random_unique_id env \<and>
    result_stratum res = stratum (nts_header q) \<and>
    \<bar>time_diff res - ((of_nat (unat (receive_timestamp (nts_header q))) / 2 ^ 32 - ntp_seconds (t1_now env)) +
       (of_nat (unat (transmit_timestamp (nts_header q))) / 2 ^ 32 - ntp_seconds (t4_now env))) / 2\<bar> \<le> 1 / 65536"
proof -
  obtain datagram t1 t4 where t: "system_to_ntpfloat (t1_now env) = (Ok t1 :: (f64, ntp_client_failure) result)"
      "system_to_ntpfloat (t4_now env) = (Ok t4 :: (f64, ntp_client_failure) result)"
    and r: "ntp_client_reply A (res_keys state) (random_unique_id env) t1 t4 (take BUFF_SIZE datagram) = Ok res"
    by (rule run_nts_ntp_client_OkE [OF run])
  obtain p where p: "parse_nts_packet A (s2c (res_keys state)) (take BUFF_SIZE datagram) = Ok p"
      "contents (hd (auth_exts p)) = random_unique_id env" "result_stratum res = stratum (nts_header p)"
      "time_diff res = fdiv (fadd (fsub (timestamp_to_float (receive_timestamp (nts_header p))) t1)
                           (fsub (timestamp_to_float (transmit_timestamp (nts_header p))) t4)) 2"
    by (rule ntp_client_reply_OkE [OF r])
  obtain q where q: "q \<in> {q \<in> answers. auth_exts q \<noteq> []}" "nts_header p = nts_header q" "prefix (auth_exts q) (auth_exts p)"
  proof (rule parse_nts_from_sealed [OF p(1), of "{q \<in> answers. auth_exts q \<noteq> []}"])
    show "\<exists>q\<in>{q \<in> answers. auth_exts q \<noteq> []}. wf_nts_packet q \<and> ad = ad_of q"
      if "aead_open A (s2c (res_keys state)) nonce ad ct = Some pt" for nonce ad ct pt
      using sealed that unfolding opens_only_sealed_def ad_of_def by blast
  qed
  then have "hd (auth_exts p) = hd (auth_exts q)" by (auto simp: prefix_def)
  with q p header_offset_error [OF era t] show ?thesis by auto
qed

section \<open>A network\<close>

definition net_addr :: socket_addr where
  "net_addr = SocketAddr (IpV4 (Ipv4Addr 192 0 2 1)) 123"

definition net_config :: client_config where
  "net_config = \<lparr>cc_host = ''time.example'', cc_port = None, cc_trusted_cert = None, cc_use_ipv4 = None\<rparr>"

definition net_ke_env :: ke_client_env where
  "net_ke_env = \<lparr>root_store_add = (\<lambda>_. Ok ()), dns_name_valid = (\<lambda>_. True), to_socket_addrs = (\<lambda>_ _. Ok [net_addr]),
     connect_timeout = (\<lambda>_. Ok ()), set_read_timeout = Ok (), set_write_timeout = Ok (), tls_write = (\<lambda>b. Ok (length b)),
     tls_flush = Ok (), client_export = export_keying_material script_ops \<lparr>script_in = [], script_out = []\<rparr>,
     tls_incoming = [], tls_end = Io_Error Other ''end of file'', shutdown_write = Ok ()\<rparr>"

definition net_ntp_env :: ntp_client_env where
  "net_ntp_env = \<lparr>ntp_to_socket_addrs = (\<lambda>_ _. Ok [net_addr]), udp_bind = (\<lambda>_. Ok ()), udp_set_read_timeout = Ok (),
     udp_set_write_timeout = Ok (), random_unique_id = replicate 32 5, udp_connect = (\<lambda>_. Ok ()),
     random_nonce = replicate 16 8, t1_now = sample_now, udp_send = (\<lambda>_. Ok ()), udp_recv = Ok [], t4_now = sample_now\<rparr>"

definition net_keys :: nts_keys where
  "net_keys = \<lparr>c2s = replicate 32 0, s2c = replicate 32 1\<rparr>"

definition net_conn :: "script ke_server_conn" where
  "net_conn = (script_conn [])\<lparr>conn_state := TlsHandshaking\<rparr>"

lemma net_connects: "client_connects net_ke_env net_config"
  by (simp add: client_connects_def net_ke_env_def net_config_def client_port_def select_addr_def)

lemma net_gen_key: "gen_key (client_export net_ke_env) = Ok net_keys"
  "gen_key (export_keying_material script_ops (tls_session net_conn)) = Ok net_keys"
  by (simp_all add: gen_key_def net_ke_env_def script_ops_def net_keys_def Let_def)

lemma net_wf_keys: "wf_keys net_keys"
  by (simp add: wf_keys_def net_keys_def)

lemma net_fresh: "fresh_conn script_out net_conn"
  by (simp add: fresh_conn_def net_conn_def script_conn_def)

lemma net_online: "ntp_online net_ntp_env ''time.example'' port None"
  by (simp add: ntp_online_def net_ntp_env_def select_socket_def)

lemma net_lengths: "length (random_unique_id net_ntp_env) = 32" "length (random_nonce net_ntp_env) = NONCE_LEN"
  by (simp_all add: net_ntp_env_def NONCE_LEN_def)

lemma net_era: "in_era (t1_now net_ntp_env)" "in_era (t4_now net_ntp_env)" "in_era sample_now" "in_era (late_now up_env)"
  by (simp_all add: in_era_def net_ntp_env_def up_env_def sample_now_def secs_of_def UNIX_OFFSET_def)

definition net_result :: nts_ke_result where
  "net_result = \<lparr>res_cookies = [up_cookie], res_next_protocols = [0], res_aead_scheme = 15,
     res_next_server = ''time.example'', res_next_port = 123, res_keys = net_keys, res_use_ipv4 = None\<rparr>"

lemma net_result_keys: "res_keys net_result = net_keys"
  by (simp add: net_result_def)

text \<open>The one answer the server has sealed, and an AEAD that opens nothing else under its key.\<close>

definition net_answer :: nts_packet where
  "net_answer = \<lparr>nts_header = client_header\<lparr>mode := Server, stratum := 1, receive_timestamp := 0x100000000, transmit_timestamp := 0x200000000\<rparr>,
     auth_exts = [\<lparr>ext_type = UniqueIdentifier, contents = random_unique_id net_ntp_env\<rparr>], auth_enc_exts = []\<rparr>"

definition net_aead :: aead where
  "net_aead = checksum_aead\<lparr>aead_open := \<lambda>k n a c.
     if k = s2c net_keys \<and> a \<noteq> ad_of net_answer then None else aead_open checksum_aead k n a c\<rparr>"

lemma net_answer_wf: "wf_nts_packet net_answer"
  by (simp add: wf_nts_packet_def net_answer_def client_header_def wf_ext_def nts_wire_size_def
      exts_size_def pad4_def net_lengths Let_def)

lemma net_opens_only_sealed: "opens_only_sealed net_aead (s2c (res_keys net_result)) {net_answer}"
  using net_answer_wf by (auto simp: opens_only_sealed_def net_aead_def net_result_keys ad_of_def split: if_splits)
    (simp_all add: net_answer_def)

lemma net_accepts:
  obtains datagram res where "run_nts_ntp_client net_aead (net_ntp_env\<lparr>udp_recv := Ok datagram\<rparr>) net_result = Ok res"
proof -
  let ?p = "client_packet (random_unique_id net_ntp_env) up_cookie"
  have wf: "wf_nts_packet ?p" by (rule client_packet_wf [OF net_lengths(1) length_up_cookie])
  have x: "aead_expands net_aead" using checksum_aead_expands by (simp add: net_aead_def aead_expands_def)
  have o: "aead_open net_aead k n (ad_of q) (aead_seal net_aead k n (ad_of q) pt) = Some pt"
    if "k = s2c net_keys \<Longrightarrow> q = net_answer" for k n q pt
    using that checksum_aead_correct by (auto simp: net_aead_def aead_correct_def)
  have "c2s net_keys \<noteq> s2c net_keys" by (simp add: net_keys_def)
  then obtain query where q: "serialize_nts_packet net_aead (c2s net_keys) (random_nonce net_ntp_env) ?p =
      (Ok query :: (bytes, ntp_client_failure) result)"
    using parse_sealed_nts [OF o x net_lengths(2) wf] by metis
  obtain d where d: "length d = nts_wire_size net_answer" "parse_nts_packet net_aead (s2c net_keys) d = Ok net_answer"
    using parse_sealed_nts [OF o x net_lengths(2) net_answer_wf, of "s2c net_keys"] by metis
  have t: "take BUFF_SIZE d = d"
    using d(1) by (simp add: BUFF_SIZE_def nts_wire_size_def net_answer_def exts_size_def pad4_def net_lengths)
  obtain v1 v4 where v: "system_to_ntpfloat (t1_now net_ntp_env) = (Ok v1 :: (f64, ntp_client_failure) result)"
      "system_to_ntpfloat (t4_now net_ntp_env) = (Ok v4 :: (f64, ntp_client_failure) result)"
    using system_to_ntpfloat_error net_era(1,2) unfolding in_era_def by metis
  have "ntp_online (net_ntp_env\<lparr>udp_recv := Ok d\<rparr>) (res_next_server net_result) (res_next_port net_result)
      (res_use_ipv4 net_result)"
    using net_online by (simp add: net_result_def ntp_online_def)
  from run_nts_ntp_client_online [OF this, of up_cookie "[]" net_aead query v1 d v4]
  have "run_nts_ntp_client net_aead (net_ntp_env\<lparr>udp_recv := Ok d\<rparr>) net_result =
      ntp_client_reply net_aead net_keys (random_unique_id net_ntp_env) v1 v4 d"
    using q v t by (simp add: net_result_def)
  moreover have "is_ok (ntp_client_reply net_aead net_keys (random_unique_id net_ntp_env) v1 v4 d)"
    by (simp add: ntp_client_reply_def d(2) net_answer_def index_r_def is_ok_iff)
  ultimately show thesis using that [of d] by (auto simp: is_ok_iff)
qed

end
