(* ===== verification/Experiment.thy ===== *)
theory Experiment
  imports Servers End_To_End "HOL-Library.Stream"
begin

text \<open>
  \<^verbatim>\<open>src/src/sub_command/client.rs\<close>: the client sub-command of this fork, a load experiment that
  runs the NTS client many times and records times and failures. A client is a job of the thread
  pool; the jobs are taken one after the other, their effects being additions to counters and messages to
  channels. The network, the files, the pool and the durations are arguments.
\<close>

section \<open>Errors as text\<close>

text \<open>\<^verbatim>\<open>to_string\<close> of the boxed errors; the parts that come from the libraries are their messages.\<close>

fun parse_int_error_string :: "parse_int_error \<Rightarrow> string" where
  "parse_int_error_string IntEmpty = ''cannot parse integer from empty string''"
| "parse_int_error_string InvalidDigit = ''invalid digit found in string''"
| "parse_int_error_string IntOverflow = ''number too large to fit in target type''"
| "parse_int_error_string IntUnderflow = ''number too small to fit in target type''"

definition nts_ke_parse_error_string :: "nts_ke_parse_error \<Rightarrow> string" where
  "nts_ke_parse_error_string e = ''NTS-KE Record Parse Error''"

definition ntp_client_error_string :: "ntp_client_error \<Rightarrow> string" where
  "ntp_client_error_string e = ''Ntp Client Error ''"

fun ke_error_string :: "ke_client_error \<Rightarrow> string" where
  "ke_error_string (KeIo e) = io_msg e"
| "ke_error_string (KeParse e) = nts_ke_parse_error_string e"
| "ke_error_string (KeParseInt e) = parse_int_error_string e"
| "ke_error_string (KeWebpki msg) = msg"

fun ntp_error_string :: "ntp_client_failure \<Rightarrow> string" where
  "ntp_error_string (NtpIo e) = io_msg e"
| "ntp_error_string (NtpClientError e) = ntp_client_error_string e"

section \<open>Arguments\<close>

definition load_tls_certs :: "config_files \<Rightarrow> string \<Rightarrow> (bytes list, config_error) result" where
  "load_tls_certs files path =
     bind_r (wrap_err ForeignIo (pem_certs files path)) (\<lambda>parsed.
     case parsed of
       Some certs \<Rightarrow> Ok certs
     | None \<Rightarrow> Err (Message (''could not load certificate from '' @ path)))"

definition choose_ip_version :: "arg_matches \<Rightarrow> bool option" where
  "choose_ip_version matches =
     (if is_present matches ''ipv4'' then Some True
      else if is_present matches ''ipv6'' then Some False
      else None)"

text \<open>A certificate file that cannot be read or parsed is ignored.\<close>

definition choose_trusted_cert :: "config_files \<Rightarrow> arg_matches \<Rightarrow> (bytes option, 'e) result" where
  "choose_trusted_cert files matches =
     (case value_of matches ''cert'' of
        None \<Rightarrow> Ok None
      | Some file \<Rightarrow>
          (case load_tls_certs files file of
             Ok certs \<Rightarrow> bind_r (index_r certs 0) (\<lambda>cert. Ok (Some cert))
           | Err e \<Rightarrow> Ok None
           | Panic p \<Rightarrow> Panic p))"

definition make_client_config :: "config_files \<Rightarrow> arg_matches \<Rightarrow> (client_config, 'e) result" where
  "make_client_config files matches =
     bind_r (unwrap_o (value_of matches ''host'')) (\<lambda>host.
     bind_r (choose_trusted_cert files matches) (\<lambda>trusted_cert.
     Ok \<lparr>cc_host = host, cc_port = value_of matches ''port'', cc_trusted_cert = trusted_cert,
         cc_use_ipv4 = choose_ip_version matches\<rparr>))"

section \<open>Parameters of the experiment\<close>

text \<open>\<^verbatim>\<open>i32\<close> arithmetic wraps.\<close>

definition wrap_i32 :: "int \<Rightarrow> int" where
  "wrap_i32 v = signed_take_bit 31 v"

definition get_i32 :: "(string \<Rightarrow> string option) \<Rightarrow> string \<Rightarrow> (int, 'e) result" where
  "get_i32 get k =
     bind_r (unwrap_o (get k)) (\<lambda>s. unwrap_r ''called `Result::unwrap()` on an `Err` value'' (parse_i32 s))"

text \<open>A number in a file of its own; \<open>open_file\<close> is what opening and reading it gives.\<close>

definition read_i32_file :: "(string, io_error) result \<Rightarrow> (int, 'e) result" where
  "read_i32_file open_file =
     bind_r (unwrap_r ''Unable to read file'' open_file) (\<lambda>s.
     unwrap_r ''called `Result::unwrap()` on an `Err` value'' (parse_i32 s))"

record experiment_params =
  warmup_runs :: int
  num_runs :: int
  total_runtime_ms :: int
  exchanges_per_cookie :: int
  step_size :: int
  reqs_per_second :: int
  num_clients :: int
  is_aux_client :: bool
  aux_req_rate :: int
  num_aux_clients :: int

record experiment_files =
  experiment_yaml :: experiment_config
  reqs_file :: "(string, io_error) result"
  clients_file :: "(string, io_error) result"
  aux_clients_file :: "(string, io_error) result"

definition read_params :: "experiment_files \<Rightarrow> (experiment_params, 'e) result" where
  "read_params files =
     (case experiment_yaml files of
        None \<Rightarrow> Panic ''Unable to build ntp server config.''
      | Some get \<Rightarrow>
          bind_r (get_i32 get ''warmup_runs'') (\<lambda>warmup_runs.
          bind_r (get_i32 get ''num_runs'') (\<lambda>num_runs.
          bind_r (get_i32 get ''total_runtime_ms'') (\<lambda>total_runtime_ms.
          bind_r (get_i32 get ''exchanges_per_cookie'') (\<lambda>exchanges_per_cookie.
          bind_r (get_i32 get ''step_size'') (\<lambda>step_size.
          bind_r (read_i32_file (reqs_file files)) (\<lambda>reqs.
          bind_r (read_i32_file (clients_file files)) (\<lambda>num_clients.
          bind_r (unwrap_o (get ''is_aux_client'')) (\<lambda>aux_yaml.
          let is_aux = str_contains aux_yaml ''true'' in
          bind_r (get_i32 get ''aux_req_rate'') (\<lambda>aux_req_rate.
          bind_r (read_i32_file (aux_clients_file files)) (\<lambda>num_aux_clients.
          Ok \<lparr>warmup_runs = warmup_runs, num_runs = num_runs, total_runtime_ms = total_runtime_ms,
              exchanges_per_cookie = exchanges_per_cookie, step_size = step_size,
              reqs_per_second = (if is_aux then aux_req_rate else reqs), num_clients = num_clients,
              is_aux_client = is_aux, aux_req_rate = aux_req_rate, num_aux_clients = num_aux_clients\<rparr>)))))))))))"

text \<open>The time between requests in milliseconds; \<open>None\<close> is infinity.\<close>

definition inter_request_time :: "int \<Rightarrow> f64 option" where
  "inter_request_time reqs = (if reqs = 0 then None else Some (fmul (fdiv 1 (of_int reqs)) 1000))"

definition f64_to_i32 :: "f64 \<Rightarrow> int" where
  "f64_to_i32 q = max (- (2 ^ 31)) (min (2 ^ 31 - 1) (if 0 \<le> q then \<lfloor>q\<rfloor> else \<lceil>q\<rceil>))"

definition f64_to_u64 :: "f64 \<Rightarrow> u64" where
  "f64_to_u64 q = of_int (max 0 (min (2 ^ 64 - 1) \<lfloor>q\<rfloor>))"

definition total_requests :: "int \<Rightarrow> int \<Rightarrow> int" where
  "total_requests runtime reqs =
     (case inter_request_time reqs of
        None \<Rightarrow> 0
      | Some t \<Rightarrow> f64_to_i32 (f64_round (fdiv (of_int runtime) t)))"

definition sleep_ms :: "int \<Rightarrow> u64" where
  "sleep_ms reqs = (case inter_request_time reqs of None \<Rightarrow> - 1 | Some t \<Rightarrow> f64_to_u64 (f64_round t))"

definition announced_rates :: "experiment_params \<Rightarrow> int \<times> int" where
  "announced_rates p =
     (let additional = wrap_i32 (aux_req_rate p * num_aux_clients p);
          e = exchanges_per_cookie p
      in (wrap_i32 (wrap_i32 (reqs_per_second p * e) + wrap_i32 (additional * e)),
          wrap_i32 (reqs_per_second p + additional)))"

section \<open>Jobs\<close>

text \<open>The channels and the counters; the counters are \<^verbatim>\<open>AtomicI32\<close>s.\<close>

record client_world =
  client_ke_s :: channel
  client_ntp_s :: channel
  client_err_s :: channel
  KE_TIMEOUT :: u32
  KE_OS_FAILURE :: u32
  KE_OTHER :: u32
  NTP_TIMEOUT :: u32
  NTP_OS_FAILURE :: u32
  NTP_OTHER :: u32

definition send_ke :: "string \<Rightarrow> client_world \<Rightarrow> client_world \<times> (unit, 'e) result" where
  "send_ke s w =
     (case chan_send s (client_ke_s w) :: (channel, 'e) result of
        Ok ch \<Rightarrow> (w\<lparr>client_ke_s := ch\<rparr>, Ok ()) | Err e \<Rightarrow> (w, Err e) | Panic p \<Rightarrow> (w, Panic p))"

definition send_ntp :: "string \<Rightarrow> client_world \<Rightarrow> client_world \<times> (unit, 'e) result" where
  "send_ntp s w =
     (case chan_send s (client_ntp_s w) :: (channel, 'e) result of
        Ok ch \<Rightarrow> (w\<lparr>client_ntp_s := ch\<rparr>, Ok ()) | Err e \<Rightarrow> (w, Err e) | Panic p \<Rightarrow> (w, Panic p))"

definition send_err :: "string \<Rightarrow> client_world \<Rightarrow> client_world \<times> (unit, 'e) result" where
  "send_err s w =
     (case chan_send s (client_err_s w) :: (channel, 'e) result of
        Ok ch \<Rightarrow> (w\<lparr>client_err_s := ch\<rparr>, Ok ()) | Err e \<Rightarrow> (w, Err e) | Panic p \<Rightarrow> (w, Panic p))"

definition count_ke_error :: "string \<Rightarrow> client_world \<Rightarrow> client_world" where
  "count_ke_error err w =
     (if str_contains err ''time'' then w\<lparr>KE_TIMEOUT := KE_TIMEOUT w + 1\<rparr>
      else if str_contains err ''os'' then w\<lparr>KE_OS_FAILURE := KE_OS_FAILURE w + 1\<rparr>
      else w\<lparr>KE_OTHER := KE_OTHER w + 1\<rparr>)"

definition count_ntp_error :: "string \<Rightarrow> client_world \<Rightarrow> client_world" where
  "count_ntp_error err w =
     (if str_contains err ''time'' then w\<lparr>NTP_TIMEOUT := NTP_TIMEOUT w + 1\<rparr>
      else if str_contains err ''os'' then w\<lparr>NTP_OS_FAILURE := NTP_OS_FAILURE w + 1\<rparr>
      else w\<lparr>NTP_OTHER := NTP_OTHER w + 1\<rparr>)"

text \<open>What one client meets: the network during the key exchange and during each NTP exchange, and the times they take.\<close>

record job_env =
  job_ke :: ke_client_env
  job_ke_nanos :: nat
  job_ntp :: "nat \<Rightarrow> ntp_client_env"
  job_ntp_nanos :: "nat \<Rightarrow> nat"

fun exchange_loop ::
  "aead \<Rightarrow> job_env \<Rightarrow> nts_ke_result \<Rightarrow> nat list \<Rightarrow> client_world \<Rightarrow> client_world \<times> (unit, unit) result" where
  "exchange_loop A env state [] w = (w, Ok ())"
| "exchange_loop A env state (i # is) w =
     (case run_nts_ntp_client A (job_ntp env i) state of
        Panic p \<Rightarrow> (w, Panic p)
      | res \<Rightarrow>
          bind_s (send_ntp (show_nat (job_ntp_nanos env i)) w) (\<lambda>_ w.
          case res of
            Err err \<Rightarrow> send_err (''NTP: '' @ ntp_error_string err) (count_ntp_error (ntp_error_string err) w)
          | _ \<Rightarrow> exchange_loop A env state is w))"

definition client_job ::
  "aead \<Rightarrow> client_config \<Rightarrow> int \<Rightarrow> job_env \<Rightarrow> client_world \<Rightarrow> client_world \<times> (unit, unit) result" where
  "client_job A cfg exchanges env w =
     (case run_nts_ke_client (job_ke env) cfg of
        Panic p \<Rightarrow> (w, Panic p)
      | Err err \<Rightarrow> send_err (''KE: '' @ ke_error_string err) (count_ke_error (ke_error_string err) w)
      | Ok state \<Rightarrow>
          bind_s (send_ke (show_nat (job_ke_nanos env)) w) (\<lambda>_ w.
          exchange_loop A env state [0..<nat exchanges] w))"


text \<open>The pool confines a panic to its job.\<close>

fun run_jobs :: "aead \<Rightarrow> client_config \<Rightarrow> int \<Rightarrow> job_env list \<Rightarrow> client_world \<Rightarrow> client_world" where
  "run_jobs A cfg exchanges [] w = w"
| "run_jobs A cfg exchanges (job # jobs) w = run_jobs A cfg exchanges jobs (fst (client_job A cfg exchanges job w))"

text \<open>
  One client without measurements, as in the warm-up and in an auxiliary client: whether the key
  exchange succeeded. Errors of the NTP client are dropped.
\<close>

definition quiet_client :: "aead \<Rightarrow> client_config \<Rightarrow> job_env \<Rightarrow> (bool, unit) result" where
  "quiet_client A cfg env =
     (case run_nts_ke_client (job_ke env) cfg of
        Panic p \<Rightarrow> Panic p
      | Err err \<Rightarrow> Ok False
      | Ok state \<Rightarrow>
          (case run_nts_ntp_client A (job_ntp env 0) state of Panic p \<Rightarrow> Panic p | _ \<Rightarrow> Ok True))"

fun warmup :: "aead \<Rightarrow> client_config \<Rightarrow> job_env list \<Rightarrow> (bool, unit) result" where
  "warmup A cfg [] = Ok True"
| "warmup A cfg (env # envs) =
     bind_r (quiet_client A cfg env) (\<lambda>go_on. if go_on then warmup A cfg envs else Ok False)"

text \<open>
  An auxiliary client issues jobs forever, each after the pause; a panic of a job stays in the job, and neither the
  channels nor the counters are used. The loop is the infinite sequence of its iterations: the pause, and how the job
  went.
\<close>

primcorec aux_loop ::
  "aead \<Rightarrow> client_config \<Rightarrow> u64 \<Rightarrow> (nat \<Rightarrow> job_env) \<Rightarrow> nat \<Rightarrow> (u64 \<times> (bool, unit) result) stream" where
  "aux_loop A cfg pause envs i =
     SCons (pause, quiet_client A cfg (envs i)) (aux_loop A cfg pause envs (Suc i))"

definition report_errors :: "client_world \<Rightarrow> client_world \<times> (unit, unit) result" where
  "report_errors w =
     bind_s (send_ke (''Timeout Errors: '' @ show_int (sint (KE_TIMEOUT w))) w) (\<lambda>_ w.
     bind_s (send_ke (''OS Errors: '' @ show_int (sint (KE_OS_FAILURE w))) w) (\<lambda>_ w.
     bind_s (send_ke (''Other Errors: '' @ show_int (sint (KE_OTHER w))) w) (\<lambda>_ w.
     bind_s (send_ntp (''Timeout Errors: '' @ show_int (sint (NTP_TIMEOUT w))) w) (\<lambda>_ w.
     bind_s (send_ntp (''OS Errors: '' @ show_int (sint (NTP_OS_FAILURE w))) w) (\<lambda>_ w.
     send_ntp (''Other Errors: '' @ show_int (sint (NTP_OTHER w))) w)))))"

fun measure_runs ::
  "aead \<Rightarrow> client_config \<Rightarrow> int \<Rightarrow> job_env list list \<Rightarrow> client_world \<Rightarrow> client_world \<times> (unit, unit) result" where
  "measure_runs A cfg exchanges [] w = (w, Ok ())"
| "measure_runs A cfg exchanges (jobs # runs) w =
     bind_s (report_errors (run_jobs A cfg exchanges jobs w)) (\<lambda>_ w. measure_runs A cfg exchanges runs w)"

text \<open>The entry point. The outside: the thread pool, the clients of the auxiliary loop, of the warm-up and of every run, the file for the next rate.\<close>

record experiment_env =
  pool_new :: "usize \<Rightarrow> (unit, unit) result"
  aux_env :: "nat \<Rightarrow> job_env"
  warmup_env :: "nat \<Rightarrow> job_env"
  run_env :: "nat \<Rightarrow> nat \<Rightarrow> job_env"
  create_rate_file :: "(unit, io_error) result"
  write_rate_file :: "string \<Rightarrow> (unit, io_error) result"

datatype client_end = AuxForever "(u64 \<times> (bool, unit) result) stream" | WarmupFailed | Stepped string

definition announce :: "experiment_params \<Rightarrow> client_world \<Rightarrow> client_world \<times> (unit, unit) result" where
  "announce p w =
     bind_s (send_ntp (show_int (fst (announced_rates p)) @ '' total request(s) per second'') w) (\<lambda>_ w.
     send_ke (show_int (snd (announced_rates p)) @ '' total request(s) per second'') w)"

definition next_rate :: "experiment_env \<Rightarrow> experiment_params \<Rightarrow> (client_end, unit) result" where
  "next_rate env p =
     bind_r (unwrap_r ''called `Result::unwrap()` on an `Err` value'' (create_rate_file env)) (\<lambda>_.
     let rate = show_int (wrap_i32 (reqs_per_second p + step_size p)) in
     bind_r (unwrap_r ''Unable to write next run'' (write_rate_file env rate)) (\<lambda>_.
     Ok (Stepped rate)))"

definition experiment_jobs :: "experiment_env \<Rightarrow> experiment_params \<Rightarrow> job_env list list" where
  "experiment_jobs env p =
     map (\<lambda>r. map (run_env env r) [0..<nat (total_requests (total_runtime_ms p) (reqs_per_second p))])
       [0..<nat (num_runs p)]"

definition client_run ::
  "aead \<Rightarrow> config_files \<Rightarrow> experiment_files \<Rightarrow> experiment_env \<Rightarrow> arg_matches \<Rightarrow> client_world \<Rightarrow>
     client_world \<times> (client_end, unit) result" where
  "client_run A cfiles files env matches w =
     bind_s (w, make_client_config cfiles matches) (\<lambda>cfg w.
     bind_s (w, read_params files) (\<lambda>p w.
     bind_s (announce p w) (\<lambda>_ w.
     bind_s (w, pool_new env (of_int (num_clients p))) (\<lambda>_ w.
     if is_aux_client p then (w, Ok (AuxForever (aux_loop A cfg (sleep_ms (reqs_per_second p)) (aux_env env) 0)))
     else
       bind_s (w, warmup A cfg (map (warmup_env env) [0..<nat (warmup_runs p)])) (\<lambda>warm w.
       if \<not> warm then (w, Ok WarmupFailed)
       else
         bind_s (measure_runs A cfg (exchanges_per_cookie p) (experiment_jobs env p) w) (\<lambda>_ w.
         (w, next_rate env p)))))))"

section \<open>Lemmas\<close>

text \<open>Every iteration of the auxiliary loop takes place, whatever became of the jobs before it.\<close>

lemma aux_loop_nth: "aux_loop A cfg pause envs i !! n = (pause, quiet_client A cfg (envs (i + n)))"
  by (induction n arbitrary: i) simp_all

definition channels_ok :: "client_world \<Rightarrow> bool" where
  "channels_ok w \<longleftrightarrow> chan_set (client_ke_s w) \<and> chan_open (client_ke_s w) \<and> chan_set (client_ntp_s w) \<and>
     chan_open (client_ntp_s w) \<and> chan_set (client_err_s w) \<and> chan_open (client_err_s w)"

definition failures :: "client_world \<Rightarrow> u32" where
  "failures w = KE_TIMEOUT w + KE_OS_FAILURE w + KE_OTHER w + NTP_TIMEOUT w + NTP_OS_FAILURE w + NTP_OTHER w"

text \<open>Every failure is counted once and reported once.\<close>

definition accounted :: "client_world \<Rightarrow> bool" where
  "accounted w \<longleftrightarrow> channels_ok w \<and> failures w = of_nat (length (chan_sent (client_err_s w)))"

lemma send_ke_accounted: "accounted w \<Longrightarrow> \<exists>w'. send_ke s w = (w', Ok () :: (unit, 'e) result) \<and> accounted w'"
  by (auto simp: send_ke_def chan_send_def accounted_def channels_ok_def failures_def)

lemma send_ntp_accounted: "accounted w \<Longrightarrow> \<exists>w'. send_ntp s w = (w', Ok () :: (unit, 'e) result) \<and> accounted w'"
  by (auto simp: send_ntp_def chan_send_def accounted_def channels_ok_def failures_def)

lemma failures_count:
  "failures (count_ke_error e w) = failures w + 1" "failures (count_ntp_error e w) = failures w + 1"
  by (simp_all add: count_ke_error_def count_ntp_error_def failures_def)

lemma count_channels [simp]:
  "client_err_s (count_ke_error e w) = client_err_s w" "client_err_s (count_ntp_error e w) = client_err_s w"
  "channels_ok (count_ke_error e w) = channels_ok w" "channels_ok (count_ntp_error e w) = channels_ok w"
  by (simp_all add: count_ke_error_def count_ntp_error_def channels_ok_def)

lemma send_err_accounted:
  assumes "channels_ok w" and "failures w = of_nat (length (chan_sent (client_err_s w))) + 1"
  shows "\<exists>w'. send_err s w = (w', Ok () :: (unit, 'e) result) \<and> accounted w'"
  using assms by (auto simp: send_err_def chan_send_def accounted_def channels_ok_def failures_def)

lemma ke_failure_accounted:
  "accounted w \<Longrightarrow> \<exists>w'. send_err s (count_ke_error e w) = (w', Ok () :: (unit, 'e) result) \<and> accounted w'"
  by (rule send_err_accounted) (simp_all add: accounted_def failures_count)

lemma ntp_failure_accounted:
  "accounted w \<Longrightarrow> \<exists>w'. send_err s (count_ntp_error e w) = (w', Ok () :: (unit, 'e) result) \<and> accounted w'"
  by (rule send_err_accounted) (simp_all add: accounted_def failures_count)

lemma exchange_loop_accounted: "accounted w \<Longrightarrow> accounted (fst (exchange_loop A env state is w))"
proof (induction "is" arbitrary: w)
  case (Cons i "is")
  obtain w1 where w1: "send_ntp (show_nat (job_ntp_nanos env i)) w = (w1, Ok () :: (unit, unit) result)" "accounted w1"
    using send_ntp_accounted [OF Cons.prems, where 'e = unit] by blast
  show ?case
  proof (cases "run_nts_ntp_client A (job_ntp env i) state")
    case (Err err)
    obtain w2 where "send_err (''NTP: '' @ ntp_error_string err) (count_ntp_error (ntp_error_string err) w1) =
        (w2, Ok () :: (unit, unit) result)" "accounted w2"
      using ntp_failure_accounted [OF w1(2), where 'e = unit] by blast
    with w1 Err show ?thesis by simp
  qed (use Cons w1 in simp_all)
qed simp

lemma client_job_accounted:
  assumes "accounted w"
  shows "accounted (fst (client_job A cfg exchanges env w))"
proof (cases "run_nts_ke_client (job_ke env) cfg")
  case (Ok state)
  obtain w1 where "send_ke (show_nat (job_ke_nanos env)) w = (w1, Ok () :: (unit, unit) result)" "accounted w1"
    using send_ke_accounted [OF assms, where 'e = unit] by blast
  with Ok show ?thesis using exchange_loop_accounted by (simp add: client_job_def)
next
  case (Err err)
  obtain w1 where "send_err (''KE: '' @ ke_error_string err) (count_ke_error (ke_error_string err) w) =
      (w1, Ok () :: (unit, unit) result)" "accounted w1"
    using ke_failure_accounted [OF assms, where 'e = unit] by blast
  with Err show ?thesis by (simp add: client_job_def)
qed (use assms in \<open>simp add: client_job_def\<close>)

lemma run_jobs_accounted: "accounted w \<Longrightarrow> accounted (run_jobs A cfg exchanges jobs w)"
  by (induction jobs arbitrary: w) (simp_all add: client_job_accounted)

lemma report_errors_accounted:
  assumes "accounted w"
  shows "\<exists>w'. report_errors w = (w', Ok ()) \<and> accounted w'"
proof -
  obtain w1 where 1: "send_ke (''Timeout Errors: '' @ show_int (sint (KE_TIMEOUT w))) w = (w1, Ok () :: (unit, unit) result)" "accounted w1"
    using send_ke_accounted [OF assms, where 'e = unit] by blast
  obtain w2 where 2: "send_ke (''OS Errors: '' @ show_int (sint (KE_OS_FAILURE w1))) w1 = (w2, Ok () :: (unit, unit) result)" "accounted w2"
    using send_ke_accounted [OF 1(2), where 'e = unit] by blast
  obtain w3 where 3: "send_ke (''Other Errors: '' @ show_int (sint (KE_OTHER w2))) w2 = (w3, Ok () :: (unit, unit) result)" "accounted w3"
    using send_ke_accounted [OF 2(2), where 'e = unit] by blast
  obtain w4 where 4: "send_ntp (''Timeout Errors: '' @ show_int (sint (NTP_TIMEOUT w3))) w3 = (w4, Ok () :: (unit, unit) result)" "accounted w4"
    using send_ntp_accounted [OF 3(2), where 'e = unit] by blast
  obtain w5 where 5: "send_ntp (''OS Errors: '' @ show_int (sint (NTP_OS_FAILURE w4))) w4 = (w5, Ok () :: (unit, unit) result)" "accounted w5"
    using send_ntp_accounted [OF 4(2), where 'e = unit] by blast
  from send_ntp_accounted [OF 5(2), where 'e = unit] 1 2 3 4 5 show ?thesis
    by (simp add: report_errors_def)
qed

lemma measure_runs_accounted:
  "accounted w \<Longrightarrow> \<exists>w'. measure_runs A cfg exchanges runs w = (w', Ok ()) \<and> accounted w'"
proof (induction runs arbitrary: w)
  case (Cons jobs runs)
  obtain w1 where "report_errors (run_jobs A cfg exchanges jobs w) = (w1, Ok ())" "accounted w1"
    using report_errors_accounted [OF run_jobs_accounted [OF Cons.prems]] by blast
  with Cons.IH show ?case by simp
qed simp

text \<open>The pause between requests is a whole number of milliseconds.\<close>

lemma pause_one_ms:
  assumes "667 \<le> r" and "r \<le> 1999"
  shows "sleep_ms r = 1"
proof -
  let ?q = "fdiv 1 (of_int r)" and ?t = "fmul (fdiv 1 (of_int r)) 1000"
  have r: "667 \<le> (of_int r :: rat)" "(of_int r :: rat) \<le> 1999" using assms by simp_all
  have e1: "\<bar>?q - 1 / of_int r\<bar> \<le> (1 / of_int r) / 2 ^ 53"
    using fl_error [of "1 / of_int r"] r by (simp add: fdiv_def)
  have b: "1 / 1999 \<le> (1 / of_int r :: rat)" "(1 / of_int r :: rat) \<le> 1 / 667"
    using r by (simp_all add: field_simps)
  have c: "x / 2 ^ 53 \<le> 1 / 1000000000000" if "x \<le> 1 / 667" for x :: rat using that by simp
  have q: "1 / 1999 - 1 / 1000000000000 \<le> ?q" "?q \<le> 1 / 667 + 1 / 1000000000000"
    using e1 b c [OF b(2)] by linarith+
  have q0: "0 \<le> ?q * 1000" using q by linarith
  have e2: "\<bar>?t - ?q * 1000\<bar> \<le> (?q * 1000) / 2 ^ 53"
    using fl_error [OF q0] by (simp add: fmul_def)
  have c2: "x / 2 ^ 53 \<le> 1 / 100000000" if "x \<le> 2" for x :: rat using that by simp
  have "?q * 1000 \<le> 2" using q(2) by simp
  from c2 [OF this] e2 q have t: "1 / 2 \<le> ?t" "?t < 3 / 2" by linarith+
  have "\<lfloor>?t + 1 / 2\<rfloor> = 1" using t by (simp add: floor_eq_iff)
  then have "f64_round ?t = 1" using t by (simp add: f64_round_def)
  then show ?thesis using assms by (simp add: sleep_ms_def inter_request_time_def f64_to_u64_def)
qed


section \<open>Properties\<close>

definition quiet_world :: client_world where
  "quiet_world = \<lparr>client_ke_s = up_channel, client_ntp_s = up_channel, client_err_s = up_channel, KE_TIMEOUT = 0,
     KE_OS_FAILURE = 0, KE_OTHER = 0, NTP_TIMEOUT = 0, NTP_OS_FAILURE = 0, NTP_OTHER = 0\<rparr>"

definition timeout_job :: job_env where
  "timeout_job = \<lparr>job_ke = net_ke_env\<lparr>connect_timeout := \<lambda>_. Err (Io_Error TimedOut ''connection timed out'')\<rparr>,
     job_ke_nanos = 5, job_ntp = (\<lambda>_. net_ntp_env), job_ntp_nanos = (\<lambda>_. 7)\<rparr>"

lemma timeout_counted:
  assumes "measure_runs A net_config n [[timeout_job]] quiet_world = (w, Ok ())"
  shows "KE_TIMEOUT w = 1"
proof -
  have "run_nts_ke_client (job_ke timeout_job) net_config = Err (KeIo (Io_Error TimedOut ''connection timed out''))"
    by (simp add: run_nts_ke_client_def timeout_job_def net_ke_env_def net_config_def client_port_def select_addr_def)
  moreover have "str_contains ''connection timed out'' ''time''" by code_simp
  ultimately show ?thesis
    using assms by (auto simp: client_job_def count_ke_error_def quiet_world_def up_channel_def send_err_def send_ke_def
        send_ntp_def chan_send_def report_errors_def)
qed

text \<open>
  C37: The experiment accounts for every failure: whatever the servers do to the clients of any
  number of runs, the measurement ends, and the six counters together equal the number of error messages sent, as
  32-bit numbers, if they did before. The three channels are set up and their writers alive.
\<close>

theorem experiment_accounts_failures:
  assumes "channels_ok w" and "failures w = of_nat (length (chan_sent (client_err_s w)))"
  shows "\<exists>w'. measure_runs A cfg exchanges runs w = (w', Ok ()) \<and> channels_ok w' \<and>
    failures w' = of_nat (length (chan_sent (client_err_s w')))"
  using measure_runs_accounted [of w] assms by (simp add: accounted_def)

theorem experiment_accounts_failures_witness:
  "\<exists>w'. measure_runs checksum_aead net_config 2 [[timeout_job]] quiet_world = (w', Ok ()) \<and>
    KE_TIMEOUT w' = 1 \<and> failures w' = of_nat (length (chan_sent (client_err_s w')))"
proof -
  have "channels_ok quiet_world" "failures quiet_world = of_nat (length (chan_sent (client_err_s quiet_world)))"
    by (simp_all add: quiet_world_def channels_ok_def failures_def up_channel_def)
  from experiment_accounts_failures [OF this, of checksum_aead net_config 2 "[[timeout_job]]"]
  show ?thesis by (auto simp: timeout_counted)
qed

text \<open>
  The pause between two requests is rounded to whole milliseconds, so the client does not
  keep to the rate it announces: for every rate from 667 to 1999 requests per second it pauses one millisecond, and
  requests are issued as for a rate of 1000.
\<close>

lemma request_rate_rounded:
  assumes "667 \<le> r" and "r \<le> 1999"
  shows "sleep_ms r = 1 \<and> sleep_ms r = sleep_ms 1000"
  using pause_one_ms [OF assms] pause_one_ms [of 1000] by simp

lemma request_rate_rounded_witness: "sleep_ms 700 = 1 \<and> sleep_ms 1999 = sleep_ms 1000"
  using request_rate_rounded [of 700] request_rate_rounded [of 1999] by auto

end
