(* ===== verification/Metrics.thy ===== *)
theory Metrics
  imports Config
begin

text \<open>
  \<^verbatim>\<open>src/src/metrics.rs\<close>: the HTTP server that hands the counters to Prometheus. The text of the
  counters, the sockets and what a peer sends are arguments. A peer may go on sending for ever, so the
  wait for a request is a partial function; the property says exactly when it returns and with what.
\<close>

section \<open>Definitions\<close>

text \<open>What a peer sends, position by position: a byte, the end of the stream or an error.\<close>

datatype tcp_in = Byte u8 | Eof | Fail io_error

type_synonym tcp_peer = "nat \<Rightarrow> tcp_in"

text \<open>
  \<^verbatim>\<open>std::str::from_utf8\<close> accepts a sequence of bytes: one to four bytes per character, without
  overlong forms, surrogates and values past the last character.
\<close>

definition utf8_tail :: "u8 \<Rightarrow> bool" where
  "utf8_tail b \<longleftrightarrow> 0x80 \<le> b \<and> b \<le> 0xBF"

fun utf8_valid :: "bytes \<Rightarrow> bool" where
  "utf8_valid [] = True"
| "utf8_valid (a # r) =
     (if a < 0x80 then utf8_valid r
      else if 0xC2 \<le> a \<and> a \<le> 0xDF then
        (case r of b # r \<Rightarrow> utf8_tail b \<and> utf8_valid r | _ \<Rightarrow> False)
      else if 0xE0 \<le> a \<and> a \<le> 0xEF then
        (case r of
           b # c # r \<Rightarrow> (if a = 0xE0 then 0xA0 \<le> b \<and> b \<le> 0xBF else if a = 0xED then 0x80 \<le> b \<and> b \<le> 0x9F else utf8_tail b) \<and>
             utf8_tail c \<and> utf8_valid r
         | _ \<Rightarrow> False)
      else if 0xF0 \<le> a \<and> a \<le> 0xF4 then
        (case r of
           b # c # d # r \<Rightarrow> (if a = 0xF0 then 0x90 \<le> b \<and> b \<le> 0xBF else if a = 0xF4 then 0x80 \<le> b \<and> b \<le> 0x8F else utf8_tail b) \<and>
             utf8_tail c \<and> utf8_tail d \<and> utf8_valid r
         | _ \<Rightarrow> False)
      else False)"

text \<open>\<^verbatim>\<open>BufRead::read_until\<close> a line feed, from a position: the bytes and the position after them.\<close>

partial_function (option) read_until ::
  "tcp_peer \<Rightarrow> nat \<Rightarrow> bytes \<Rightarrow> (bytes \<times> nat, io_error) result option" where
  "read_until peer n buf =
     (case peer n of
        Fail e \<Rightarrow> Some (Err e)
      | Eof \<Rightarrow> Some (Ok (buf, n))
      | Byte b \<Rightarrow> if b = 0x0A then Some (Ok (buf @ [b], n + 1)) else read_until peer (n + 1) (buf @ [b]))"

definition not_utf8 :: io_error where
  "not_utf8 = Io_Error InvalidData ''stream did not contain valid UTF-8''"

text \<open>\<^verbatim>\<open>BufRead::read_line\<close>: the line has to be UTF-8; an error of the stream comes first.\<close>

definition read_line :: "tcp_peer \<Rightarrow> nat \<Rightarrow> (bytes \<times> nat, io_error) result option" where
  "read_line peer n =
     map_option (\<lambda>r. bind_r r (\<lambda>(line, n'). if utf8_valid line then Ok (line, n') else Err not_utf8)) (read_until peer n [])"

text \<open>No value stands for a wait that never ends.\<close>

partial_function (option) wait_for_req_or_eof :: "tcp_peer \<Rightarrow> nat \<Rightarrow> (unit, io_error) result option" where
  "wait_for_req_or_eof peer n =
     Option.bind (read_line peer n) (\<lambda>res.
     case res of
       Err e \<Rightarrow> Some (Err e)
     | Panic p \<Rightarrow> Some (Panic p)
     | Ok (req_line, n') \<Rightarrow>
         if length req_line = 0 \<or> req_line = [0x0D, 0x0A] then Some (Ok ())
         else wait_for_req_or_eof peer n')"

definition CRLF :: string where "CRLF = [CHR 0x0D, CHR 0x0A]"

text \<open>\<open>metrics\<close> is the text the Prometheus encoder produces.\<close>

definition scrape_result :: "string \<Rightarrow> string" where
  "scrape_result metrics =
     ''HTTP/1.1 200 OK'' @ CRLF @ ''Content-Type: text/plain; version=0.0.4'' @ CRLF @ CRLF @ metrics"

text \<open>What is sent: \<^verbatim>\<open>write\<close> may take only the first \<open>n\<close> bytes; its errors and those of the shutdown are logged.\<close>

definition serve_metrics ::
  "tcp_peer \<Rightarrow> string \<Rightarrow> (nat, io_error) result \<Rightarrow> (string, io_error) result option" where
  "serve_metrics peer metrics written =
     map_option (\<lambda>r. bind_r r (\<lambda>_.
       case written of
         Ok n \<Rightarrow> Ok (take n (scrape_result metrics))
       | Err e \<Rightarrow> Ok []
       | Panic p \<Rightarrow> Panic p)) (wait_for_req_or_eof peer 0)"

text \<open>The accept loop over the streams that come in; each is served by its own thread.\<close>

fun metrics_loop :: "('c, io_error) result list \<Rightarrow> 'c list \<times> (unit, io_error) result" where
  "metrics_loop [] = ([], Err (Io_Error Other ''unreachable''))"
| "metrics_loop (Ok conn # streams) = (case metrics_loop streams of (served, r) \<Rightarrow> (conn # served, r))"
| "metrics_loop (Err e # streams) = ([], Err e)"
| "metrics_loop (Panic p # streams) = ([], Panic p)"

definition run_metrics ::
  "(string \<Rightarrow> u16 \<Rightarrow> (unit, io_error) result) \<Rightarrow> metrics_config \<Rightarrow> ('c, io_error) result list \<Rightarrow>
     'c list \<times> (unit, io_error) result" where
  "run_metrics tcp_bind conf streams =
     (case tcp_bind (mc_addr conf) (mc_port conf) of
        Ok _ \<Rightarrow> metrics_loop streams
      | Err e \<Rightarrow> ([], Err e)
      | Panic p \<Rightarrow> ([], Panic p))"

section \<open>Lemmas\<close>

text \<open>The peer sends given bytes from a position on; a line with its line feed.\<close>

definition sends :: "tcp_peer \<Rightarrow> nat \<Rightarrow> bytes \<Rightarrow> bool" where
  "sends peer n bs \<longleftrightarrow> (\<forall>i<length bs. peer (n + i) = Byte (bs ! i))"

definition is_line :: "bytes \<Rightarrow> bool" where
  "is_line l \<longleftrightarrow> (\<exists>t. l = t @ [0x0A] \<and> 0x0A \<notin> set t)"

lemma sends_Nil [simp]: "sends peer n []"
  by (simp add: sends_def)

lemma sends_Cons [simp]: "sends peer n (b # bs) \<longleftrightarrow> peer n = Byte b \<and> sends peer (Suc n) bs"
  by (auto simp: sends_def nth_Cons' less_Suc_eq_0_disj all_conj_distrib)

lemma sends_append [simp]: "sends peer n (xs @ ys) \<longleftrightarrow> sends peer n xs \<and> sends peer (n + length xs) ys"
  by (induction xs arbitrary: n) auto

lemma is_line_simps [simp]: "\<not> is_line []" "is_line (b # l) \<longleftrightarrow> (if b = 0x0A then l = [] else is_line l)"
  by (auto simp: is_line_def Cons_eq_append_conv)

text \<open>How reading a line ends: with a line feed, at the end of the stream or with an error.\<close>

definition line_read :: "tcp_peer \<Rightarrow> nat \<Rightarrow> bytes \<Rightarrow> (nat, io_error) result \<Rightarrow> bool" where
  "line_read peer n l r \<longleftrightarrow> sends peer n l \<and>
     (is_line l \<and> r = Ok (n + length l) \<or>
      0x0A \<notin> set l \<and> (peer (n + length l) = Eof \<and> r = Ok (n + length l) \<or> (\<exists>e. peer (n + length l) = Fail e \<and> r = Err e)))"

lemma line_read_Cons:
  "line_read peer n (b # l) r \<longleftrightarrow>
     peer n = Byte b \<and> (if b = 0x0A then l = [] \<and> r = Ok (n + 1) else line_read peer (n + 1) l r)"
  by (auto simp: line_read_def)

lemma line_read_Nil:
  "line_read peer n [] r \<longleftrightarrow> peer n = Eof \<and> r = Ok n \<or> (\<exists>e. peer n = Fail e \<and> r = Err e)"
  by (auto simp: line_read_def)

lemma read_until_Some:
  assumes "read_until peer n buf = Some x"
  shows "\<exists>l r. line_read peer n l r \<and> x = bind_r r (\<lambda>m. Ok (buf @ l, m))"
proof (rule read_until.raw_induct [OF _ assms])
  fix f peer n buf x
  assume 1: "\<And>peer n buf x. f peer n buf = Some x \<Longrightarrow> \<exists>l r. line_read peer n l r \<and> x = bind_r r (\<lambda>m. Ok (buf @ l, m))"
      "(case peer n of
          Byte b \<Rightarrow> if b = 0x0A then Some (Ok (buf @ [b], n + 1)) else f peer (n + 1) (buf @ [b])
        | Eof \<Rightarrow> Some (Ok (buf, n)) | Fail e \<Rightarrow> Some (Err e)) = Some x"
  show "\<exists>l r. line_read peer n l r \<and> x = bind_r r (\<lambda>m. Ok (buf @ l, m))"
  proof (cases "peer n")
    case (Byte b)
    show ?thesis
    proof (cases "b = 0x0A")
      case True
      then have "line_read peer n [b] (Ok (n + 1))" using Byte by (simp add: line_read_Cons)
      moreover have "x = bind_r (Ok (n + 1)) (\<lambda>m. Ok (buf @ [b], m))" using 1(2) Byte True by simp
      ultimately show ?thesis by blast
    next
      case False
      then obtain l r where "line_read peer (n + 1) l r" "x = bind_r r (\<lambda>m. Ok ((buf @ [b]) @ l, m))"
        using 1(1) [of peer "n + 1" "buf @ [b]" x] 1(2) Byte by auto
      then have "line_read peer n (b # l) r \<and> x = bind_r r (\<lambda>m. Ok (buf @ b # l, m))"
        using False Byte by (simp add: line_read_Cons)
      then show ?thesis by blast
    qed
  next
    case Eof
    then have "line_read peer n [] (Ok n) \<and> x = bind_r (Ok n) (\<lambda>m. Ok (buf @ [], m))"
      using 1(2) by (simp add: line_read_Nil)
    then show ?thesis by blast
  next
    case (Fail e)
    then have "line_read peer n [] (Err e) \<and> x = bind_r (Err e) (\<lambda>m. Ok (buf @ [], m))"
      using 1(2) by (simp add: line_read_Nil)
    then show ?thesis by blast
  qed
qed

lemma read_until_line: "line_read peer n l r \<Longrightarrow> read_until peer n buf = Some (bind_r r (\<lambda>m. Ok (buf @ l, m)))"
proof (induction l arbitrary: n buf)
  case Nil
  then show ?case by (subst read_until.simps) (auto simp: line_read_Nil)
next
  case (Cons b l)
  then show ?case by (subst read_until.simps) (auto simp: line_read_Cons split: if_splits)
qed

lemma read_line_iff:
  "read_line peer n = Some x \<longleftrightarrow>
     (\<exists>l r. line_read peer n l r \<and> x = bind_r r (\<lambda>m. if utf8_valid l then Ok (l, m) else Err not_utf8))"
proof
  assume "read_line peer n = Some x"
  then obtain y where y: "read_until peer n [] = Some y"
    "x = bind_r y (\<lambda>(line, n'). if utf8_valid line then Ok (line, n') else Err not_utf8)" by (auto simp: read_line_def)
  obtain l r where "line_read peer n l r" "y = bind_r r (\<lambda>m. Ok ([] @ l, m))" using read_until_Some [OF y(1)] by blast
  with y(2) show "\<exists>l r. line_read peer n l r \<and> x = bind_r r (\<lambda>m. if utf8_valid l then Ok (l, m) else Err not_utf8)"
    by (intro exI [of _ l] exI [of _ r]) (cases r; simp)
next
  assume "\<exists>l r. line_read peer n l r \<and> x = bind_r r (\<lambda>m. if utf8_valid l then Ok (l, m) else Err not_utf8)"
  then obtain l r where l: "line_read peer n l r" "x = bind_r r (\<lambda>m. if utf8_valid l then Ok (l, m) else Err not_utf8)" by blast
  from read_until_line [OF l(1), of "[]"] l(2) show "read_line peer n = Some x"
    by (cases r) (simp_all add: read_line_def)
qed

text \<open>A line of a request that is not its last, and how the last one decides.\<close>

definition goes_on :: "bytes \<Rightarrow> bool" where
  "goes_on l \<longleftrightarrow> is_line l \<and> utf8_valid l \<and> l \<noteq> [0x0D, 0x0A]"

definition decides :: "tcp_in \<Rightarrow> bytes \<Rightarrow> (unit, io_error) result \<Rightarrow> bool" where
  "decides next piece r \<longleftrightarrow>
     piece = [0x0D, 0x0A] \<and> r = Ok () \<or>
     is_line piece \<and> \<not> utf8_valid piece \<and> r = Err not_utf8 \<or>
     0x0A \<notin> set piece \<and> next = Eof \<and> r = (if utf8_valid piece then Ok () else Err not_utf8) \<or>
     0x0A \<notin> set piece \<and> (\<exists>e. next = Fail e \<and> r = Err e)"

definition request_read :: "tcp_peer \<Rightarrow> nat \<Rightarrow> (unit, io_error) result \<Rightarrow> bool" where
  "request_read peer n r \<longleftrightarrow>
     (\<exists>ls piece. list_all goes_on ls \<and> sends peer n (concat ls @ piece) \<and>
        decides (peer (n + length (concat ls @ piece))) piece r)"

lemma request_read_last: "sends peer n l \<Longrightarrow> decides (peer (n + length l)) l r \<Longrightarrow> request_read peer n r"
  unfolding request_read_def by (intro exI [of _ "[]"] exI [of _ l]) simp

lemma request_read_line:
  assumes "goes_on l" and "sends peer n l" and "request_read peer (n + length l) r"
  shows "request_read peer n r"
proof -
  obtain ls piece where "list_all goes_on ls" "sends peer (n + length l) (concat ls @ piece)"
    "decides (peer (n + length l + length (concat ls @ piece))) piece r" using assms(3) unfolding request_read_def by blast
  with assms(1,2) show ?thesis
    unfolding request_read_def by (intro exI [of _ "l # ls"] exI [of _ piece]) (simp add: add.assoc)
qed

lemma request_read_eof: "peer n = Eof \<Longrightarrow> request_read peer n r \<longleftrightarrow> r = Ok ()"
proof
  assume e: "peer n = Eof" and "request_read peer n r"
  then obtain ls piece where l: "list_all goes_on ls" "sends peer n (concat ls @ piece)"
    "decides (peer (n + length (concat ls @ piece))) piece r" unfolding request_read_def by blast
  have "concat ls @ piece = []" using l(2) e by (cases "concat ls @ piece") auto
  with l(3) e show "r = Ok ()" by (simp add: decides_def)
qed (auto intro: request_read_last [of _ _ "[]"] simp: decides_def)

lemma wait_returns:
  assumes "wait_for_req_or_eof peer n = Some r"
  shows "request_read peer n r"
proof (rule wait_for_req_or_eof.raw_induct [OF _ assms])
  fix f peer n r
  assume 1: "\<And>peer n r. f peer n = Some r \<Longrightarrow> request_read peer n r"
      "Option.bind (read_line peer n) (\<lambda>res. case res of
         Ok (req_line, n') \<Rightarrow> if length req_line = 0 \<or> req_line = [0x0D, 0x0A] then Some (Ok ()) else f peer n'
       | Err e \<Rightarrow> Some (Err e) | Panic p \<Rightarrow> Some (Panic p)) = Some r"
  obtain x where x: "read_line peer n = Some x" using 1(2) by (cases "read_line peer n") auto
  obtain l q where l: "line_read peer n l q" "x = bind_r q (\<lambda>m. if utf8_valid l then Ok (l, m) else Err not_utf8)"
    using x unfolding read_line_iff by blast
  have s: "sends peer n l" using l(1) by (simp add: line_read_def)
  show "request_read peer n r"
  proof (cases q)
    case (Ok m)
    then have m: "m = n + length l" using l(1) by (auto simp: line_read_def)
    show ?thesis
    proof (cases "utf8_valid l \<and> l \<noteq> [] \<and> l \<noteq> [0x0D, 0x0A]")
      case True
      then have r: "request_read peer m r" using 1 x l(2) Ok by auto
      show ?thesis
      proof (cases "is_line l")
        case line: True
        with True r m s show ?thesis by (auto intro!: request_read_line [of l] simp: goes_on_def)
      next
        case False
        then have e: "0x0A \<notin> set l" "peer m = Eof" using l(1) Ok m by (auto simp: line_read_def)
        then have "decides (peer (n + length l)) l r" using r True m by (simp add: request_read_eof decides_def)
        with s show ?thesis by (rule request_read_last)
      qed
    next
      case False
      then have "decides (peer (n + length l)) l r"
        using l Ok 1(2) x m by (auto simp: decides_def line_read_def split: if_splits)
      with s show ?thesis by (rule request_read_last)
    qed
  next
    case (Err e)
    then have "decides (peer (n + length l)) l r" using l 1(2) x by (auto simp: decides_def line_read_def)
    with s show ?thesis by (rule request_read_last)
  next
    case (Panic p)
    then show ?thesis using l(1) by (simp add: line_read_def)
  qed
qed

lemma wait_eof: "peer n = Eof \<Longrightarrow> wait_for_req_or_eof peer n = Some (Ok ())"
proof -
  assume "peer n = Eof"
  then have "read_line peer n = Some (Ok ([], n))"
    unfolding read_line_iff by (intro exI [of _ "[]"] exI [of _ "Ok n"]) (simp add: line_read_Nil)
  then show ?thesis by (subst wait_for_req_or_eof.simps) simp
qed

lemma wait_decides:
  assumes "sends peer n l" and "decides (peer (n + length l)) l r"
  shows "wait_for_req_or_eof peer n = Some r"
proof -
  have line: "read_line peer n = Some (if utf8_valid l then Ok (l, n + length l) else Err not_utf8)"
    if "is_line l \<or> 0x0A \<notin> set l \<and> peer (n + length l) = Eof"
    unfolding read_line_iff using assms(1) that
    by (intro exI [of _ l] exI [of _ "Ok (n + length l)"]) (auto simp: line_read_def)
  show ?thesis using assms(2) unfolding decides_def
  proof (elim disjE conjE exE)
    assume "l = [0x0D, 0x0A]" and "r = Ok ()"
    with line show ?thesis by (subst wait_for_req_or_eof.simps) simp
  next
    assume "is_line l" and "\<not> utf8_valid l" and "r = Err not_utf8"
    with line show ?thesis by (subst wait_for_req_or_eof.simps) simp
  next
    assume e: "0x0A \<notin> set l" "peer (n + length l) = Eof" "r = (if utf8_valid l then Ok () else Err not_utf8)"
    with line wait_eof [of peer, OF e(2)] show ?thesis by (subst wait_for_req_or_eof.simps) auto
  next
    fix e
    assume e: "0x0A \<notin> set l" "peer (n + length l) = Fail e" "r = Err e"
    then have "read_line peer n = Some (Err e)"
      unfolding read_line_iff using assms(1) by (intro exI [of _ l] exI [of _ "Err e"]) (simp add: line_read_def)
    with e show ?thesis by (subst wait_for_req_or_eof.simps) auto
  qed
qed

lemma wait_goes_on:
  assumes "goes_on l" and "sends peer n l"
  shows "wait_for_req_or_eof peer n = wait_for_req_or_eof peer (n + length l)"
proof -
  have "read_line peer n = Some (Ok (l, n + length l))"
    unfolding read_line_iff using assms
    by (intro exI [of _ l] exI [of _ "Ok (n + length l)"]) (simp add: line_read_def goes_on_def)
  moreover have "l \<noteq> []" using assms(1) by (auto simp: goes_on_def)
  ultimately show ?thesis using assms(1) by (subst wait_for_req_or_eof.simps) (simp add: goes_on_def)
qed

lemma wait_request:
  "list_all goes_on ls \<Longrightarrow> sends peer n (concat ls @ l) \<Longrightarrow> decides (peer (n + length (concat ls @ l))) l r \<Longrightarrow>
     wait_for_req_or_eof peer n = Some r"
proof (induction ls arbitrary: n)
  case Nil
  then show ?case by (auto intro: wait_decides)
next
  case (Cons x ls)
  then show ?case using wait_goes_on [of x peer n] Cons.IH [of "n + length x"] by (simp add: add.assoc)
qed

section \<open>Properties\<close>

text \<open>
  C36: When the wait for a scrape request ends, and with what, for every peer, also one that never stops sending.
  It returns exactly when the peer has sent some lines that are UTF-8 and not blank and after them
  either a blank line (success), a line that is not UTF-8 (an \<^verbatim>\<open>InvalidData\<close> error), a last piece without a line feed and then the end of
  the stream (success if the piece is UTF-8, the same error if not), or a piece without a line feed and then an error of
  the stream (that error). For every other peer it does not return: a peer that keeps sending non-blank lines, or an endless line, keeps its
  thread.
\<close>

theorem metrics_request_ends:
  "wait_for_req_or_eof peer 0 = Some r \<longleftrightarrow>
     (\<exists>ls l. list_all (\<lambda>x. is_line x \<and> utf8_valid x \<and> x \<noteq> [0x0D, 0x0A]) ls \<and> sends peer 0 (concat ls @ l) \<and>
        (l = [0x0D, 0x0A] \<and> r = Ok () \<or>
         is_line l \<and> \<not> utf8_valid l \<and> r = Err not_utf8 \<or>
         0x0A \<notin> set l \<and> peer (length (concat ls @ l)) = Eof \<and> r = (if utf8_valid l then Ok () else Err not_utf8) \<or>
         0x0A \<notin> set l \<and> (\<exists>e. peer (length (concat ls @ l)) = Fail e \<and> r = Err e)))"
proof
  assume "wait_for_req_or_eof peer 0 = Some r"
  from wait_returns [OF this] show "\<exists>ls l. list_all (\<lambda>x. is_line x \<and> utf8_valid x \<and> x \<noteq> [0x0D, 0x0A]) ls \<and> sends peer 0 (concat ls @ l) \<and>
        (l = [0x0D, 0x0A] \<and> r = Ok () \<or>
         is_line l \<and> \<not> utf8_valid l \<and> r = Err not_utf8 \<or>
         0x0A \<notin> set l \<and> peer (length (concat ls @ l)) = Eof \<and> r = (if utf8_valid l then Ok () else Err not_utf8) \<or>
         0x0A \<notin> set l \<and> (\<exists>e. peer (length (concat ls @ l)) = Fail e \<and> r = Err e))"
    by (simp add: request_read_def decides_def goes_on_def [abs_def])
qed (use wait_request [of _ peer 0 _ r] in \<open>auto simp: decides_def goes_on_def [abs_def]\<close>)

text \<open>Peers that send given bytes and then the letter A for ever.\<close>

definition endless_peer :: "bytes \<Rightarrow> tcp_peer" where
  "endless_peer bs n = (if n < length bs then Byte (bs ! n) else Byte 0x41)"

theorem metrics_request_ends_witness:
  "wait_for_req_or_eof (endless_peer [0x47, 0x0A, 0x0D, 0x0A]) 0 = Some (Ok ()) \<and>
   wait_for_req_or_eof (endless_peer [0x47, 0x0A, 0xFF, 0x0A, 0x0D, 0x0A]) 0 = Some (Err not_utf8) \<and>
   wait_for_req_or_eof (endless_peer []) 0 = None"
proof (intro conjI)
  show "wait_for_req_or_eof (endless_peer [0x47, 0x0A, 0x0D, 0x0A]) 0 = Some (Ok ())"
    unfolding metrics_request_ends
    by (intro exI [of _ "[[0x47, 0x0A]]"] exI [of _ "[0x0D, 0x0A]"]) (simp add: endless_peer_def)
  show "wait_for_req_or_eof (endless_peer [0x47, 0x0A, 0xFF, 0x0A, 0x0D, 0x0A]) 0 = Some (Err not_utf8)"
    unfolding metrics_request_ends
    by (intro exI [of _ "[[0x47, 0x0A]]"] exI [of _ "[0xFF, 0x0A]"]) (simp add: endless_peer_def)
  have "wait_for_req_or_eof (endless_peer []) 0 \<noteq> Some r" for r
  proof
    assume "wait_for_req_or_eof (endless_peer []) 0 = Some r"
    then obtain ls l where l: "sends (endless_peer []) 0 (concat ls @ l)" "l = [0x0D, 0x0A] \<or> is_line l"
      unfolding metrics_request_ends by (auto simp: endless_peer_def)
    have "sends (endless_peer []) (length (concat ls)) l" using l(1) by simp
    then have "b = 0x41" if "b \<in> set l" for b
      using that by (auto simp: sends_def in_set_conv_nth endless_peer_def)
    moreover have "0x0A \<in> set l" using l(2) by (auto simp: is_line_def)
    ultimately have "(0x0A :: u8) = 0x41" by blast
    then show False by simp
  qed
  then show "wait_for_req_or_eof (endless_peer []) 0 = None" by auto
qed

end
