(* ===== verification/Main_Program.thy ===== *)
theory Main_Program
  imports Experiment Metrics
begin

text \<open>
  \<^verbatim>\<open>src/src/main.rs\<close> and the command line of \<^verbatim>\<open>src/src/cmd.rs\<close>: the logger's level, the channels
  and writer threads of the measurements, and the choice of the sub-command. The sub-commands are
  arguments here; their models are \<open>ke_server_run\<close>, \<open>ntp_server_run\<close> and \<open>client_run\<close>.
\<close>

section \<open>The command line\<close>

text \<open>An argument of clap, as far as the program sets its attributes.\<close>

record arg =
  arg_name :: string
  arg_index :: "nat option"
  arg_long :: "string option"
  arg_short :: "string option"
  takes_value :: bool
  arg_required :: bool
  conflicts_with :: "string option"

definition flag_arg :: "string \<Rightarrow> string \<Rightarrow> string \<Rightarrow> arg" where
  "flag_arg name long short =
     \<lparr>arg_name = name, arg_index = None, arg_long = Some long, arg_short = Some short, takes_value = False,
      arg_required = False, conflicts_with = None\<rparr>"

record app =
  app_name :: string
  app_args :: "arg list"

definition create_clap_client_subcommand :: app where
  "create_clap_client_subcommand =
     \<lparr>app_name = ''client'',
      app_args =
        [\<lparr>arg_name = ''host'', arg_index = Some 1, arg_long = None, arg_short = None, takes_value = True,
          arg_required = True, conflicts_with = None\<rparr>,
         (flag_arg ''port'' ''port'' ''p'')\<lparr>takes_value := True\<rparr>,
         (flag_arg ''cert'' ''cert'' ''c'')\<lparr>takes_value := True\<rparr>,
         (flag_arg ''ipv4'' ''ipv4'' ''4'')\<lparr>conflicts_with := Some ''ipv6''\<rparr>,
         (flag_arg ''ipv6'' ''ipv6'' ''6'')\<lparr>conflicts_with := Some ''ipv4''\<rparr>]\<rparr>"

definition create_clap_ke_server_subcommand :: app where
  "create_clap_ke_server_subcommand =
     \<lparr>app_name = ''ke-server'', app_args = [(flag_arg ''configfile'' ''file'' ''f'')\<lparr>takes_value := True\<rparr>]\<rparr>"

definition create_clap_ntp_server_subcommand :: app where
  "create_clap_ntp_server_subcommand =
     \<lparr>app_name = ''ntp-server'', app_args = [(flag_arg ''configfile'' ''file'' ''f'')\<lparr>takes_value := True\<rparr>]\<rparr>"

definition create_clap_command :: "arg list \<times> app list" where
  "create_clap_command =
     ([flag_arg ''debug'' ''debug'' ''d''],
      [create_clap_client_subcommand, create_clap_ke_server_subcommand, create_clap_ntp_server_subcommand])"

text \<open>
  What clap documents of the matches it returns for a sub-command: required arguments are there, only
  declared arguments are, and conflicting ones are not there together.
\<close>

definition matches_app :: "app \<Rightarrow> arg_matches \<Rightarrow> bool" where
  "matches_app a m \<longleftrightarrow>
     (\<forall>x\<in>set (app_args a). (arg_required x \<longrightarrow> value_of m (arg_name x) \<noteq> None) \<and>
        (\<forall>y. conflicts_with x = Some y \<longrightarrow> is_present m (arg_name x) \<longrightarrow> \<not> is_present m y)) \<and>
     (\<forall>n. value_of m n \<noteq> None \<longrightarrow> n \<in> arg_name ` set (app_args a))"

section \<open>The logger\<close>

datatype severity = Info | Debug
datatype destination = Stdout | Stderr

record logger =
  log_level :: severity
  log_destination :: destination

definition create_logger :: "arg_matches \<Rightarrow> logger" where
  "create_logger matches =
     \<lparr>log_level = (if is_present matches ''debug'' then Debug else Info), log_destination = Stdout\<rparr>"

section \<open>Main\<close>

record cells =
  CLIENT_KE_S :: channel
  CLIENT_NTP_S :: channel
  CLIENT_ERR_S :: channel
  SERVER_KE_S :: channel
  SERVER_NTP_S :: channel
  SERVER_NTS_S :: channel

definition empty_cells :: cells where
  "empty_cells = \<lparr>CLIENT_KE_S = empty_cell, CLIENT_NTP_S = empty_cell, CLIENT_ERR_S = empty_cell,
     SERVER_KE_S = empty_cell, SERVER_NTP_S = empty_cell, SERVER_NTS_S = empty_cell\<rparr>"

text \<open>A channel is put into its cell and the writer thread opens its file.\<close>

definition make_channel :: "(string \<Rightarrow> bool) \<Rightarrow> string \<Rightarrow> channel \<Rightarrow> (channel, 'e) result" where
  "make_channel file_opens file ch = bind_r (fill_cell ch) (\<lambda>ch. Ok (writer_open (file_opens file) ch))"

definition prepare_ke_server :: "(string \<Rightarrow> bool) \<Rightarrow> cells \<Rightarrow> (cells, 'e) result" where
  "prepare_ke_server file_opens cs =
     bind_r (make_channel file_opens ''results/server_ke_create'' (SERVER_KE_S cs)) (\<lambda>ch.
     Ok (cs\<lparr>SERVER_KE_S := ch\<rparr>))"

definition prepare_ntp_server :: "(string \<Rightarrow> bool) \<Rightarrow> cells \<Rightarrow> (cells, 'e) result" where
  "prepare_ntp_server file_opens cs =
     bind_r (make_channel file_opens ''results/server_ntp_alone'' (SERVER_NTP_S cs)) (\<lambda>ch.
     let cs = cs\<lparr>SERVER_NTP_S := ch\<rparr> in
     bind_r (make_channel file_opens ''results/server_nts_auth'' (SERVER_NTS_S cs)) (\<lambda>ch.
     Ok (cs\<lparr>SERVER_NTS_S := ch\<rparr>)))"

definition prepare_client :: "(string \<Rightarrow> bool) \<Rightarrow> cells \<Rightarrow> (cells, 'e) result" where
  "prepare_client file_opens cs =
     bind_r (make_channel file_opens ''results/client_nts_ke'' (CLIENT_KE_S cs)) (\<lambda>ch.
     let cs = cs\<lparr>CLIENT_KE_S := ch\<rparr> in
     bind_r (make_channel file_opens ''results/client_nts_ntp'' (CLIENT_NTP_S cs)) (\<lambda>ch.
     let cs = cs\<lparr>CLIENT_NTP_S := ch\<rparr> in
     bind_r (make_channel file_opens ''results/client_err'' (CLIENT_ERR_S cs)) (\<lambda>ch.
     Ok (cs\<lparr>CLIENT_ERR_S := ch\<rparr>))))"

text \<open>The sub-commands, which run with the cells that were prepared for them.\<close>

record sub_commands =
  run_ke_server :: "arg_matches \<Rightarrow> cells \<Rightarrow> process_end"
  run_ntp_server :: "arg_matches \<Rightarrow> cells \<Rightarrow> process_end"
  run_client :: "arg_matches \<Rightarrow> cells \<Rightarrow> process_end"

text \<open>One \<^verbatim>\<open>if let Some(..) = matches.subcommand_matches(name)\<close>: a process that ended stays ended.\<close>

definition run_if ::
  "string \<Rightarrow> (string \<times> arg_matches) \<Rightarrow> (cells \<Rightarrow> (cells, unit) result) \<Rightarrow> (arg_matches \<Rightarrow> cells \<Rightarrow> process_end) \<Rightarrow>
     cells \<times> process_end \<Rightarrow> cells \<times> process_end" where
  "run_if name sub prepare run s =
     (case s of
        (cs, Returned) \<Rightarrow>
          if fst sub = name then
            (case prepare cs of
               Ok cs' \<Rightarrow> (cs', run (snd sub) cs')
             | Err _ \<Rightarrow> (cs, Panicked ''unable to fill once cell.'')
             | Panic p \<Rightarrow> (cs, Panicked p))
          else s
      | _ \<Rightarrow> s)"

definition main_program ::
  "(string \<Rightarrow> bool) \<Rightarrow> sub_commands \<Rightarrow> (string \<times> arg_matches) option \<Rightarrow> cells \<Rightarrow> cells \<times> process_end" where
  "main_program file_opens subs subcommand cs =
     (case subcommand of
        None \<Rightarrow> (cs, Exit 1)
      | Some sub \<Rightarrow>
          run_if ''client'' sub (prepare_client file_opens) (run_client subs)
            (run_if ''ntp-server'' sub (prepare_ntp_server file_opens) (run_ntp_server subs)
              (run_if ''ke-server'' sub (prepare_ke_server file_opens) (run_ke_server subs) (cs, Returned))))"

section \<open>Lemmas\<close>

lemma make_channel_empty:
  "make_channel file_opens f empty_cell = Ok \<lparr>chan_set = True, chan_open = file_opens f, chan_sent = []\<rparr>"
  by (simp add: make_channel_def fill_cell_def empty_cell_def writer_open_def)

text \<open>On a declared command line the client has a host and at most one IP version.\<close>

lemma matches_client:
  assumes "matches_app create_clap_client_subcommand m"
  shows "value_of m ''host'' \<noteq> None" and "is_present m ''ipv4'' \<Longrightarrow> \<not> is_present m ''ipv6''"
  using assms by (auto simp: matches_app_def create_clap_client_subcommand_def flag_arg_def)

lemma choose_ip_version_declared:
  assumes "matches_app create_clap_client_subcommand m"
  shows "choose_ip_version m =
    (if is_present m ''ipv4'' then Some True else if is_present m ''ipv6'' then Some False else None)"
    and "choose_ip_version m = Some False \<longleftrightarrow> is_present m ''ipv6''"
  using matches_client(2) [OF assms] by (auto simp: choose_ip_version_def)

section \<open>The choice of the sub-command\<close>

text \<open>
  The program runs exactly the sub-command it was asked for, with the measurement channels
  this sub-command uses set up and those of the others empty; each channel is alive exactly when
  the writer could open its file. Without a sub-command it exits with code 1.
\<close>

lemma main_dispatches:
  "main_program file_opens subs None empty_cells = (empty_cells, Exit 1)"
  "main_program file_opens subs (Some (''ke-server'', m)) empty_cells =
     (let cs = empty_cells\<lparr>SERVER_KE_S := \<lparr>chan_set = True, chan_open = file_opens ''results/server_ke_create'', chan_sent = []\<rparr>\<rparr>
      in (cs, run_ke_server subs m cs))"
  "main_program file_opens subs (Some (''ntp-server'', m)) empty_cells =
     (let cs = empty_cells
            \<lparr>SERVER_NTP_S := \<lparr>chan_set = True, chan_open = file_opens ''results/server_ntp_alone'', chan_sent = []\<rparr>,
             SERVER_NTS_S := \<lparr>chan_set = True, chan_open = file_opens ''results/server_nts_auth'', chan_sent = []\<rparr>\<rparr>
      in (cs, run_ntp_server subs m cs))"
  "main_program file_opens subs (Some (''client'', m)) empty_cells =
     (let cs = empty_cells
            \<lparr>CLIENT_KE_S := \<lparr>chan_set = True, chan_open = file_opens ''results/client_nts_ke'', chan_sent = []\<rparr>,
             CLIENT_NTP_S := \<lparr>chan_set = True, chan_open = file_opens ''results/client_nts_ntp'', chan_sent = []\<rparr>,
             CLIENT_ERR_S := \<lparr>chan_set = True, chan_open = file_opens ''results/client_err'', chan_sent = []\<rparr>\<rparr>
      in (cs, run_client subs m cs))"
proof -
  note d = main_program_def run_if_def prepare_ke_server_def prepare_ntp_server_def prepare_client_def Let_def
  have e: "SERVER_KE_S empty_cells = empty_cell" "SERVER_NTP_S empty_cells = empty_cell" "SERVER_NTS_S empty_cells = empty_cell"
    "CLIENT_KE_S empty_cells = empty_cell" "CLIENT_NTP_S empty_cells = empty_cell" "CLIENT_ERR_S empty_cells = empty_cell"
    by (simp_all add: empty_cells_def)
  show "main_program file_opens subs None empty_cells = (empty_cells, Exit 1)" by (simp add: d)
  show "main_program file_opens subs (Some (''ke-server'', m)) empty_cells =
     (let cs = empty_cells\<lparr>SERVER_KE_S := \<lparr>chan_set = True, chan_open = file_opens ''results/server_ke_create'', chan_sent = []\<rparr>\<rparr>
      in (cs, run_ke_server subs m cs))"
    by (simp add: d e make_channel_empty split: process_end.split)
  show "main_program file_opens subs (Some (''ntp-server'', m)) empty_cells =
     (let cs = empty_cells
            \<lparr>SERVER_NTP_S := \<lparr>chan_set = True, chan_open = file_opens ''results/server_ntp_alone'', chan_sent = []\<rparr>,
             SERVER_NTS_S := \<lparr>chan_set = True, chan_open = file_opens ''results/server_nts_auth'', chan_sent = []\<rparr>\<rparr>
      in (cs, run_ntp_server subs m cs))"
    by (simp add: d e make_channel_empty split: process_end.split)
  show "main_program file_opens subs (Some (''client'', m)) empty_cells =
     (let cs = empty_cells
            \<lparr>CLIENT_KE_S := \<lparr>chan_set = True, chan_open = file_opens ''results/client_nts_ke'', chan_sent = []\<rparr>,
             CLIENT_NTP_S := \<lparr>chan_set = True, chan_open = file_opens ''results/client_nts_ntp'', chan_sent = []\<rparr>,
             CLIENT_ERR_S := \<lparr>chan_set = True, chan_open = file_opens ''results/client_err'', chan_sent = []\<rparr>\<rparr>
      in (cs, run_client subs m cs))"
    by (simp add: d e make_channel_empty split: process_end.split)
qed

end
