(* ===== verification/Spec2Isabelle.thy ===== *)
theory Spec2Isabelle
  imports Main_Program
begin

text \<open>
  \<^bold>\<open>A verification development of cfnts\<close>

  cfnts is an implementation of Network Time Security in Rust: a key exchange (NTS-KE) server and
  client over TLS, an NTP server and client whose packets are authenticated with the keys of the
  exchange, and, in this fork, a load experiment around the client. The sources are under \<^verbatim>\<open>src/src\<close>.

  \<^bold>\<open>The program.\<close> A client connects to the NTS-KE server, sends a request made of records and receives
  session keys (exported from TLS), the port of the NTP server and eight cookies: the session keys
  sealed under a master key. It then sends NTP requests with a cookie; the NTP server, which keeps no state per
  client, opens the cookie, checks the authenticator of the request and answers with authenticated
  time and fresh cookies. Both servers derive the master keys of every hour from values in
  memcached with a key rotator that runs in a thread of its own. All parts report durations through channels to
  files, for the measurement.

  \<^bold>\<open>How the code is modelled.\<close> Every function of the source is a HOL function of the same name, or of a name
  close to it. A Rust call ends with \<open>Ok\<close>, \<open>Err\<close> or \<open>Panic\<close> (theory \<open>Prelude\<close>); indexing, slicing,
  \<^verbatim>\<open>unwrap\<close>, \<^verbatim>\<open>expect\<close> and \<^verbatim>\<open>panic!\<close> are panics of the model. Machine integers are words and wrap, as in the release
  profile. Functions that change state take it and return it, also when they fail; global state (counters,
  \<^verbatim>\<open>CLIENT_ADDR\<close>, the channels) is a record that is passed along. Clock readings, random
  bytes, files and the results of system calls are arguments, so that every theorem holds for all of
  them. Floating point numbers are rationals rounded to 53 bits after each operation (theory \<open>F64\<close>).
  Code outside \<^verbatim>\<open>src/\<close> (the AEAD of miscreant, memcached, HMAC, rustls, mio, clap, the config
  crate) is a parameter; what is assumed of it is a named predicate: \<open>aead_correct\<close> (what is
  sealed opens), \<open>aead_expands\<close> (by a 16 byte tag), \<open>aead_committing\<close>, \<open>opens_only_sealed\<close> (nothing opens under a key
  but what was sealed for one of the given packets), \<open>tls_log\<close> and \<open>tls_sound\<close>
  (written data is appended to the stream, keys can be exported once there is plaintext),
  \<open>exporter_stable\<close>, \<open>sockets_up\<close>. A stream that a peer has reset may fail to be shut down and has no peer
  address; the code unwraps both, so such streams (\<open>resettable\<close>) are cases of the statements and not
  assumed away. The AEAD is used with keys of 32 bytes only (HMAC-SHA256 values and keys exported with that length), so
  the panic of its constructor for other lengths is not reached and is not part of the parameter.
  \<open>checksum_aead\<close>, \<open>net_aead\<close> and the scripted TLS session \<open>script_ops\<close> are instances on which the properties are
  applied to concrete inputs.

  \<^bold>\<open>Theories and sources.\<close>
  \<^item> \<open>Prelude\<close>, \<open>Bytes\<close>, \<open>SysTime\<close>, \<open>F64\<close>, \<open>Ip_Addr\<close>, \<open>Net_Text\<close>: results and their binds, locks, the
    locale \<open>transition_system\<close>, big-endian codecs and cursors, \<^verbatim>\<open>SystemTime\<close> and \<^verbatim>\<open>Duration\<close>, rounding,
    and the standard library's parsers and printers of addresses (IPv6 with scope ids, without flow labels) and integers with their
    round trips.
  \<^item> \<open>Aead\<close>, \<open>Protocol\<close>, \<open>Protocol_Nts\<close>, \<open>Protocol_Props\<close>: \<^verbatim>\<open>ntp/protocol.rs\<close>. Round trips of plain and NTS packets;
    what \<^verbatim>\<open>parse_nts_packet\<close> accepts was authenticated when the extension fields are complete; where they
    are not, extensions can be injected and the parser can panic.
  \<^item> \<open>Cookie\<close>: \<^verbatim>\<open>cookie.rs\<close>. Cookies open to the keys they were made for, and only own cookies open.
  \<^item> \<open>Key_Rotator\<close>: \<^verbatim>\<open>key_rotator.rs\<close>. What a rotation caches, the invariant that the latest key is there,
    connecting with retries, and what happens after a long outage.
  \<^item> \<open>Ke_Records\<close>: \<^verbatim>\<open>nts_ke/records/*.rs\<close>. Each record kind interprets the locale \<open>ke_record_laws\<close>; from the
    laws follow the round trip of records and where \<^verbatim>\<open>deserialize\<close> panics.
  \<^item> \<open>Ke_Connection\<close>, \<open>Ke_Connection_Props\<close>: \<^verbatim>\<open>nts_ke/server/connection.rs\<close>. The connection as a transition
    system: one response, after the whole request; bounded buffer; fragmentation does not matter; only a reset stream panics.
  \<^item> \<open>Ke_Listener\<close>, \<open>Ke_Listener_Props\<close>, \<open>Cfsock\<close>: \<^verbatim>\<open>nts_ke/server/listener.rs\<close>, \<^verbatim>\<open>cfsock.rs\<close>. The heap of deadlines is used
    through the locale \<open>min_queue\<close>, interpreted on an ordered list; closing expired connections
    refines the specification \<open>expire\<close>; tokens and deadlines are invariants; the listener goes on until it meets a reset
    stream.
  \<^item> \<open>Measure\<close>, \<open>Ntp_Server\<close>, \<open>Ntp_Answer\<close>, \<open>Ntp_Server_Props\<close>: \<^verbatim>\<open>ntp/server/server.rs\<close>. The answer to every kind of
    request in closed form, accuracy of timestamps, refusals with their counters, the receive loop, and what the upstream
    refresh leaves after any number of rounds.
  \<^item> \<open>Ke_Client\<close>, \<open>Ntp_Client\<close>, \<open>End_To_End\<close>: \<^verbatim>\<open>nts_ke/client.rs\<close>, \<^verbatim>\<open>ntp/client.rs\<close>, and client and server put together; the
    client's result comes from a packet sealed for it.
  \<^item> \<open>Config\<close>, \<open>Servers\<close>, \<open>Metrics\<close>: \<^verbatim>\<open>nts_ke/server/config.rs\<close>, \<^verbatim>\<open>ntp/server/config.rs\<close>, \<^verbatim>\<open>error.rs\<close>,
    \<^verbatim>\<open>nts_ke/server/server.rs\<close>, start-up of the NTP server, \<^verbatim>\<open>sub_command/ke_server.rs\<close>,
    \<^verbatim>\<open>sub_command/ntp_server.rs\<close>, \<^verbatim>\<open>metrics.rs\<close>. Servers start the threads and have the state
    their configuration asks for; for which peers the wait of the metrics server for a request returns, and with what.
  \<^item> \<open>Experiment\<close>, \<open>Main_Program\<close>: \<^verbatim>\<open>sub_command/client.rs\<close>, \<^verbatim>\<open>main.rs\<close>, \<^verbatim>\<open>cmd.rs\<close>.
  \<^item> This theory: the properties of the protocol as a whole.

  \<^bold>\<open>Loops.\<close> Loops over data are total functions with a termination proof; there is no fuel. The loops that
  never end (the receive loop, the listener, the rotation thread, the upstream refresh, the accept loop of the metrics server)
  are functions on the list of what the outside delivers to them, and are proved for all such lists. The wait of the metrics server
  for a request reads from a peer that may never stop sending; it is a \<open>partial_function\<close> whose value is \<open>None\<close> when it does not
  return, and the peers for which it returns are characterised. The loop of an auxiliary client of the experiment is the infinite
  stream of its iterations.

  \<^bold>\<open>Not modelled.\<close> Log messages, the version gauge and the \<^verbatim>\<open>Debug\<close> and \<^verbatim>\<open>description\<close> texts have no effect on the
  properties. The scheduling of threads is not modelled: a thread is one of the functions above, and what other threads
  change (the rotator, the server state) is read from arguments that may differ at every step. The jobs of the
  experiment are taken one after the other. Writes of the unsynchronised \<^verbatim>\<open>CLIENT_ADDR\<close> by another thread
  are not modelled, nor are NaN and the overflow of floating point numbers, which the code does not reach except in
  \<^verbatim>\<open>inter_request_time\<close>, where the infinite value is a case of its own. The unit tests in the
  sources are not part of the program.
\<close>

section \<open>Properties\<close>

text \<open>
  C1: The whole protocol works: a client that reaches the key exchange server over TLS and then
  the NTP server gets the time. The client's request, read by the server's connection, produces
  a response from which the client takes keys, cookies and port; the NTP request it then
  makes with its first cookie is answered; and the client accepts this answer, reports the
  server's stratum, and reports the clock offset of the four instants at which the two packets
  were sent and received with an error below 16 microseconds. The NTP server needs the key that
  was the key exchange server's latest one; the AEAD decrypts what it encrypts; both ends of the TLS session
  export the same keys.
\<close>

theorem nts_end_to_end:
  assumes A: "aead_correct A" "aead_expands A"
    and ke: "ke_serving kenv kw rotator pl" "tls_sound ops" "tls_log ops out" "fresh_conn out c"
    and keys: "gen_key (export_keying_material ops (tls_session c)) = Ok keys"
      "gen_key (client_export cenv) = Ok keys" "wf_keys keys"
    and reach: "client_connects cenv cfg" "ntp_online nenv (cc_host cfg) port (cc_use_ipv4 cfg)"
    and shared: "kr_get (lock_val keys_lock) (latest_key_id (lock_val rotator)) =
      kr_get (lock_val rotator) (latest_key_id (lock_val rotator))"
    and ntp: "serving senv sw t2 t keys_lock servstate"
    and random: "length (random_unique_id nenv) = 32" "length (random_nonce nenv) = NONCE_LEN"
    and era: "in_era (t1_now nenv)" "in_era t2" "in_era (late_now senv)" "in_era (t4_now nenv)"
  shows "\<exists>request c' kw' res query sw' answer r.
    client_request = (Ok request :: (bytes, ke_client_error) result) \<and>
    read_plaintext ops A rotator port kenv request (c, kw) = ((c', kw'), Ok () :: (unit, io_error) result) \<and>
    run_nts_ke_client (cenv\<lparr>tls_incoming := out (tls_session c')\<rparr>) cfg = Ok res \<and>
    serialize_nts_packet A (c2s (res_keys res)) (random_nonce nenv)
      (client_packet (random_unique_id nenv) (hd (res_cookies res))) = (Ok query :: (bytes, ntp_client_failure) result) \<and>
    response A senv query t2 t keys_lock servstate sw = (sw', Ok answer) \<and>
    run_nts_ntp_client A (nenv\<lparr>udp_recv := Ok answer\<rparr>) res = Ok r \<and>
    result_stratum r = ss_stratum (lock_val servstate) \<and>
    \<bar>time_diff r - of_int ((t2 - t1_now nenv) + (late_now senv - t4_now nenv)) / (2 * 10 ^ 9)\<bar> \<le> 1 / 65536"
proof -
  let ?rot = "lock_val rotator" and ?res = "exchanged A kenv cfg keys (lock_val rotator) port"
  obtain request c' kw' where e: "client_request = (Ok request :: (bytes, ke_client_error) result)"
    "read_plaintext ops A rotator port kenv request (c, kw) = ((c', kw'), Ok () :: (unit, io_error) result)"
    "run_nts_ke_client (cenv\<lparr>tls_incoming := out (tls_session c')\<rparr>) cfg = Ok ?res"
    using exchange_agrees [OF A(2) ke keys(1) reach(1) keys(2,3)] by metis
  obtain k where k: "kr_get (lock_val keys_lock) (latest_key_id ?rot) = Some k"
      "the (kr_get ?rot (latest_key_id ?rot)) = k"
    using ke(1) shared by (auto simp: ke_serving_def rotator_up_def kr_get_def)
  have "res_cookies ?res = make_cookie A (ke_cookie_nonce kenv 0) (res_keys ?res) k (latest_key_id ?rot) #
      map (ke_cookie A kenv keys ?rot) [1..<8]"
    by (simp add: exchanged_def ke_cookie_def k(2) upt_conv_Cons)
  moreover have "length (ke_cookie_nonce kenv 0) = 16" using ke(1) by (simp add: ke_serving_def ke_nonces_ok_def)
  moreover have "wf_keys (res_keys ?res)" using keys(3) by (simp add: exchanged_def)
  moreover have "ntp_online nenv (res_next_server ?res) (res_next_port ?res) (res_use_ipv4 ?res)"
    using reach(2) by (simp add: exchanged_def)
  ultimately show ?thesis
    using time_transfer [of A ?res, OF A _ _ _ k(1) ntp _ random era] e by metis
qed

theorem nts_end_to_end_witness:
  "\<exists>request c' kw' res query sw' answer r.
    client_request = (Ok request :: (bytes, ke_client_error) result) \<and>
    read_plaintext script_ops checksum_aead ke_up_rotator 123 ke_up_env request (net_conn, ke_up_world) =
      ((c', kw'), Ok () :: (unit, io_error) result) \<and>
    run_nts_ke_client (net_ke_env\<lparr>tls_incoming := script_out (tls_session c')\<rparr>) net_config = Ok res \<and>
    serialize_nts_packet checksum_aead (c2s (res_keys res)) (random_nonce net_ntp_env)
      (client_packet (random_unique_id net_ntp_env) (hd (res_cookies res))) = (Ok query :: (bytes, ntp_client_failure) result) \<and>
    response checksum_aead up_env query sample_now sample_now up_keys up_state up_world = (sw', Ok answer) \<and>
    run_nts_ntp_client checksum_aead (net_ntp_env\<lparr>udp_recv := Ok answer\<rparr>) res = Ok r \<and>
    result_stratum r = ss_stratum (lock_val up_state) \<and>
    \<bar>time_diff r - of_int ((sample_now - t1_now net_ntp_env) + (late_now up_env - t4_now net_ntp_env)) / (2 * 10 ^ 9)\<bar> \<le> 1 / 65536"
  by (rule nts_end_to_end [OF checksum_aead_correct checksum_aead_expands ke_up_serving script_sound script_log
        net_fresh net_gen_key(2,1) net_wf_keys net_connects _ _ up_serving net_lengths net_era(1,3,4,2)])
    (simp_all add: net_config_def net_online new_lock_def ke_up_rotator_def up_rotator_def)



text \<open>
  C28: No key exchange server can make the key exchange client panic: once connected, whatever
  plaintext arrives and wherever it ends, the client returns a result or an error.
\<close>

theorem ke_client_no_panic:
  assumes "client_connects env cfg" and "gen_key (client_export env) = Ok keys"
  shows "\<not> panics (run_nts_ke_client env cfg)"
  by (rule ke_client_survives [OF assms])

theorem ke_client_no_panic_witness:
  "\<not> panics (run_nts_ke_client (net_ke_env\<lparr>tls_incoming := [0x80, 9, 0xff]\<rparr>) net_config)"
  by (rule ke_client_no_panic [of _ _ net_keys]) (use net_connects net_gen_key(1) in simp_all)

text \<open>
  A server that sends an End of Message record and nothing else panics the client: the key
  exchange succeeds without a cookie, and the NTP client then indexes the empty list of cookies.
\<close>

lemma cookieless_exchange_panics_client:
  assumes "client_connects cenv cfg" and "gen_key (client_export cenv) = Ok keys"
    and "tls_incoming cenv = [0x80, 0, 0, 0]"
    and "ntp_online nenv (cc_host cfg) DEFAULT_NTP_PORT (cc_use_ipv4 cfg)"
  shows "\<exists>res. run_nts_ke_client cenv cfg = Ok res \<and> panics (run_nts_ntp_client A nenv res)"
proof -
  let ?res = "client_result cfg keys (empty_record_state\<lparr>finished := True\<rparr>)"
  have "ke_bytes (KeEndOfMessage EndOfMessageRecord) = [0x80, 0, 0, 0]"
    by (simp add: ke_bytes_def serialize_def end_of_message_trait_def u16_to_be_def)
  with assms(3) have "run_nts_ke_client cenv cfg = Ok ?res"
    by (intro bare_end_of_message [OF assms(1,2)]) simp
  moreover have "panics (run_nts_ntp_client A nenv ?res)"
    by (rule no_cookie_panics) (use assms(4) in \<open>simp_all add: client_result_def empty_record_state_def\<close>)
  ultimately show ?thesis by blast
qed

lemma cookieless_exchange_panics_client_witness:
  "\<exists>res. run_nts_ke_client (net_ke_env\<lparr>tls_incoming := [0x80, 0, 0, 0]\<rparr>) net_config = Ok res \<and>
     panics (run_nts_ntp_client checksum_aead net_ntp_env res)"
  by (rule cookieless_exchange_panics_client [of _ _ net_keys])
    (use net_connects net_gen_key(1) net_online in \<open>simp_all add: net_config_def\<close>)

text \<open>
  C5: The NTP client takes the time only from an answer its server has sealed for its own request. Suppose that under the
  server-to-client key the AEAD opens nothing but what was sealed with the header and the extensions, at
  least one of them, of a packet in \<open>answers\<close>. When the client returns a result, whatever datagram it received, complete
  or cut short or with other data appended, there is a packet in \<open>answers\<close> whose first extension carries
  the identifier drawn for the request, the stratum is the one of that packet, and the time difference is, to
  within 1/65536 of a second, the offset computed from the two timestamps of that packet and the client's two readings of
  its clock, both in the first NTP era.
\<close>

theorem ntp_client_accepts_only_authenticated:
  assumes "run_nts_ntp_client A env state = Ok res"
    and "opens_only_sealed A (s2c (res_keys state)) answers"
    and "in_era (t1_now env)" and "in_era (t4_now env)"
  shows "\<exists>q\<in>answers. contents (hd (auth_exts q)) = random_unique_id env \<and>
    result_stratum res = stratum (nts_header q) \<and>
    \<bar>time_diff res - ((of_nat (unat (receive_timestamp (nts_header q))) / 2 ^ 32 - ntp_seconds (t1_now env)) +
       (of_nat (unat (transmit_timestamp (nts_header q))) / 2 ^ 32 - ntp_seconds (t4_now env))) / 2\<bar> \<le> 1 / 65536"
  by (rule client_accepts_genuine [OF assms])

theorem ntp_client_accepts_only_authenticated_witness:
  "\<exists>datagram res. run_nts_ntp_client net_aead (net_ntp_env\<lparr>udp_recv := Ok datagram\<rparr>) net_result = Ok res \<and>
    opens_only_sealed net_aead (s2c (res_keys net_result)) {net_answer} \<and> result_stratum res = 1 \<and>
    \<bar>time_diff res - ((1 - ntp_seconds (t1_now net_ntp_env)) + (2 - ntp_seconds (t4_now net_ntp_env))) / 2\<bar> \<le> 1 / 65536"
proof -
  obtain datagram res where run: "run_nts_ntp_client net_aead (net_ntp_env\<lparr>udp_recv := Ok datagram\<rparr>) net_result = Ok res"
    by (rule net_accepts)
  show ?thesis
    using ntp_client_accepts_only_authenticated [OF run net_opens_only_sealed] net_era(1,2) run net_opens_only_sealed
    by (auto simp: net_answer_def client_header_def intro!: exI [of _ datagram] exI [of _ res])
qed

end
